theory Spec2Isabelle
  imports Main "HOL-Library.Monad_Syntax" "HOL-Library.Code_Target_Nat"
begin

section \<open>Python strings\<close>

text \<open>
  A Python \<^verbatim>\<open>str\<close> is a sequence of Unicode code points, and \<^verbatim>\<open>len\<close> counts code
  points, so a string is modelled as a list of code points (natural numbers).  The source
  contains literals outside ASCII (the right single quotation mark U+2019 in the soup
  labels, the en dash U+2013, the em dash U+2014 and the bullet U+2022), which are
  written as their code points.
\<close>

type_synonym codepoint = nat
type_synonym ustring = "codepoint list"

definition u :: "string \<Rightarrow> ustring" where
  "u s = map of_char s"

text \<open>
  \<^verbatim>\<open>str.isspace\<close>, \<^verbatim>\<open>str.strip()\<close> and the regular expression class \<^verbatim>\<open>\s\<close> share
  CPython's table of white space, which is modelled in full.
\<close>

definition isspace :: "codepoint \<Rightarrow> bool" where
  "isspace c \<longleftrightarrow>
     (9 \<le> c \<and> c \<le> 13) \<or> (28 \<le> c \<and> c \<le> 32) \<or> c = 133 \<or> c = 160 \<or> c = 5760 \<or>
     (8192 \<le> c \<and> c \<le> 8202) \<or> c = 8232 \<or> c = 8233 \<or> c = 8239 \<or> c = 8287 \<or> c = 12288"

section \<open>What the program takes from its libraries\<close>

text \<open>
  The rest of what the program asks of a character belongs to the Unicode database of
  the Python runtime, of the \<^verbatim>\<open>re\<close> module and of two libraries that are not part of the
  repository.  On the ASCII range the answers are fixed and are written out below.
  Beyond ASCII they are the fields of a record \<open>L\<close> that every function takes, so
  that every theorem holds for whatever the runtime answers:
  \<^item> \<open>x_isalpha\<close>: \<^verbatim>\<open>str.isalpha\<close> of a character;
  \<^item> \<open>x_isword\<close>: the class \<^verbatim>\<open>\w\<close> of a regular expression, which decides \<^verbatim>\<open>\b\<close>;
  \<^item> \<open>x_isdecimal\<close> and \<open>x_decimal\<close>: the class \<^verbatim>\<open>\d\<close> and the value \<^verbatim>\<open>int\<close> gives
    such a digit;
  \<^item> \<open>x_upper\<close>: \<^verbatim>\<open>str.upper\<close> of the string of one character, which may have more than
    one character;
  \<^item> \<open>x_lower\<close>: what \<^verbatim>\<open>str.lower\<close> puts for the character at a position of a string
    (the lower case of some characters depends on their neighbours, and may have more
    than one character);
  \<^item> \<open>x_ci\<close>: whether a character of the text matches a letter of a pattern under
    \<^verbatim>\<open>re.IGNORECASE\<close>, and \<open>x_ci_az\<close>: whether it matches the class \<^verbatim>\<open>[A-Za-z]\<close>;
  \<^item> \<open>x_dmy\<close>: \<^verbatim>\<open>date.fromisoformat\<close> followed by \<^verbatim>\<open>strftime('%d/%m/%Y')\<close>, \<open>None\<close> where
    \<^verbatim>\<open>fromisoformat\<close> raises (what it reads depends on the Python version, the padding
    of years below 1000 on the platform);
  \<^item> \<open>x_rich_str\<close>: \<^verbatim>\<open>str\<close> of a docxtpl \<^verbatim>\<open>RichText\<close>, its XML.
\<close>

datatype rtext = Plain ustring | Yellow rtext

record pylib =
  x_isalpha :: "codepoint \<Rightarrow> bool"
  x_isword :: "codepoint \<Rightarrow> bool"
  x_isdecimal :: "codepoint \<Rightarrow> bool"
  x_decimal :: "codepoint \<Rightarrow> nat"
  x_upper :: "codepoint \<Rightarrow> ustring"
  x_lower :: "ustring \<Rightarrow> nat \<Rightarrow> ustring"
  x_ci :: "codepoint \<Rightarrow> codepoint \<Rightarrow> bool"
  x_ci_az :: "codepoint \<Rightarrow> bool"
  x_dmy :: "ustring \<Rightarrow> ustring option"
  x_rich_str :: "rtext \<Rightarrow> ustring"

definition isupper_ascii :: "codepoint \<Rightarrow> bool" where
  "isupper_ascii c \<longleftrightarrow> 65 \<le> c \<and> c \<le> 90"

definition islower_ascii :: "codepoint \<Rightarrow> bool" where
  "islower_ascii c \<longleftrightarrow> 97 \<le> c \<and> c \<le> 122"

definition isdigit_ascii :: "codepoint \<Rightarrow> bool" where
  "isdigit_ascii c \<longleftrightarrow> 48 \<le> c \<and> c \<le> 57"

definition lower_ascii :: "codepoint \<Rightarrow> codepoint" where
  "lower_ascii c = (if isupper_ascii c then c + 32 else c)"

definition upper_ascii :: "codepoint \<Rightarrow> codepoint" where
  "upper_ascii c = (if islower_ascii c then c - 32 else c)"

definition isalpha :: "pylib \<Rightarrow> codepoint \<Rightarrow> bool" where
  "isalpha L c \<longleftrightarrow> (if c < 128 then isupper_ascii c \<or> islower_ascii c else x_isalpha L c)"

definition isdigit :: "pylib \<Rightarrow> codepoint \<Rightarrow> bool" where
  "isdigit L c \<longleftrightarrow> (if c < 128 then isdigit_ascii c else x_isdecimal L c)"

definition digit_val :: "pylib \<Rightarrow> codepoint \<Rightarrow> nat" where
  "digit_val L c = (if c < 128 then c - 48 else x_decimal L c)"

text \<open>The class \<^verbatim>\<open>\w\<close>: on ASCII the letters, the digits and the underscore.\<close>

definition isword :: "pylib \<Rightarrow> codepoint \<Rightarrow> bool" where
  "isword L c \<longleftrightarrow>
     (if c < 128 then isupper_ascii c \<or> islower_ascii c \<or> isdigit_ascii c \<or> c = 95
      else x_isword L c)"

text \<open>\<^verbatim>\<open>c.upper()\<close> for one character, and \<^verbatim>\<open>s.lower()\<close>, position by position.\<close>

definition upper1 :: "pylib \<Rightarrow> codepoint \<Rightarrow> ustring" where
  "upper1 L c = (if c < 128 then [upper_ascii c] else x_upper L c)"

definition lower_at :: "pylib \<Rightarrow> ustring \<Rightarrow> nat \<Rightarrow> ustring" where
  "lower_at L s i = (if s ! i < 128 then [lower_ascii (s ! i)] else x_lower L s i)"

definition str_lower :: "pylib \<Rightarrow> ustring \<Rightarrow> ustring" where
  "str_lower L s = concat (map (lower_at L s) [0..<length s])"

text \<open>
  Matching under \<^verbatim>\<open>re.IGNORECASE\<close>: \<open>ci_eq L c p\<close> for a character \<open>c\<close> of the text
  and a lower case ASCII letter \<open>p\<close> of the pattern, \<open>ci_az L c\<close> for the class
  \<^verbatim>\<open>[A-Za-z]\<close>, and \<open>ci_startswith L w s\<close> for a word \<open>w\<close> of lower case ASCII
  letters at the start of \<open>s\<close>.
\<close>

definition ci_eq :: "pylib \<Rightarrow> codepoint \<Rightarrow> codepoint \<Rightarrow> bool" where
  "ci_eq L c p \<longleftrightarrow> (if c < 128 then lower_ascii c = p else x_ci L c p)"

definition ci_az :: "pylib \<Rightarrow> codepoint \<Rightarrow> bool" where
  "ci_az L c \<longleftrightarrow> (if c < 128 then isupper_ascii c \<or> islower_ascii c else x_ci_az L c)"

fun ci_startswith :: "pylib \<Rightarrow> ustring \<Rightarrow> ustring \<Rightarrow> bool" where
  "ci_startswith L [] s = True"
| "ci_startswith L (p # ps) [] = False"
| "ci_startswith L (p # ps) (c # cs) = (ci_eq L c p \<and> ci_startswith L ps cs)"

text \<open>\<^verbatim>\<open>s.lstrip()\<close>, \<^verbatim>\<open>s.rstrip()\<close>, \<^verbatim>\<open>s.strip()\<close> and their variants with a set of characters.\<close>

definition lstrip_by :: "(codepoint \<Rightarrow> bool) \<Rightarrow> ustring \<Rightarrow> ustring" where
  "lstrip_by P s = dropWhile P s"

definition rstrip_by :: "(codepoint \<Rightarrow> bool) \<Rightarrow> ustring \<Rightarrow> ustring" where
  "rstrip_by P s = rev (dropWhile P (rev s))"

definition strip_by :: "(codepoint \<Rightarrow> bool) \<Rightarrow> ustring \<Rightarrow> ustring" where
  "strip_by P s = rstrip_by P (lstrip_by P s)"

definition str_strip :: "ustring \<Rightarrow> ustring" where
  "str_strip s = strip_by isspace s"

definition strip_chars :: "ustring \<Rightarrow> ustring \<Rightarrow> ustring" where
  "strip_chars cs s = strip_by (\<lambda>c. c \<in> set cs) s"

definition rstrip_chars :: "ustring \<Rightarrow> ustring \<Rightarrow> ustring" where
  "rstrip_chars cs s = rstrip_by (\<lambda>c. c \<in> set cs) s"

text \<open>\<^verbatim>\<open>s.startswith(p)\<close> and the substring test \<^verbatim>\<open>p in s\<close>.\<close>

fun startswith :: "ustring \<Rightarrow> ustring \<Rightarrow> bool" where
  "startswith [] s = True"
| "startswith (p # ps) [] = False"
| "startswith (p # ps) (c # cs) = (p = c \<and> startswith ps cs)"

fun contains :: "ustring \<Rightarrow> ustring \<Rightarrow> bool" where
  "contains p [] = (p = [])"
| "contains p (c # cs) = (startswith p (c # cs) \<or> contains p cs)"

section \<open>Text normalizer\<close>

text \<open>
  \<^verbatim>\<open>strip_suffixes\<close> is \<^verbatim>\<open>re.sub(r"\s*\((Ve|V)\)\s*$", "", s).strip()\<close>.  At a start position
  the pattern matches when the white space there is followed by one of the two tags and
  then by white space only, up to the end of the string (\<^verbatim>\<open>\s*\<close> is greedy and the tag
  starts with a character that is not white space, so the leading run is the maximal
  one).  A match always reaches the end of the string, so the substitution cuts the
  string at the left-most position where the pattern matches.
\<close>

definition tag_match :: "ustring \<Rightarrow> bool" where
  "tag_match r =
     (let r' = dropWhile isspace r in
        (startswith (u ''(Ve)'') r' \<and> list_all isspace (drop 4 r')) \<or>
        (startswith (u ''(V)'') r' \<and> list_all isspace (drop 3 r')))"

fun sub_suffix_tag :: "ustring \<Rightarrow> ustring" where
  "sub_suffix_tag [] = []"
| "sub_suffix_tag (c # cs) = (if tag_match (c # cs) then [] else c # sub_suffix_tag cs)"

definition strip_suffixes :: "ustring \<Rightarrow> ustring" where
  "strip_suffixes s = str_strip (sub_suffix_tag s)"

definition add_suffix :: "ustring \<Rightarrow> ustring \<Rightarrow> ustring" where
  "add_suffix s suffix = str_strip (strip_suffixes s @ u '' '' @ suffix)"

text \<open>\<^verbatim>\<open>s.replace(old, new)\<close>: the occurrences of \<^verbatim>\<open>old\<close> are replaced from the left, without
  overlap.  For the empty \<^verbatim>\<open>old\<close> Python inserts \<^verbatim>\<open>new\<close> before every character and at the
  end.\<close>

fun replace_ne :: "ustring \<Rightarrow> ustring \<Rightarrow> ustring \<Rightarrow> ustring" where
  "replace_ne old new [] = []"
| "replace_ne old new (c # cs) =
     (if startswith old (c # cs) then new @ replace_ne old new (drop (length old - 1) cs)
      else c # replace_ne old new cs)"

definition str_replace :: "ustring \<Rightarrow> ustring \<Rightarrow> ustring \<Rightarrow> ustring" where
  "str_replace old new s =
     (if old = [] then new @ concat (map (\<lambda>c. c # new) s) else replace_ne old new s)"

text \<open>\<^verbatim>\<open>s.split(sep)\<close> for a separator of one character, and \<^verbatim>\<open>sep.join(parts)\<close>.\<close>

fun split_on :: "codepoint \<Rightarrow> ustring \<Rightarrow> ustring list" where
  "split_on d [] = [[]]"
| "split_on d (c # cs) =
     (if c = d then [] # split_on d cs
      else (case split_on d cs of [] \<Rightarrow> [[c]] | p # ps \<Rightarrow> (c # p) # ps))"

fun str_join :: "ustring \<Rightarrow> ustring list \<Rightarrow> ustring" where
  "str_join sep [] = []"
| "str_join sep [x] = x"
| "str_join sep (x # y # ys) = x @ sep @ str_join sep (y # ys)"

text \<open>
  \<^verbatim>\<open>re.split(pattern, s)\<close> for a pattern that never matches the empty string.  The
  function \<open>f\<close> gives the length of the match of the pattern that starts at the head of
  the text (0 when there is none); it is told the character before the position, which
  a pattern with \<^verbatim>\<open>\b\<close> needs.  The scan goes from the left, a match closes the current
  part, and the scan resumes behind the match.
\<close>

function re_split_by ::
  "(codepoint option \<Rightarrow> ustring \<Rightarrow> nat) \<Rightarrow> codepoint option \<Rightarrow> ustring \<Rightarrow> ustring \<Rightarrow> ustring list"
where
  "re_split_by f prev cur [] = [cur]"
| "re_split_by f prev cur (c # cs) =
     (if f prev (c # cs) = 0 then re_split_by f (Some c) (cur @ [c]) cs
      else cur # re_split_by f (Some (last (take (f prev (c # cs)) (c # cs)))) []
                   (drop (f prev (c # cs)) (c # cs)))"
  by pat_completeness auto
termination
  by (relation "measure (\<lambda>(f, prev, cur, s). length s)") auto

text \<open>The first alphabetic character of \<^verbatim>\<open>sentence_case\<close>:
  \<^verbatim>\<open>next((i for i, c in enumerate(s) if c.isalpha()), None)\<close>.\<close>

fun first_alpha_idx :: "pylib \<Rightarrow> ustring \<Rightarrow> nat option" where
  "first_alpha_idx L [] = None"
| "first_alpha_idx L (c # cs) =
     (if isalpha L c then Some 0 else map_option Suc (first_alpha_idx L cs))"

definition sentence_case :: "pylib \<Rightarrow> ustring \<Rightarrow> ustring" where
  "sentence_case L s0 =
     (let s = str_strip s0 in
      if s = [] then s
      else (case first_alpha_idx L s of
              None \<Rightarrow> s
            | Some i \<Rightarrow> take i s @ upper1 L (s ! i) @ str_lower L (drop (i + 1) s)))"

text \<open>\<^verbatim>\<open>normalise_sides\<close>.  The separators of
  \<^verbatim>\<open>re.split(r",|/|\t+|\s{2,}|\n+", raw)\<close> are tried in the order of the alternatives: a
  comma, a slash, a run of tabs, a run of two or more white space characters, a run of
  newlines.\<close>

definition sides_sep_len :: "codepoint option \<Rightarrow> ustring \<Rightarrow> nat" where
  "sides_sep_len prev s =
     (case s of
        [] \<Rightarrow> 0
      | c # _ \<Rightarrow>
          if c = 44 \<or> c = 47 then 1
          else if c = 9 then length (takeWhile (\<lambda>x. x = 9) s)
          else if 2 \<le> length (takeWhile isspace s) then length (takeWhile isspace s)
          else if c = 10 then length (takeWhile (\<lambda>x. x = 10) s)
          else 0)"

fun uniq_ci :: "pylib \<Rightarrow> ustring list \<Rightarrow> ustring list \<Rightarrow> ustring list" where
  "uniq_ci L seen [] = []"
| "uniq_ci L seen (p # ps) =
     (if str_lower L p \<in> set seen then uniq_ci L seen ps
      else p # uniq_ci L (str_lower L p # seen) ps)"

definition normalise_sides :: "pylib \<Rightarrow> ustring \<Rightarrow> ustring" where
  "normalise_sides L text =
     (if text = [] then []
      else
        let raw = str_replace [13] [10] text;
            parts = re_split_by sides_sep_len None [] raw;
            parts' = map (\<lambda>p. str_strip (rstrip_chars (u ''.'') (strip_chars [32, 45, 8211, 8226] p)))
                       (filter (\<lambda>p. p \<noteq> [] \<and> str_strip p \<noteq> []) parts)
        in str_join (u '', '') (uniq_ci L [] parts'))"

text \<open>\<^verbatim>\<open>ensure_len\<close>: the list is copied, padded with the filler up to \<open>n\<close> elements and cut
  to \<open>n\<close> elements.  The copy is shallow: the elements of the result are the elements of
  the argument.\<close>

function ensure_len :: "'a list \<Rightarrow> nat \<Rightarrow> 'a \<Rightarrow> 'a list" where
  "ensure_len out n filler =
     (if length out < n then ensure_len (out @ [filler]) n filler else take n out)"
  by pat_completeness auto
termination
  by (relation "measure (\<lambda>(out, n, filler). n - length out)") auto

declare ensure_len.simps [simp del]


section \<open>Dates\<close>

text \<open>
  \<^verbatim>\<open>to_iso\<close> calls \<^verbatim>\<open>datetime.datetime.strptime\<close> with three formats.  CPython turns a
  format into a regular expression, matches it at the start of the text, and refuses
  text that remains: \<^verbatim>\<open>%d\<close> is \<^verbatim>\<open>3[0-1]|[1-2]\d|0[1-9]|[1-9]| [1-9]\<close>, \<^verbatim>\<open>%m\<close> is
  \<^verbatim>\<open>1[0-2]|0[1-9]|[1-9]\<close>, \<^verbatim>\<open>%Y\<close> is four digits and \<^verbatim>\<open>%y\<close> is two digits (0 to 68 are
  the years 2000 to 2068, 69 to 99 the years 1969 to 1999).  None of the fields can hold
  the separator of its format, so the text is cut at the separators and every field is
  matched as a whole.  The date constructor then refuses the year 0 and a day the month
  does not have.  The class \<^verbatim>\<open>\d\<close> and the value of a digit are those of the library
  record; the classes written with ASCII digits are themselves.
\<close>

datatype fmt = DMY4 | DMY2 | YMD

record date =
  year :: nat
  month :: nat
  day :: nat

definition nonzero_digit :: "codepoint \<Rightarrow> bool" where
  "nonzero_digit c \<longleftrightarrow> 49 \<le> c \<and> c \<le> 57"

definition field_d :: "pylib \<Rightarrow> ustring \<Rightarrow> nat option" where
  "field_d L s =
     (case s of
        [a] \<Rightarrow> if nonzero_digit a then Some (digit_val L a) else None
      | [a, b] \<Rightarrow>
          if a = 51 \<and> (b = 48 \<or> b = 49) then Some (30 + digit_val L b)
          else if (a = 49 \<or> a = 50) \<and> isdigit L b then Some (10 * digit_val L a + digit_val L b)
          else if a = 48 \<and> nonzero_digit b then Some (digit_val L b)
          else if a = 32 \<and> nonzero_digit b then Some (digit_val L b)
          else None
      | _ \<Rightarrow> None)"

definition field_m :: "pylib \<Rightarrow> ustring \<Rightarrow> nat option" where
  "field_m L s =
     (case s of
        [a] \<Rightarrow> if nonzero_digit a then Some (digit_val L a) else None
      | [a, b] \<Rightarrow>
          if a = 49 \<and> (b = 48 \<or> b = 49 \<or> b = 50) then Some (10 + digit_val L b)
          else if a = 48 \<and> nonzero_digit b then Some (digit_val L b)
          else None
      | _ \<Rightarrow> None)"

definition field_Y :: "pylib \<Rightarrow> ustring \<Rightarrow> nat option" where
  "field_Y L s =
     (case s of
        [a, b, c, d] \<Rightarrow>
          if isdigit L a \<and> isdigit L b \<and> isdigit L c \<and> isdigit L d
          then Some (1000 * digit_val L a + 100 * digit_val L b + 10 * digit_val L c + digit_val L d)
          else None
      | _ \<Rightarrow> None)"

definition field_y :: "pylib \<Rightarrow> ustring \<Rightarrow> nat option" where
  "field_y L s =
     (case s of
        [a, b] \<Rightarrow>
          if isdigit L a \<and> isdigit L b
          then (let v = 10 * digit_val L a + digit_val L b in Some (if v \<le> 68 then 2000 + v else 1900 + v))
          else None
      | _ \<Rightarrow> None)"

definition is_leap :: "nat \<Rightarrow> bool" where
  "is_leap y \<longleftrightarrow> y mod 4 = 0 \<and> (y mod 100 \<noteq> 0 \<or> y mod 400 = 0)"

definition days_in_month :: "nat \<Rightarrow> nat \<Rightarrow> nat" where
  "days_in_month y m =
     (if m = 2 then (if is_leap y then 29 else 28)
      else if m = 4 \<or> m = 6 \<or> m = 9 \<or> m = 11 then 30 else 31)"

definition make_date :: "nat \<Rightarrow> nat \<Rightarrow> nat \<Rightarrow> date option" where
  "make_date y m d =
     (if 1 \<le> y \<and> y \<le> 9999 \<and> 1 \<le> m \<and> m \<le> 12 \<and> 1 \<le> d \<and> d \<le> days_in_month y m
      then Some \<lparr>year = y, month = m, day = d\<rparr> else None)"

definition strptime :: "pylib \<Rightarrow> fmt \<Rightarrow> ustring \<Rightarrow> date option" where
  "strptime L f s =
     (case f of
        DMY4 \<Rightarrow>
          (case split_on 47 s of
             [d, m, y] \<Rightarrow> do { dd \<leftarrow> field_d L d; mm \<leftarrow> field_m L m; yy \<leftarrow> field_Y L y; make_date yy mm dd }
           | _ \<Rightarrow> None)
      | DMY2 \<Rightarrow>
          (case split_on 47 s of
             [d, m, y] \<Rightarrow> do { dd \<leftarrow> field_d L d; mm \<leftarrow> field_m L m; yy \<leftarrow> field_y L y; make_date yy mm dd }
           | _ \<Rightarrow> None)
      | YMD \<Rightarrow>
          (case split_on 45 s of
             [y, m, d] \<Rightarrow> do { yy \<leftarrow> field_Y L y; mm \<leftarrow> field_m L m; dd \<leftarrow> field_d L d; make_date yy mm dd }
           | _ \<Rightarrow> None))"

text \<open>\<^verbatim>\<open>date.isoformat()\<close>: the year on four digits, the month and the day on two.\<close>

definition digit_chr :: "nat \<Rightarrow> codepoint" where
  "digit_chr n = 48 + n mod 10"

definition isoformat :: "date \<Rightarrow> ustring" where
  "isoformat d =
     [digit_chr (year d div 1000), digit_chr (year d div 100), digit_chr (year d div 10),
      digit_chr (year d), 45,
      digit_chr (month d div 10), digit_chr (month d), 45,
      digit_chr (day d div 10), digit_chr (day d)]"

text \<open>The loop of \<^verbatim>\<open>to_iso\<close> over the formats: the first format that parses returns, an
  exception of \<^verbatim>\<open>strptime\<close> moves on to the next format, and the stripped text is
  returned when no format is left.\<close>

fun to_iso_loop :: "pylib \<Rightarrow> ustring \<Rightarrow> fmt list \<Rightarrow> ustring" where
  "to_iso_loop L ds [] = ds"
| "to_iso_loop L ds (f # fs) =
     (case strptime L f ds of Some d \<Rightarrow> isoformat d | None \<Rightarrow> to_iso_loop L ds fs)"

definition to_iso :: "pylib \<Rightarrow> ustring \<Rightarrow> ustring" where
  "to_iso L date_str = (let ds = str_strip date_str in to_iso_loop L ds [DMY4, DMY2, YMD])"

text \<open>\<^verbatim>\<open>date_label\<close>: the weekday, an en dash between two blanks, and the date as the
  library prints it, or the ISO text itself where the library cannot read it.\<close>

definition date_label :: "pylib \<Rightarrow> ustring \<Rightarrow> ustring \<Rightarrow> ustring" where
  "date_label L iso_date weekday_name =
     (case x_dmy L iso_date of
        Some l \<Rightarrow> weekday_name @ [32, 8211, 32] @ l
      | None \<Rightarrow> weekday_name @ [32, 8211, 32] @ iso_date)"

section \<open>Allergen vocabulary\<close>

text \<open>The sixteen canonical columns (\<^verbatim>\<open>CANON_COLS\<close>), in the order of the source.\<close>

datatype allergen =
  Celery | Cereals_with_Gluten | Crustaceans | Eggs | Fish | Lupin | Milk | Molluscs |
  Mustards | Peanuts | Nuts_from_Trees | Sesame | Soybeans | Sulphur | Alcohol | Pork

definition ALLERGEN_NORMALISE :: "(ustring \<times> allergen) list" where
  "ALLERGEN_NORMALISE =
     [(u ''celery'', Celery),
      (u ''gluten'', Cereals_with_Gluten),
      (u ''cereals with gluten'', Cereals_with_Gluten),
      (u ''crustaceans'', Crustaceans),
      (u ''egg'', Eggs),
      (u ''eggs'', Eggs),
      (u ''fish'', Fish),
      (u ''lupin'', Lupin),
      (u ''milk'', Milk),
      (u ''mollusc'', Molluscs),
      (u ''molluscs'', Molluscs),
      (u ''mustard'', Mustards),
      (u ''mustards'', Mustards),
      (u ''peanut'', Peanuts),
      (u ''peanuts'', Peanuts),
      (u ''tree nuts'', Nuts_from_Trees),
      (u ''nuts'', Nuts_from_Trees),
      (u ''sesame'', Sesame),
      (u ''soya'', Soybeans),
      (u ''soy'', Soybeans),
      (u ''soybeans'', Soybeans),
      (u ''sulphite'', Sulphur),
      (u ''sulphites'', Sulphur),
      (u ''sulfur dioxide'', Sulphur),
      (u ''sulphur dioxide'', Sulphur),
      (u ''sulphur'', Sulphur),
      (u ''alcohol'', Alcohol),
      (u ''pork'', Pork)]"

definition NON_VEGAN_CANON :: "allergen set" where
  "NON_VEGAN_CANON = {Milk, Eggs}"

text \<open>The tokens of a list separated by commas or slashes: \<^verbatim>\<open>csv_text.replace("/", ",")\<close>,
  \<^verbatim>\<open>split(",")\<close>, each token stripped, the empty ones dropped.\<close>

definition csv_tokens :: "ustring \<Rightarrow> ustring list" where
  "csv_tokens csv_text =
     map str_strip (filter (\<lambda>t. str_strip t \<noteq> []) (split_on 44 (str_replace [47] [44] csv_text)))"

definition parse_allergen_csv :: "pylib \<Rightarrow> ustring \<Rightarrow> allergen set" where
  "parse_allergen_csv L csv_text =
     (if csv_text = [] then {}
      else set (List.map_filter (map_of ALLERGEN_NORMALISE) (map (str_lower L) (csv_tokens csv_text))))"

definition scrub_vegan_csv_to_canonset :: "pylib \<Rightarrow> ustring \<Rightarrow> allergen set" where
  "scrub_vegan_csv_to_canonset L csv_text =
     {c \<in> parse_allergen_csv L csv_text. c \<notin> NON_VEGAN_CANON}"

definition remove_tokens_from_csv :: "pylib \<Rightarrow> ustring \<Rightarrow> ustring" where
  "remove_tokens_from_csv L csv_text =
     (if csv_text = [] then []
      else str_join (u '', '')
             (filter (\<lambda>t. str_lower L t \<notin> {u ''milk'', u ''egg'', u ''eggs''}) (csv_tokens csv_text)))"


section \<open>Cell parser\<close>

text \<open>
  \<^verbatim>\<open>ALLERGEN_TAIL_RE\<close> is
  \<^verbatim>\<open>\b(?:Milk|Egg|Soya|Gluten|Nuts|Peanuts|Sesame|Mustard|Celery|Sulphites|Fish|Crustaceans|Molluscs)\b.*$\<close>
  with \<^verbatim>\<open>re.IGNORECASE\<close>.  \<^verbatim>\<open>\b\<close> matches at a position when exactly one of the characters
  before and at the position is a word character (the ends of the string count as no
  word character).  Without \<^verbatim>\<open>re.DOTALL\<close> the dot matches every character but the
  newline, and without \<^verbatim>\<open>re.MULTILINE\<close> the dollar matches at the end of the string and
  before a newline that ends the string: \<^verbatim>\<open>.*$\<close> matches when the text behind the word
  has no newline but, at most, a last one.
\<close>

definition ALLERGEN_WORDS :: "ustring list" where
  "ALLERGEN_WORDS =
     [u ''milk'', u ''egg'', u ''soya'', u ''gluten'', u ''nuts'', u ''peanuts'', u ''sesame'',
      u ''mustard'', u ''celery'', u ''sulphites'', u ''fish'', u ''crustaceans'', u ''molluscs'']"

definition word_at :: "pylib \<Rightarrow> ustring \<Rightarrow> nat \<Rightarrow> bool" where
  "word_at L s i \<longleftrightarrow> i < length s \<and> isword L (s ! i)"

definition boundary :: "pylib \<Rightarrow> ustring \<Rightarrow> nat \<Rightarrow> bool" where
  "boundary L s i \<longleftrightarrow> ((0 < i \<and> word_at L s (i - 1)) \<noteq> word_at L s i)"

definition dot_star_eos :: "ustring \<Rightarrow> bool" where
  "dot_star_eos r \<longleftrightarrow> (let rest = dropWhile (\<lambda>c. c \<noteq> 10) r in rest = [] \<or> rest = [10])"

definition word_match_at :: "pylib \<Rightarrow> ustring \<Rightarrow> nat \<Rightarrow> ustring \<Rightarrow> bool" where
  "word_match_at L raw i w \<longleftrightarrow>
     boundary L raw i \<and> ci_startswith L w (drop i raw) \<and> boundary L raw (i + length w) \<and>
     dot_star_eos (drop (i + length w) raw)"

definition tail_match_at :: "pylib \<Rightarrow> ustring \<Rightarrow> nat \<Rightarrow> bool" where
  "tail_match_at L raw i \<longleftrightarrow> list_ex (word_match_at L raw i) ALLERGEN_WORDS"

text \<open>\<^verbatim>\<open>ALLERGEN_TAIL_RE.search(raw)\<close>: the start positions are tried from the left;
  \<^verbatim>\<open>m.start()\<close> is the first one where the pattern matches.\<close>

definition allergen_tail_search :: "pylib \<Rightarrow> ustring \<Rightarrow> nat option" where
  "allergen_tail_search L raw = List.find (tail_match_at L raw) [0..<length raw]"

text \<open>\<^verbatim>\<open>re.sub(r"[ \t]{2,}", "\n", body)\<close>: a run of two or more blanks or tabs becomes one
  newline.\<close>

definition blank :: "codepoint \<Rightarrow> bool" where
  "blank c \<longleftrightarrow> c = 32 \<or> c = 9"

function sub_long_blanks :: "ustring \<Rightarrow> ustring" where
  "sub_long_blanks [] = []"
| "sub_long_blanks (c # cs) =
     (if blank c \<and> takeWhile blank cs \<noteq> [] then 10 # sub_long_blanks (dropWhile blank cs)
      else c # sub_long_blanks cs)"
  by pat_completeness auto
termination
  by (relation "measure length") (auto simp: length_dropWhile_le less_Suc_eq_le)

text \<open>\<^verbatim>\<open>re.sub(r"\s*,\s*", ", ", allergens)\<close>: a comma with the white space around it
  becomes a comma and one blank.  The leading \<^verbatim>\<open>\s*\<close> is greedy and the comma is not
  white space, so a match starts where a run of white space that ends at a comma starts.\<close>

function sub_commas :: "ustring \<Rightarrow> ustring" where
  "sub_commas [] = []"
| "sub_commas (c # cs) =
     (case dropWhile isspace (c # cs) of
        [] \<Rightarrow> c # sub_commas cs
      | x # xs \<Rightarrow>
          if x = 44 then [44, 32] @ sub_commas (dropWhile isspace xs)
          else c # sub_commas cs)"
  by pat_completeness auto
termination
proof (relation "measure length")
  fix c :: codepoint and cs x xs
  assume "dropWhile isspace (c # cs) = x # xs"
  then have "length (x # xs) \<le> length (c # cs)"
    by (metis length_dropWhile_le)
  moreover have "length (dropWhile isspace xs) \<le> length xs"
    by (rule length_dropWhile_le)
  ultimately show "(dropWhile isspace xs, c # cs) \<in> measure length" by simp
qed auto

record dish =
  title :: ustring
  description :: ustring
  allergens :: ustring

text \<open>The lines of the body: runs of blanks become newlines, the body is split at the
  newlines, and the stripped lines that are not empty are kept.\<close>

definition body_lines :: "ustring \<Rightarrow> ustring list" where
  "body_lines body =
     filter (\<lambda>ln. ln \<noteq> []) (map str_strip (split_on 10 (sub_long_blanks body)))"

text \<open>The allergens tail with its commas normalised.\<close>

definition tidy_allergens :: "ustring \<Rightarrow> ustring" where
  "tidy_allergens a =
     (if a \<noteq> []
      then strip_chars (u '' ,'') (str_replace (u '' ,'') (u '','') (sub_commas a))
      else a)"

definition parse_title_desc_allergens :: "pylib \<Rightarrow> ustring \<Rightarrow> dish" where
  "parse_title_desc_allergens L cell_text =
     (let raw = str_strip (str_replace [13] [10] cell_text);
          m = allergen_tail_search L raw;
          allergens0 = (case m of Some i \<Rightarrow> str_strip (drop i raw) | None \<Rightarrow> []);
          body = (case m of Some i \<Rightarrow> str_strip (take i raw) | None \<Rightarrow> raw);
          lines = body_lines body;
          title = (case lines of [] \<Rightarrow> [] | l # _ \<Rightarrow> l);
          description = (if 1 < length lines then str_strip (str_join (u '' '') (tl lines)) else [])
      in \<lparr>title = title, description = description, allergens = tidy_allergens allergens0\<rparr>)"


section \<open>Week parser\<close>

text \<open>
  The weekly document is read through python-docx: \<^verbatim>\<open>doc.tables[0]\<close> is the grid, a list
  of rows of cell texts.  A document is modelled as the list of its tables.  The local
  function \<^verbatim>\<open>cell(r, c)\<close> answers the empty string for every cell it cannot read;
  \<^verbatim>\<open>doc.tables[0]\<close> itself raises on a document without a table, which is the result
  \<open>None\<close> of \<open>parse_week\<close>.

  A dictionary of the day record is a record here.  The dictionaries of the desserts,
  the optional sides, the supper starter and the selection have no description (and the
  selection no title); every reader of these keys in the source goes through
  \<^verbatim>\<open>.get(key, "")\<close>, so an absent key is the empty string.  The dictionaries of the
  lunch starters are the only ones the program ever assigns to (in
  \<^verbatim>\<open>build_standard_context\<close>, which may put a \<^verbatim>\<open>RichText\<close> for the title), so their
  title is a string or a \<^verbatim>\<open>RichText\<close>; the week parser builds them with strings.
\<close>

type_synonym grid = "ustring list list"

definition cell :: "grid \<Rightarrow> nat \<Rightarrow> nat \<Rightarrow> ustring" where
  "cell rows r c = (if r < length rows \<and> c < length (rows ! r) then rows ! r ! c else [])"

record header =
  hd_theme :: ustring
  hd_date :: ustring
  hd_date_iso :: ustring
  hd_weekday :: ustring

record starter =
  st_title :: rtext
  st_allergens :: ustring

record lunch =
  l_starters :: "starter list"
  l_veg_main :: dish
  l_meat_main :: dish
  l_vegan_main :: dish
  l_optional_sides :: dish
  l_desserts :: "dish list"

record supper =
  s_starter :: dish
  s_selection :: dish
  s_specials :: dish
  s_vegan_special :: dish
  s_desserts :: "dish list"

record source =
  src_lunch :: lunch
  src_supper :: supper

record day_record =
  dr_header :: header
  dr_source :: source

definition WEEKDAYS :: "ustring list" where
  "WEEKDAYS = [u ''Monday'', u ''Tuesday'', u ''Wednesday'', u ''Thursday'', u ''Friday'',
               u ''Saturday'', u ''Sunday'']"

definition ICE_CREAMS_V :: ustring where
  "ICE_CREAMS_V = u ''Ice creams / sorbet (V)''"

definition VEGAN_ICE_VE :: ustring where
  "VEGAN_ICE_VE = u ''Selection of vegan ice creams or sorbet with seasonal fruits (Ve)''"

definition SELECTION_ALLERGENS :: ustring where
  "SELECTION_ALLERGENS = u ''Sulphites, Gluten, Mustard, Soya''"

text \<open>\<open>CHEFS_SOUP\<close> is \<^verbatim>\<open>Chef's choice soup\<close> as the source writes it, with the right
  single quotation mark U+2019.\<close>

definition CHEFS_SOUP :: ustring where
  "CHEFS_SOUP = u ''Chef'' @ [8217] @ u ''s choice soup''"

definition title_allergens :: "dish \<Rightarrow> dish" where
  "title_allergens g = \<lparr>title = title g, description = [], allergens = allergens g\<rparr>"

definition starter_of :: "dish \<Rightarrow> starter" where
  "starter_of g = \<lparr>st_title = Plain (title g), st_allergens = allergens g\<rparr>"

definition EMPTY_ITEM :: dish where
  "EMPTY_ITEM = \<lparr>title = [], description = [], allergens = []\<rparr>"

definition EMPTY_STARTER :: starter where
  "EMPTY_STARTER = \<lparr>st_title = Plain [], st_allergens = []\<rparr>"

definition daily :: "pylib \<Rightarrow> grid \<Rightarrow> nat \<Rightarrow> day_record" where
  "daily L rows day_idx =
     (let name0 = str_strip (cell rows 0 (day_idx + 1));
          day_name = (if name0 \<noteq> [] then name0 else WEEKDAYS ! day_idx);
          date_iso = to_iso L (str_strip (cell rows 1 (day_idx + 1)));
          theme = str_strip (cell rows 2 (day_idx + 1));
          g = (\<lambda>r. parse_title_desc_allergens L (cell rows r (day_idx + 1)));
          lunch_starters = [starter_of (g 3), starter_of (g 4)];
          opt_raw = str_strip (str_join (u '' '') [title (g 8), description (g 8)]);
          opt_sides = \<lparr>title = normalise_sides L opt_raw, description = [], allergens = allergens (g 8)\<rparr>;
          desserts =
            [title_allergens (g 9),
             \<lparr>title = ICE_CREAMS_V, description = [], allergens = allergens (g 10)\<rparr>];
          supper_desserts =
            [title_allergens (g 16),
             \<lparr>title = VEGAN_ICE_VE, description = [], allergens = allergens (g 17)\<rparr>]
      in \<lparr>dr_header =
            \<lparr>hd_theme = theme, hd_date = date_label L date_iso day_name,
             hd_date_iso = date_iso, hd_weekday = day_name\<rparr>,
          dr_source =
            \<lparr>src_lunch =
               \<lparr>l_starters = ensure_len lunch_starters 2 EMPTY_STARTER,
                l_veg_main = g 6,
                l_meat_main = g 7,
                l_vegan_main = g 5,
                l_optional_sides = opt_sides,
                l_desserts = ensure_len desserts 2 EMPTY_ITEM\<rparr>,
             src_supper =
               \<lparr>s_starter = \<lparr>title = CHEFS_SOUP, description = [], allergens = allergens (g 12)\<rparr>,
                s_selection = \<lparr>title = [], description = [], allergens = SELECTION_ALLERGENS\<rparr>,
                s_specials = g 15,
                s_vegan_special = g 13,
                s_desserts = ensure_len supper_desserts 2 EMPTY_ITEM\<rparr>\<rparr>\<rparr>)"

definition parse_week :: "pylib \<Rightarrow> grid list \<Rightarrow> day_record list option" where
  "parse_week L doc =
     (case doc of
        [] \<Rightarrow> None
      | tbl # _ \<Rightarrow> Some (map (daily L tbl) [0..<7]))"


section \<open>Display contexts\<close>

text \<open>
  A value of a display context is a string or a docxtpl \<^verbatim>\<open>RichText\<close> (the type \<open>rtext\<close>
  above).  \<^verbatim>\<open>_yellow(text)\<close> builds a \<^verbatim>\<open>RichText\<close> that holds its argument highlighted in
  yellow.  \<^verbatim>\<open>str\<close> of a string is the string, \<^verbatim>\<open>str\<close> of a \<^verbatim>\<open>RichText\<close> is made by
  docxtpl.  The functions of \<^verbatim>\<open>re\<close> and the methods of \<^verbatim>\<open>str\<close> raise \<^verbatim>\<open>TypeError\<close> or
  \<^verbatim>\<open>AttributeError\<close> on a \<^verbatim>\<open>RichText\<close>: \<open>as_str\<close> is \<open>None\<close> there.  A key that a
  dictionary of a context does not have is the empty plain string of the record.
\<close>

definition yellow :: "rtext \<Rightarrow> rtext" where
  "yellow text = Yellow text"

definition py_str :: "pylib \<Rightarrow> rtext \<Rightarrow> ustring" where
  "py_str L t = (case t of Plain s \<Rightarrow> s | Yellow _ \<Rightarrow> x_rich_str L t)"

definition as_str :: "rtext \<Rightarrow> ustring option" where
  "as_str t = (case t of Plain s \<Rightarrow> Some s | Yellow _ \<Rightarrow> None)"

record cdish =
  c_title :: rtext
  c_description :: rtext
  c_allergens :: ustring

record chead =
  ch_theme :: ustring
  ch_date :: ustring

record clunch =
  cl_starters :: "cdish list"
  cl_mains :: "cdish list"
  cl_optional_sides :: cdish
  cl_desserts :: "cdish list"

record csupper =
  cs_starter :: cdish
  cs_selection :: cdish
  cs_specials :: cdish
  cs_desserts :: "cdish list"

record ctx =
  cx_header :: chead
  cx_days :: chead
  cx_lunch :: clunch
  cx_supper :: csupper

text \<open>\<open>idx xs i\<close> is \<^verbatim>\<open>xs[i]\<close> for an index that is not negative: \<open>None\<close> is the
  \<^verbatim>\<open>IndexError\<close>.\<close>

definition idx :: "'a list \<Rightarrow> nat \<Rightarrow> 'a option" where
  "idx xs i = (if i < length xs then Some (xs ! i) else None)"

text \<open>\<^verbatim>\<open>_is_chefs_choice_soup(title)\<close> works on \<^verbatim>\<open>str(title)\<close>.\<close>

definition is_chefs_choice_soup :: "pylib \<Rightarrow> rtext \<Rightarrow> bool" where
  "is_chefs_choice_soup L t \<longleftrightarrow>
     (let s = str_replace [8217] [39] (str_lower L (py_str L t))
      in contains (u ''chef'') s \<and> contains (u ''choice'') s \<and> contains (u ''soup'') s)"

definition plain_dish :: "ustring \<Rightarrow> ustring \<Rightarrow> ustring \<Rightarrow> cdish" where
  "plain_dish t d a = \<lparr>c_title = Plain t, c_description = Plain d, c_allergens = a\<rparr>"

definition highlight_soup :: "pylib \<Rightarrow> rtext \<Rightarrow> rtext" where
  "highlight_soup L t = (if is_chefs_choice_soup L t then yellow t else t)"

section \<open>Standard view builder\<close>

text \<open>
  \<^verbatim>\<open>build_standard_context\<close> reads the day record of its caller and writes into it.  The
  list \<^verbatim>\<open>starters\<close> is made by \<^verbatim>\<open>ensure_len\<close>, which copies the list of the day record and
  not the dictionaries in it: an element of \<^verbatim>\<open>starters\<close> is a reference, either to a
  starter dictionary of the day record, written \<open>InDay k\<close> for the one at index \<open>k\<close>, or to
  the filler dictionary the call of \<^verbatim>\<open>ensure_len\<close> creates, written \<open>Filler\<close>.  The store of the
  function is the day record together with that filler; \<open>deref\<close> reads a dictionary
  through a reference and \<open>set_title\<close> is the assignment
  \<^verbatim>\<open>starters[i]["title"] = ...\<close> through one.
\<close>

datatype sref = InDay nat | Filler

record std_store =
  ss_day :: day_record
  ss_filler :: starter

definition day_starters :: "day_record \<Rightarrow> starter list" where
  "day_starters dr = l_starters (src_lunch (dr_source dr))"

definition put_starters :: "starter list \<Rightarrow> day_record \<Rightarrow> day_record" where
  "put_starters xs dr =
     dr\<lparr>dr_source := (dr_source dr)\<lparr>src_lunch := (src_lunch (dr_source dr))\<lparr>l_starters := xs\<rparr>\<rparr>\<rparr>"

definition starter_refs :: "day_record \<Rightarrow> sref list" where
  "starter_refs dr = ensure_len (map InDay [0..<length (day_starters dr)]) 2 Filler"

definition deref :: "std_store \<Rightarrow> sref \<Rightarrow> starter option" where
  "deref \<sigma> r = (case r of InDay k \<Rightarrow> idx (day_starters (ss_day \<sigma>)) k | Filler \<Rightarrow> Some (ss_filler \<sigma>))"

definition set_title :: "sref \<Rightarrow> rtext \<Rightarrow> std_store \<Rightarrow> std_store" where
  "set_title r v \<sigma> =
     (case r of
        InDay k \<Rightarrow>
          \<sigma>\<lparr>ss_day :=
              put_starters
                ((day_starters (ss_day \<sigma>))[k := (day_starters (ss_day \<sigma>) ! k)\<lparr>st_title := v\<rparr>])
                (ss_day \<sigma>)\<rparr>
      | Filler \<Rightarrow> \<sigma>\<lparr>ss_filler := (ss_filler \<sigma>)\<lparr>st_title := v\<rparr>\<rparr>)"

text \<open>\<^verbatim>\<open>if _is_chefs_choice_soup(starters[i]["title"]):
  starters[i]["title"] = _yellow(starters[i]["title"])\<close>, for the reference \<open>r\<close> at index
  \<open>i\<close>.\<close>

definition highlight_starter :: "pylib \<Rightarrow> sref \<Rightarrow> std_store \<Rightarrow> std_store option" where
  "highlight_starter L r \<sigma> =
     do {
       st \<leftarrow> deref \<sigma> r;
       Some (if is_chefs_choice_soup L (st_title st) then set_title r (yellow (st_title st)) \<sigma> else \<sigma>)
     }"

text \<open>
  The result is the context together with the day record as the call leaves it;
  \<open>None\<close> is an exception, which is raised before any assignment.
\<close>

definition build_standard_context :: "pylib \<Rightarrow> day_record \<Rightarrow> (ctx \<times> day_record) option" where
  "build_standard_context L dr =
     (let src = dr_source dr; hdr = dr_header dr;
          starters = starter_refs dr;
          mv = l_veg_main (src_lunch src); mm = l_meat_main (src_lunch src);
          mains = [plain_dish (strip_suffixes (title mv) @ u '' (V)'') (description mv) (allergens mv),
                   plain_dish (strip_suffixes (title mm)) (description mm) (allergens mm)];
          opt = l_optional_sides (src_lunch src);
          sp = s_specials (src_supper src)
      in do {
        d0 \<leftarrow> idx (l_desserts (src_lunch src)) 0;
        d1 \<leftarrow> idx (l_desserts (src_lunch src)) 1;
        st0 \<leftarrow> idx (l_starters (src_lunch src)) 0;
        sd0 \<leftarrow> idx (s_desserts (src_supper src)) 0;
        sd1 \<leftarrow> idx (s_desserts (src_supper src)) 1;
        r0 \<leftarrow> idx starters 0;
        r1 \<leftarrow> idx starters 1;
        \<sigma>1 \<leftarrow> highlight_starter L r0 \<lparr>ss_day = dr, ss_filler = EMPTY_STARTER\<rparr>;
        \<sigma>2 \<leftarrow> highlight_starter L r1 \<sigma>1;
        s0 \<leftarrow> deref \<sigma>2 r0;
        s1 \<leftarrow> deref \<sigma>2 r1;
        Some
          (\<lparr>cx_header = \<lparr>ch_theme = hd_theme hdr, ch_date = hd_date hdr\<rparr>,
            cx_days = \<lparr>ch_theme = hd_theme hdr, ch_date = hd_date hdr\<rparr>,
            cx_lunch =
              \<lparr>cl_starters =
                 [\<lparr>c_title = st_title s0, c_description = Plain [], c_allergens = st_allergens s0\<rparr>,
                  \<lparr>c_title = st_title s1, c_description = Plain [], c_allergens = st_allergens s1\<rparr>],
               cl_mains = mains,
               cl_optional_sides = plain_dish (title opt) [] (allergens opt),
               cl_desserts =
                 [plain_dish (sentence_case L (strip_suffixes (title d0)) @ u '' (V)'') [] (allergens d0),
                  plain_dish (title d1) [] (allergens d1)]\<rparr>,
            cx_supper =
              \<lparr>cs_starter =
                 \<lparr>c_title = highlight_soup L (Plain (CHEFS_SOUP @ u '' (V)'')), c_description = Plain [],
                  c_allergens = st_allergens st0\<rparr>,
               cs_selection = plain_dish [] [] SELECTION_ALLERGENS,
               cs_specials = plain_dish (strip_suffixes (title sp)) (description sp) (allergens sp),
               cs_desserts =
                 [plain_dish (sentence_case L (strip_suffixes (title sd0)) @ u '' (V)'') [] (allergens sd0),
                  plain_dish (title sd1) [] (allergens sd1)]\<rparr>\<rparr>,
           ss_day \<sigma>2)
      })"

section \<open>Vegan view builder\<close>

text \<open>
  The three regular expressions of the title recovery, all with \<^verbatim>\<open>re.IGNORECASE\<close>.
  \<open>find_ve s\<close> is the number of characters a lazy \<^verbatim>\<open>.*?\<close> takes before \<^verbatim>\<open>\(ve\)\<close>
  matches: the dot does not match a newline, so the search ends at the first newline.
  Under \<^verbatim>\<open>re.IGNORECASE\<close> the class \<^verbatim>\<open>[A-Za-z]\<close> is \<open>ci_az\<close> and the letters of
  \<^verbatim>\<open>\(ve\)\<close> match through \<open>ci_eq\<close>.
\<close>

definition ve_here :: "pylib \<Rightarrow> ustring \<Rightarrow> bool" where
  "ve_here L s \<longleftrightarrow>
     (case s of
        a # b # c # d # _ \<Rightarrow> a = 40 \<and> ci_eq L b 118 \<and> ci_eq L c 101 \<and> d = 41
      | _ \<Rightarrow> False)"

fun find_ve :: "pylib \<Rightarrow> ustring \<Rightarrow> nat option" where
  "find_ve L [] = None"
| "find_ve L (c # cs) =
     (if ve_here L (c # cs) then Some 0
      else if c = 10 then None
      else map_option Suc (find_ve L cs))"

text \<open>\<^verbatim>\<open>re.search(r"[A-Za-z].+\(ve\)", s, re.I)\<close>, as a truth value.\<close>

fun ve_plus_search :: "pylib \<Rightarrow> ustring \<Rightarrow> bool" where
  "ve_plus_search L [] = False"
| "ve_plus_search L (c # cs) =
     ((ci_az L c \<and> (case cs of [] \<Rightarrow> False | d # ds \<Rightarrow> d \<noteq> 10 \<and> find_ve L ds \<noteq> None))
      \<or> ve_plus_search L cs)"

text \<open>\<^verbatim>\<open>re.search(r"([A-Za-z].*?\(ve\))", s, flags=re.I)\<close>: the group of the left-most
  match, \<open>None\<close> when there is no match.\<close>

fun ve_search :: "pylib \<Rightarrow> ustring \<Rightarrow> ustring option" where
  "ve_search L [] = None"
| "ve_search L (c # cs) =
     (if ci_az L c
      then (case find_ve L cs of Some k \<Rightarrow> Some (c # take (k + 4) cs) | None \<Rightarrow> ve_search L cs)
      else ve_search L cs)"

text \<open>\<^verbatim>\<open>re.sub(r"[A-Za-z].*?\(ve\)\s*", "", s, flags=re.I)\<close>: every match is removed, with
  the white space behind it.\<close>

function ve_sub :: "pylib \<Rightarrow> ustring \<Rightarrow> ustring" where
  "ve_sub L [] = []"
| "ve_sub L (c # cs) =
     (if ci_az L c
      then (case find_ve L cs of
              Some k \<Rightarrow> ve_sub L (dropWhile isspace (drop (k + 4) cs))
            | None \<Rightarrow> c # ve_sub L cs)
      else c # ve_sub L cs)"
  by pat_completeness auto
termination
proof (relation "measure (\<lambda>(L, s). length s)")
  fix L :: pylib and c :: codepoint and cs :: ustring and k
  have "length (dropWhile isspace (drop (k + 4) cs)) \<le> length (drop (k + 4) cs)"
    by (rule length_dropWhile_le)
  then show "((L, dropWhile isspace (drop (k + 4) cs)), (L, c # cs)) \<in> measure (\<lambda>(L, s). length s)"
    by simp
qed auto

text \<open>
  The guard against a title typed into the allergens cell; the source has the same
  lines twice, for the vegan main and for the vegan supper special.  The arguments are
  the title and the allergens of the row, the result is the pair of both after the
  recovery.
\<close>

definition recover_ve_title :: "pylib \<Rightarrow> ustring \<Rightarrow> ustring \<Rightarrow> ustring \<times> ustring" where
  "recover_ve_title L title_raw all_raw =
     (if contains (u ''(ve'') (str_lower L all_raw) \<or> ve_plus_search L all_raw
      then
        (case ve_search L all_raw of
           Some grp \<Rightarrow>
             if length (strip_suffixes title_raw) < 2
             then (str_strip grp, str_strip (ve_sub L all_raw))
             else (title_raw, str_strip (ve_sub L all_raw))
         | None \<Rightarrow> (title_raw, str_strip (ve_sub L all_raw)))
      else (title_raw, all_raw))"

text \<open>
  \<^verbatim>\<open>pick_vegan_variant\<close> splits with \<^verbatim>\<open>\s*(?:/|\n|;|\||\bor\b)\s*\<close>.  The leading \<^verbatim>\<open>\s*\<close>
  first takes the whole run of white space; behind it a slash, a semicolon, a bar or
  the word \<^verbatim>\<open>or\<close> can match.  When none does, the run is given back down to its last
  newline, which then is the separator, and the trailing \<^verbatim>\<open>\s*\<close> takes the rest of the
  run.
\<close>

definition or_here :: "pylib \<Rightarrow> codepoint option \<Rightarrow> ustring \<Rightarrow> bool" where
  "or_here L prev r \<longleftrightarrow>
     (case r of
        a # b # rest \<Rightarrow>
          ci_eq L a 111 \<and> ci_eq L b 114 \<and>
          (case prev of None \<Rightarrow> False | Some p \<Rightarrow> isword L p) \<noteq> isword L a \<and>
          isword L b \<noteq> (case rest of [] \<Rightarrow> False | c # _ \<Rightarrow> isword L c)
      | _ \<Rightarrow> False)"

definition variant_sep_len :: "pylib \<Rightarrow> codepoint option \<Rightarrow> ustring \<Rightarrow> nat" where
  "variant_sep_len L prev s =
     (let w = takeWhile isspace s; r = dropWhile isspace s in
      case r of
        [] \<Rightarrow> if 10 \<in> set w then length w else 0
      | c # rs \<Rightarrow>
          if c = 47 \<or> c = 59 \<or> c = 124 then length w + 1 + length (takeWhile isspace rs)
          else if or_here L (if w = [] then prev else Some (last w)) r
          then length w + 2 + length (takeWhile isspace (drop 2 r))
          else if 10 \<in> set w then length w else 0)"

definition pick_vegan_variant :: "pylib \<Rightarrow> ustring \<Rightarrow> ustring \<Rightarrow> ustring" where
  "pick_vegan_variant L t d =
     (let combined = str_strip (str_join (u '' '') [t, d]) in
      if combined = [] then add_suffix t (u ''(Ve)'')
      else
        (case List.find (\<lambda>p. contains (u ''(ve)'') (str_lower L p) \<or> contains (u ''vegan'') (str_lower L p))
                (re_split_by (variant_sep_len L) None [] combined) of
           Some p \<Rightarrow> add_suffix (strip_suffixes (str_strip p)) (u ''(Ve)'')
         | None \<Rightarrow> add_suffix (strip_suffixes t) (u ''(Ve)'')))"

definition VEGAN_DESSERTS_ALL :: ustring where
  "VEGAN_DESSERTS_ALL = u ''Gluten, Nuts, Soya, Sulphites''"

definition JACKET_VE :: ustring where
  "JACKET_VE = u ''Jacket potato and toppings (Ve)''"

definition SANDWICHES_VE :: ustring where
  "SANDWICHES_VE = u ''Henbrook'' @ [8217] @ u ''s assorted sandwiches (Ve)''"

definition borrow_description :: "ustring \<Rightarrow> ustring \<Rightarrow> rtext" where
  "borrow_description own other =
     (if str_strip own \<noteq> [] then Plain (str_strip own)
      else if str_strip other \<noteq> [] then yellow (Plain (str_strip other))
      else Plain [])"

text \<open>
  The title of the first lunch starter goes through \<^verbatim>\<open>strip_suffixes\<close>, that is through
  \<^verbatim>\<open>re.sub\<close>, which raises \<^verbatim>\<open>TypeError\<close> when the title is a \<^verbatim>\<open>RichText\<close>.  \<open>None\<close> is an
  exception.
\<close>

definition build_vegan_context :: "pylib \<Rightarrow> day_record \<Rightarrow> ctx option" where
  "build_vegan_context L dr =
     (let src = dr_source dr; hdr = dr_header dr;
          starters = ensure_len (l_starters (src_lunch src)) 2 EMPTY_STARTER;
          vmain = l_vegan_main (src_lunch src);
          vegstd = l_veg_main (src_lunch src);
          (v_title_raw, v_all_raw) = recover_ve_title L (title vmain) (allergens vmain);
          vegan_main_title = add_suffix (strip_suffixes v_title_raw) (u ''(Ve)'');
          vegan_main_desc = borrow_description (description vmain) (description vegstd);
          vegan_main_all = remove_tokens_from_csv L v_all_raw;
          opt_title = title (l_optional_sides (src_lunch src));
          opt_all = remove_tokens_from_csv L (allergens (l_optional_sides (src_lunch src)));
          sp_std = s_specials (src_supper src);
          sp_veg = s_vegan_special (src_supper src);
          (vs_title_raw, vs_all_raw) = recover_ve_title L (title sp_veg) (allergens sp_veg);
          vs_title_raw' =
            (if str_strip vs_title_raw = []
             then add_suffix (strip_suffixes (pick_vegan_variant L (title sp_std) (description sp_std)))
                    (u ''(Ve)'')
             else vs_title_raw);
          veg_special_title = add_suffix (strip_suffixes vs_title_raw') (u ''(Ve)'');
          veg_special_desc = borrow_description (description sp_veg) (description sp_std);
          veg_special_all = remove_tokens_from_csv L vs_all_raw
      in do {
        s0 \<leftarrow> idx starters 0;
        s0_title \<leftarrow> as_str (st_title s0);
        d0 \<leftarrow> idx (l_desserts (src_lunch src)) 0;
        sd0 \<leftarrow> idx (s_desserts (src_supper src)) 0;
        Some
          \<lparr>cx_header = \<lparr>ch_theme = hd_theme hdr, ch_date = hd_date hdr\<rparr>,
           cx_days = \<lparr>ch_theme = hd_theme hdr, ch_date = hd_date hdr\<rparr>,
           cx_lunch =
             \<lparr>cl_starters =
                [plain_dish (add_suffix (strip_suffixes s0_title) (u ''(Ve)'')) []
                   (remove_tokens_from_csv L (st_allergens s0)),
                 plain_dish [] [] []],
              cl_mains =
                [plain_dish JACKET_VE [] [],
                 \<lparr>c_title = Plain vegan_main_title, c_description = vegan_main_desc,
                  c_allergens = vegan_main_all\<rparr>],
              cl_optional_sides = plain_dish opt_title [] opt_all,
              cl_desserts =
                [\<lparr>c_title = yellow (Plain (sentence_case L (strip_suffixes (title d0)) @ u '' (Ve)'')),
                  c_description = Plain [], c_allergens = VEGAN_DESSERTS_ALL\<rparr>,
                 plain_dish VEGAN_ICE_VE [] VEGAN_DESSERTS_ALL]\<rparr>,
           cx_supper =
             \<lparr>cs_starter =
                \<lparr>c_title = yellow (Plain (CHEFS_SOUP @ u '' (Ve)'')), c_description = Plain [],
                 c_allergens = remove_tokens_from_csv L (st_allergens s0)\<rparr>,
              cs_selection = plain_dish SANDWICHES_VE [] SELECTION_ALLERGENS,
              cs_specials =
                \<lparr>c_title = Plain veg_special_title, c_description = veg_special_desc,
                 c_allergens = veg_special_all\<rparr>,
              cs_desserts =
                [\<lparr>c_title = yellow (Plain (sentence_case L (strip_suffixes (title sd0)) @ u '' (Ve)'')),
                  c_description = Plain [], c_allergens = VEGAN_DESSERTS_ALL\<rparr>,
                 plain_dish VEGAN_ICE_VE [] VEGAN_DESSERTS_ALL]\<rparr>\<rparr>
      })"


section \<open>Allergen table assembler\<close>

text \<open>
  A row is \<^verbatim>\<open>(title, set_of_columns, is_heading)\<close>.  The body of
  \<^verbatim>\<open>_collect_allergen_items_for_table\<close> is a sequence of calls of its local function
  \<^verbatim>\<open>add\<close>, each of which appends at most one row to \<^verbatim>\<open>items\<close>.  A call is the tuple of
  its arguments \<^verbatim>\<open>(title, allergens, heading, force_vegan_dessert)\<close>, with the title as
  \<^verbatim>\<open>str(title)\<close> gives it and the allergens either a text to parse or a set of columns;
  \<open>add_row\<close> is the list of the rows a call appends.
\<close>

type_synonym row = "ustring \<times> allergen set \<times> bool"

type_synonym add_call = "ustring \<times> (ustring + allergen set) \<times> bool \<times> bool"

definition add_row :: "pylib \<Rightarrow> add_call \<Rightarrow> row list" where
  "add_row L call =
     (case call of
        (title_str, allergens_arg, heading, force_vegan_dessert) \<Rightarrow>
          if heading then [(title_str, {}, True)]
          else if str_strip title_str = [] then []
          else
            [(str_strip title_str,
              (case allergens_arg of
                 Inr cols \<Rightarrow> cols
               | Inl txt \<Rightarrow> parse_allergen_csv L (if force_vegan_dessert then VEGAN_DESSERTS_ALL else txt)),
              False)])"

definition HEADING_STANDARD :: ustring where
  "HEADING_STANDARD = [8212] @ u '' Standard '' @ [8212]"

definition HEADING_VEGAN :: ustring where
  "HEADING_VEGAN = [8212] @ u '' Vegan '' @ [8212]"

definition JACKET_COLS :: "allergen set" where
  "JACKET_COLS = {Celery, Sulphur, Cereals_with_Gluten, Mustards}"

text \<open>The body of the loop over the mains of the vegan view.\<close>

definition vegan_main_call :: "pylib \<Rightarrow> cdish \<Rightarrow> add_call" where
  "vegan_main_call L m =
     (let title_str = py_str L (c_title m) in
      if contains (u ''jacket'') (str_lower L title_str)
      then (JACKET_VE, Inr JACKET_COLS, False, False)
      else (title_str, Inr (scrub_vegan_csv_to_canonset L (c_allergens m)), False, False))"

text \<open>
  The calls of \<^verbatim>\<open>add\<close> in the order of the source.  \<open>None\<close> is an exception raised while
  the arguments of a call are computed: an \<^verbatim>\<open>IndexError\<close> of a list that is too short, or
  the \<^verbatim>\<open>TypeError\<close> of \<^verbatim>\<open>add_suffix\<close>, that is of \<^verbatim>\<open>re.sub\<close>, on a first lunch starter
  whose title is a \<^verbatim>\<open>RichText\<close>.
\<close>

definition add_calls :: "pylib \<Rightarrow> day_record \<Rightarrow> ctx \<Rightarrow> ctx \<Rightarrow> add_call list option" where
  "add_calls L dr std_ctx veg_ctx =
     (let src = dr_source dr; lu = src_lunch src; su = src_supper src in
      do {
        std_d0 \<leftarrow> idx (cl_desserts (cx_lunch std_ctx)) 0;
        std_sd0 \<leftarrow> idx (cs_desserts (cx_supper std_ctx)) 0;
        st0 \<leftarrow> idx (l_starters lu) 0;
        st0_title \<leftarrow> as_str (st_title st0);
        d0 \<leftarrow> idx (l_desserts lu) 0;
        sd0 \<leftarrow> idx (s_desserts su) 0;
        Some
          ([(HEADING_STANDARD, Inl [], True, False)]
           @ map (\<lambda>st. (py_str L (st_title st), Inl (st_allergens st), False, False)) (l_starters lu)
           @ [(title (l_veg_main lu), Inl (allergens (l_veg_main lu)), False, False),
              (title (l_meat_main lu), Inl (allergens (l_meat_main lu)), False, False),
              (title (l_optional_sides lu), Inl (allergens (l_optional_sides lu)), False, False),
              (py_str L (c_title std_d0), Inl (c_allergens std_d0), False, False),
              (CHEFS_SOUP @ u '' (V)'', Inl (allergens (s_starter su)), False, False),
              (py_str L (c_title (cs_specials (cx_supper std_ctx))),
               Inl (c_allergens (cs_specials (cx_supper std_ctx))), False, False),
              (py_str L (c_title std_sd0), Inl (c_allergens std_sd0), False, False),
              (HEADING_VEGAN, Inl [], True, False),
              (add_suffix st0_title (u ''(Ve)''),
               Inr (scrub_vegan_csv_to_canonset L (st_allergens st0)), False, False)]
           @ map (vegan_main_call L) (cl_mains (cx_lunch veg_ctx))
           @ [(title (l_optional_sides lu),
               Inr (scrub_vegan_csv_to_canonset L (allergens (l_optional_sides lu))), False, False),
              (sentence_case L (strip_suffixes (title d0)) @ u '' (Ve)'',
               Inl VEGAN_DESSERTS_ALL, False, True),
              (CHEFS_SOUP @ u '' (Ve)'',
               Inr (scrub_vegan_csv_to_canonset L (allergens (s_starter su))), False, False),
              (add_suffix (strip_suffixes (title (s_vegan_special su))) (u ''(Ve)''),
               Inr (scrub_vegan_csv_to_canonset L (allergens (s_vegan_special su))), False, False),
              (sentence_case L (strip_suffixes (title sd0)) @ u '' (Ve)'',
               Inl VEGAN_DESSERTS_ALL, False, True)])
      })"

definition collect_allergen_items_for_table ::
  "pylib \<Rightarrow> day_record \<Rightarrow> ctx \<Rightarrow> ctx \<Rightarrow> row list option" where
  "collect_allergen_items_for_table L dr std_ctx veg_ctx =
     map_option (\<lambda>calls. concat (map (add_row L) calls)) (add_calls L dr std_ctx veg_ctx)"

text \<open>The shape the week parser gives every day record: two lunch starters, two lunch
  desserts and two supper desserts.\<close>

definition two_each :: "day_record \<Rightarrow> bool" where
  "two_each dr \<longleftrightarrow>
     length (l_starters (src_lunch (dr_source dr))) = 2 \<and>
     length (l_desserts (src_lunch (dr_source dr))) = 2 \<and>
     length (s_desserts (src_supper (dr_source dr))) = 2"



section \<open>Example inputs\<close>

text \<open>A grid of eighteen rows in which only the cells of the second lunch dessert (row
  10) and of the second supper dessert (row 17) of the first day are filled.\<close>

definition dessert_grid :: grid where
  "dessert_grid =
     replicate 10 [] @ [[[], u ''Vanilla ice cream Milk, Egg'']] @ replicate 6 [] @
     [[[], u ''Lemon sorbet'']]"

text \<open>The raw cell of the specification's example: three lines, the last one the
  allergens.\<close>

definition fish_pie_cell :: ustring where
  "fish_pie_cell = u ''Fish pie'' @ [10] @ u ''With parsley sauce'' @ [10] @ u ''Fish, Milk, Gluten''"

text \<open>A cell with allergen words on its first line and one more line behind them.\<close>

definition soup_bread_cell :: ustring where
  "soup_bread_cell = u ''Soup Milk Egg'' @ [10] @ u ''Bread''"

text \<open>A day record as the week parser builds them.  Its vegan main has no title and the
  dish typed into the allergens cell; the allergens of its first lunch dessert name
  milk and fish.\<close>

definition sample_day :: day_record where
  "sample_day =
     \<lparr>dr_header =
        \<lparr>hd_theme = u ''Harvest'', hd_date = u ''Monday'' @ [32, 8211, 32] @ u ''06/10/2025'',
         hd_date_iso = u ''2025-10-06'', hd_weekday = u ''Monday''\<rparr>,
      dr_source =
        \<lparr>src_lunch =
           \<lparr>l_starters =
              [\<lparr>st_title = Plain (u ''Tomato soup''), st_allergens = u ''Celery, Milk''\<rparr>,
               \<lparr>st_title = Plain (u ''Melon''), st_allergens = []\<rparr>],
            l_veg_main =
              \<lparr>title = u ''Vegetable lasagne (V)'', description = u ''With garlic bread'',
               allergens = u ''Gluten, Milk, Egg''\<rparr>,
            l_meat_main =
              \<lparr>title = u ''Roast beef'', description = u ''With gravy'', allergens = u ''Celery''\<rparr>,
            l_vegan_main =
              \<lparr>title = [], description = [], allergens = u ''Curry (Ve), Mustard''\<rparr>,
            l_optional_sides = \<lparr>title = u ''Peas, Carrots'', description = [], allergens = []\<rparr>,
            l_desserts =
              [\<lparr>title = u ''APPLE crumble (V)'', description = [], allergens = u ''Milk, Fish''\<rparr>,
               \<lparr>title = ICE_CREAMS_V, description = [], allergens = u ''Milk''\<rparr>]\<rparr>,
         src_supper =
           \<lparr>s_starter = \<lparr>title = CHEFS_SOUP, description = [], allergens = u ''Celery''\<rparr>,
            s_selection = \<lparr>title = [], description = [], allergens = SELECTION_ALLERGENS\<rparr>,
            s_specials =
              \<lparr>title = u ''Fish cakes'', description = u ''With salad'', allergens = u ''Fish, Gluten''\<rparr>,
            s_vegan_special =
              \<lparr>title = u ''Bean burger (Ve)'', description = [], allergens = u ''Gluten, Soya''\<rparr>,
            s_desserts =
              [\<lparr>title = u ''Fruit salad'', description = [], allergens = u ''Milk, Fish''\<rparr>,
               \<lparr>title = VEGAN_ICE_VE, description = [], allergens = []\<rparr>]\<rparr>\<rparr>\<rparr>"

definition with_vegan_main :: "dish \<Rightarrow> day_record \<Rightarrow> day_record" where
  "with_vegan_main d dr =
     dr\<lparr>dr_source := (dr_source dr)\<lparr>src_lunch := (src_lunch (dr_source dr))\<lparr>l_vegan_main := d\<rparr>\<rparr>\<rparr>"

definition with_vegan_special :: "dish \<Rightarrow> day_record \<Rightarrow> day_record" where
  "with_vegan_special d dr =
     dr\<lparr>dr_source := (dr_source dr)\<lparr>src_supper := (src_supper (dr_source dr))\<lparr>s_vegan_special := d\<rparr>\<rparr>\<rparr>"

text \<open>The sample day with a \<^verbatim>\<open>(Ve)\<close> marker, and no dish, in the allergens of the vegan
  main.\<close>

definition marker_only_day :: day_record where
  "marker_only_day =
     with_vegan_main \<lparr>title = [], description = [], allergens = u ''(Ve), Mustard''\<rparr> sample_day"

text \<open>The sample day with the chef's soup as the vegan supper special.\<close>

definition soup_special_day :: day_record where
  "soup_special_day =
     with_vegan_special
       \<lparr>title = CHEFS_SOUP @ u '' (Ve)'', description = [], allergens = u ''Celery''\<rparr> sample_day"

text \<open>The sample day with a titled vegan main whose allergens cell still holds a dish
  with its \<^verbatim>\<open>(Ve)\<close> tag.\<close>

definition titled_day :: day_record where
  "titled_day =
     with_vegan_main
       \<lparr>title = u ''Lentil bake'', description = [], allergens = u ''Curry (Ve), Mustard''\<rparr> sample_day"

text \<open>The sample day with the chef's soup as its first lunch starter, typed with the
  plain apostrophe.\<close>

definition CHEFS_SOUP_TYPED :: ustring where
  "CHEFS_SOUP_TYPED = u ''Chef'' @ [39] @ u ''s choice soup''"

definition chef_day :: day_record where
  "chef_day =
     put_starters
       [\<lparr>st_title = Plain CHEFS_SOUP_TYPED, st_allergens = u ''Celery, Milk''\<rparr>,
        \<lparr>st_title = Plain (u ''Melon''), st_allergens = []\<rparr>]
       sample_day"

text \<open>The sample day with a titled vegan main and no \<^verbatim>\<open>(Ve)\<close> tag in its allergens.\<close>

definition dal_day :: day_record where
  "dal_day =
     with_vegan_main
       \<lparr>title = u ''Dal'', description = [], allergens = u ''Mustard, Milk''\<rparr> sample_day"


section \<open>Facts about the string operations\<close>

lemma u_Nil: "u [] = []"
  by (simp add: u_def)

lemma u_Cons: "u (c # cs) = of_char c # u cs"
  by (simp add: u_def)

lemma rstrip_by_decomp: "\<exists>w. s = rstrip_by P s @ w \<and> list_all P w"
proof -
  have "rev s = takeWhile P (rev s) @ dropWhile P (rev s)" by simp
  then have "s = rev (dropWhile P (rev s)) @ rev (takeWhile P (rev s))"
    by (metis rev_append rev_rev_ident)
  moreover have "list_all P (rev (takeWhile P (rev s)))"
    by (simp add: list_all_iff) (meson set_takeWhileD)
  ultimately show ?thesis unfolding rstrip_by_def by blast
qed

lemma rstrip_by_last: "rstrip_by P s \<noteq> [] \<Longrightarrow> \<not> P (last (rstrip_by P s))"
  unfolding rstrip_by_def
  by (metis hd_dropWhile last_rev rev_is_Nil_conv)

lemma rstrip_by_hd: "rstrip_by P s \<noteq> [] \<Longrightarrow> hd (rstrip_by P s) = hd s"
  using rstrip_by_decomp [of s P] by (metis hd_append2)

lemma lstrip_by_hd: "lstrip_by P s \<noteq> [] \<Longrightarrow> \<not> P (hd (lstrip_by P s))"
  unfolding lstrip_by_def by (rule hd_dropWhile)

lemma strip_by_ends:
  "strip_by P s \<noteq> [] \<Longrightarrow> \<not> P (hd (strip_by P s)) \<and> \<not> P (last (strip_by P s))"
  unfolding strip_by_def
  by (metis lstrip_by_hd rstrip_by_hd rstrip_by_last rstrip_by_def rev.simps(1) dropWhile.simps(1))

lemma strip_by_fixed:
  assumes "s \<noteq> []" "\<not> P (hd s)" "\<not> P (last s)"
  shows "strip_by P s = s"
proof -
  have "lstrip_by P s = s" using assms unfolding lstrip_by_def by (cases s) auto
  moreover have "rstrip_by P s = s" using assms unfolding rstrip_by_def
    by (metis dropWhile_eq_self_iff hd_rev rev_rev_ident)
  ultimately show ?thesis by (simp add: strip_by_def)
qed

lemma strip_by_Nil: "strip_by P [] = []"
  by (simp add: strip_by_def lstrip_by_def rstrip_by_def)

lemma strip_by_idem: "strip_by P (strip_by P s) = strip_by P s"
  by (cases "strip_by P s = []") (auto simp: strip_by_Nil strip_by_ends strip_by_fixed)


section \<open>Suffix tags\<close>

lemma tag_match_long:
  assumes "x \<noteq> []" "\<not> isspace (hd x)"
  shows "\<not> tag_match (x @ u '' (Ve)'')"
proof -
  let ?r = "x @ u '' (Ve)''"
  have r': "dropWhile isspace ?r = ?r" using assms by (cases x) auto
  have len: "length ?r = length x + 5" by (simp add: u_Cons u_Nil)
  have nsp: "\<not> isspace (last ?r)" by (simp add: u_Cons u_Nil isspace_def)
  have "\<not> list_all isspace (drop n ?r)" if "n < 5" for n
  proof -
    have lt: "n < length ?r" using len that by linarith
    then have ne: "drop n ?r \<noteq> []" by (simp only: drop_eq_Nil not_le)
    have "last (drop n ?r) = last ?r" using lt by (rule last_drop)
    moreover have "last (drop n ?r) \<in> set (drop n ?r)" using ne by (rule last_in_set)
    ultimately have "\<exists>c\<in>set (drop n ?r). \<not> isspace c" using nsp by metis
    then show ?thesis unfolding list_all_iff by blast
  qed
  then show ?thesis unfolding tag_match_def Let_def r' by simp
qed

lemma tag_match_dropWhile: "tag_match (dropWhile isspace r) = tag_match r"
  by (simp add: tag_match_def)

lemma sub_suffix_tag_append:
  "t = [] \<or> \<not> isspace (last t) \<Longrightarrow> sub_suffix_tag (t @ u '' (Ve)'') = t"
proof (induction t)
  case Nil
  show ?case by (simp add: u_Cons u_Nil tag_match_def isspace_def)
next
  case (Cons c cs)
  then have nl: "\<not> isspace (last (c # cs))" by simp
  let ?x = "dropWhile isspace (c # cs)"
  have ex: "\<exists>y\<in>set (c # cs). \<not> isspace y" using nl by (metis last_in_set list.distinct(1))
  then have x: "?x \<noteq> []" by (metis dropWhile_eq_Nil_conv)
  have hd: "\<not> isspace (hd ?x)" using x by (rule hd_dropWhile)
  obtain y where "y \<in> set (c # cs)" "\<not> isspace y" using ex by blast
  then have "dropWhile isspace ((c # cs) @ u '' (Ve)'') = ?x @ u '' (Ve)''"
    by (rule dropWhile_append1)
  then have "tag_match ((c # cs) @ u '' (Ve)'') = tag_match (?x @ u '' (Ve)'')"
    by (metis tag_match_dropWhile)
  then have nm: "\<not> tag_match (c # cs @ u '' (Ve)'')" using tag_match_long [OF x hd] by simp
  have "cs = [] \<or> \<not> isspace (last cs)" using nl by (cases cs) auto
  then have "sub_suffix_tag (cs @ u '' (Ve)'') = cs" by (rule Cons.IH)
  then show ?case using nm by simp
qed

lemma strip_suffixes_stripped: "str_strip (strip_suffixes s) = strip_suffixes s"
  by (simp add: strip_suffixes_def str_strip_def strip_by_idem)

lemma strip_suffixes_ends:
  "strip_suffixes s \<noteq> [] \<Longrightarrow>
     \<not> isspace (hd (strip_suffixes s)) \<and> \<not> isspace (last (strip_suffixes s))"
  using strip_by_ends [of isspace "sub_suffix_tag s"]
  by (simp add: strip_suffixes_def str_strip_def)

lemma add_suffix_Ve:
  "add_suffix s (u ''(Ve)'') =
     (if strip_suffixes s = [] then u ''(Ve)'' else strip_suffixes s @ u '' (Ve)'')"
proof (cases "strip_suffixes s = []")
  case True
  then show ?thesis
    unfolding add_suffix_def
    by (simp add: str_strip_def strip_by_def lstrip_by_def rstrip_by_def u_Cons u_Nil isspace_def)
next
  case False
  let ?t = "strip_suffixes s"
  have app: "?t @ u '' '' @ u ''(Ve)'' = ?t @ u '' (Ve)''" by (simp add: u_Cons u_Nil)
  have "str_strip (?t @ u '' (Ve)'') = ?t @ u '' (Ve)''"
    unfolding str_strip_def
    by (rule strip_by_fixed)
       (use False strip_suffixes_ends [OF False] in \<open>auto simp: u_Cons u_Nil isspace_def\<close>)
  then show ?thesis using False by (simp add: add_suffix_def app)
qed

text \<open>
  Claim C7.  Putting the tag \<^verbatim>\<open>(Ve)\<close> on a string and stripping it again gives the string
  with its own tag stripped, trimmed: \<^verbatim>\<open>strip_suffixes(add_suffix(s, "(Ve)"))\<close> is
  \<^verbatim>\<open>strip_suffixes(s).strip()\<close>, which is \<^verbatim>\<open>strip_suffixes(s)\<close> itself.  The statement
  holds for every string, the empty one included.
\<close>

theorem strip_add_suffix_round_trip:
  "strip_suffixes (add_suffix s (u ''(Ve)'')) = str_strip (strip_suffixes s) \<and>
   str_strip (strip_suffixes s) = strip_suffixes s"
proof -
  let ?t = "strip_suffixes s"
  have "strip_suffixes (add_suffix s (u ''(Ve)'')) = ?t"
  proof (cases "?t = []")
    case True
    have "strip_suffixes (u ''(Ve)'') = []"
      by (simp add: strip_suffixes_def str_strip_def strip_by_Nil u_Cons u_Nil tag_match_def
            isspace_def)
    then show ?thesis using True by (simp add: add_suffix_Ve)
  next
    case False
    have "sub_suffix_tag (?t @ u '' (Ve)'') = ?t"
      by (rule sub_suffix_tag_append) (use strip_suffixes_ends [OF False] in simp)
    then have "strip_suffixes (?t @ u '' (Ve)'') = ?t"
      by (simp add: strip_suffixes_def [of "?t @ u '' (Ve)''"] strip_suffixes_stripped)
    then show ?thesis using False by (simp add: add_suffix_Ve)
  qed
  then show ?thesis by (simp add: strip_suffixes_stripped)
qed

theorem strip_add_suffix_round_trip_witness:
  "strip_suffixes (add_suffix (u ''Fruit salad (V)'') (u ''(Ve)'')) = u ''Fruit salad''"
proof -
  have "strip_suffixes (u ''Fruit salad (V)'') = u ''Fruit salad''" by code_simp
  then show ?thesis
    using strip_add_suffix_round_trip [of "u ''Fruit salad (V)''"] by simp
qed


section \<open>Sentence case\<close>

lemma first_alpha_idx_none: "list_all (\<lambda>x. \<not> isalpha L x) s \<Longrightarrow> first_alpha_idx L s = None"
  by (induction s) auto

lemma first_alpha_idx_some:
  "list_all (\<lambda>x. \<not> isalpha L x) pre \<Longrightarrow> isalpha L c \<Longrightarrow>
     first_alpha_idx L (pre @ c # rest) = Some (length pre)"
  by (induction pre) auto

text \<open>
  Claim C8, amended.  \<^verbatim>\<open>sentence_case\<close> first trims the white space around its argument.
  On the trimmed string it replaces the first alphabetic character \<open>c\<close> by \<^verbatim>\<open>c.upper()\<close>
  and the text \<open>rest\<close> behind it by \<^verbatim>\<open>rest.lower()\<close>, and keeps the characters before it
  as they are; a trimmed string without an alphabetic character (the empty string, for
  an argument that is empty or white space only) is returned as it is.  Alphabetic is
  what \<^verbatim>\<open>str.isalpha\<close> says, and both changes of case are those of Python, for every
  character of Unicode.  The example of the specification holds.
\<close>

theorem sentence_case_of_trimmed:
  "(str_strip s = pre @ c # rest \<and> list_all (\<lambda>x. \<not> isalpha L x) pre \<and> isalpha L c \<longrightarrow>
      sentence_case L s = pre @ upper1 L c @ str_lower L rest) \<and>
   (list_all (\<lambda>x. \<not> isalpha L x) (str_strip s) \<longrightarrow> sentence_case L s = str_strip s) \<and>
   (list_all isspace s \<longrightarrow> sentence_case L s = []) \<and>
   sentence_case L (u ''BAKED apple crumble'') = u ''Baked apple crumble''"
proof (intro conjI impI)
  assume a: "str_strip s = pre @ c # rest \<and> list_all (\<lambda>x. \<not> isalpha L x) pre \<and> isalpha L c"
  then have "first_alpha_idx L (str_strip s) = Some (length pre)"
    by (simp add: first_alpha_idx_some)
  then show "sentence_case L s = pre @ upper1 L c @ str_lower L rest"
    using a by (simp add: sentence_case_def Let_def)
next
  assume "list_all (\<lambda>x. \<not> isalpha L x) (str_strip s)"
  then have "first_alpha_idx L (str_strip s) = None" by (rule first_alpha_idx_none)
  then show "sentence_case L s = str_strip s" by (simp add: sentence_case_def Let_def)
next
  assume "list_all isspace s"
  then have "lstrip_by isspace s = []" unfolding lstrip_by_def by (induction s) auto
  then have "str_strip s = []"
    by (simp add: str_strip_def strip_by_def rstrip_by_def)
  then show "sentence_case L s = []" by (simp add: sentence_case_def)
next
  show "sentence_case L (u ''BAKED apple crumble'') = u ''Baked apple crumble''" by code_simp
qed

theorem sentence_case_of_trimmed_witness:
  "\<forall>L. sentence_case L (u ''  2 x PEAR tart '') = u ''2 X pear tart'' \<and>
       sentence_case L (u '' 12 '') = u ''12'' \<and>
       sentence_case L (u ''   '') = []"
proof
  fix L
  have s: "str_strip (u ''  2 x PEAR tart '') = u ''2 '' @ 120 # u '' PEAR tart''" by code_simp
  have p: "list_all (\<lambda>x. \<not> isalpha L x) (u ''2 '')" by code_simp
  have c: "isalpha L 120" by code_simp
  have r: "u ''2 '' @ upper1 L 120 @ str_lower L (u '' PEAR tart'') = u ''2 X pear tart''"
    by code_simp
  have s2: "str_strip (u '' 12 '') = u ''12''" by code_simp
  have p2: "list_all (\<lambda>x. \<not> isalpha L x) (u ''12'')" by code_simp
  have w: "list_all isspace (u ''   '')" by code_simp
  show "sentence_case L (u ''  2 x PEAR tart '') = u ''2 X pear tart'' \<and>
        sentence_case L (u '' 12 '') = u ''12'' \<and>
        sentence_case L (u ''   '') = []"
    using sentence_case_of_trimmed [of "u ''  2 x PEAR tart ''" "u ''2 ''" 120 "u '' PEAR tart''" L]
      sentence_case_of_trimmed [of "u '' 12 ''" "[]" 0 "[]" L]
      sentence_case_of_trimmed [of "u ''   ''" "[]" 0 "[]" L]
      s p c r s2 p2 w
    by simp
qed

theorem sentence_case_blank_counterexample:
  "\<forall>L. list_all isspace (u '' '') \<and> sentence_case L (u '' '') \<noteq> u '' ''"
proof
  fix L
  show "list_all isspace (u '' '') \<and> sentence_case L (u '' '') \<noteq> u '' ''" by code_simp
qed

section \<open>Dates\<close>

lemma make_date_fields:
  "make_date y m d = Some x \<Longrightarrow>
     year x = y \<and> month x = m \<and> day x = d \<and> 1 \<le> y \<and> y \<le> 9999 \<and> 1 \<le> m \<and> m \<le> 12 \<and>
     1 \<le> d \<and> d \<le> 31"
  by (auto simp: make_date_def days_in_month_def split: if_splits)

lemma strptime_make_date:
  "strptime L f ds = Some x \<Longrightarrow> make_date (year x) (month x) (day x) = Some x"
proof -
  assume a: "strptime L f ds = Some x"
  have "\<exists>y m d. make_date y m d = Some x"
    using a
    by (cases f) (auto simp: strptime_def split: list.splits Option.bind_splits)
  then obtain y m d where md: "make_date y m d = Some x" by blast
  then show ?thesis using make_date_fields [OF md] by simp
qed

lemma digit_chr_simps [simp]:
  "digit_chr n \<noteq> 45" "isdigit L (digit_chr n)" "digit_val L (digit_chr n) = n mod 10"
proof -
  have "n mod 10 < 10" by simp
  then have b: "digit_chr n < 128" "48 \<le> digit_chr n" "digit_chr n \<le> 57"
    unfolding digit_chr_def by linarith+
  show "digit_chr n \<noteq> 45" using b by simp
  show "isdigit L (digit_chr n)" using b by (simp add: isdigit_def isdigit_ascii_def)
  show "digit_val L (digit_chr n) = n mod 10" using b(1) by (simp add: digit_val_def digit_chr_def)
qed

lemma four_digits:
  assumes "y \<le> 9999"
  shows "1000 * (y div 1000 mod 10) + 100 * (y div 100 mod 10) + 10 * (y div 10 mod 10) + y mod 10 = (y::nat)"
proof -
  define q1 where "q1 = y div 10"
  define q2 where "q2 = q1 div 10"
  define q3 where "q3 = q2 div 10"
  have e2: "y div 100 = q2" unfolding q2_def q1_def by (simp add: div_mult2_eq [symmetric])
  have e3: "y div 1000 = q3" unfolding q3_def q2_def q1_def by (simp add: div_mult2_eq [symmetric])
  have "y div 1000 < 10" using assms by simp
  then have m3: "q3 mod 10 = q3" using e3 by simp
  have d1: "y = 10 * q1 + y mod 10" unfolding q1_def by simp
  have d2: "q1 = 10 * q2 + q1 mod 10" unfolding q2_def by simp
  have d3: "q2 = 10 * q3 + q2 mod 10" unfolding q3_def by simp
  have "1000 * q3 + 100 * (q2 mod 10) + 10 * (q1 mod 10) + y mod 10 = y"
    using d1 d2 d3 by linarith
  then show ?thesis using m3 by (simp add: e2 e3 q1_def [symmetric])
qed

lemma field_Y_iso:
  "y \<le> 9999 \<Longrightarrow>
     field_Y L [digit_chr (y div 1000), digit_chr (y div 100), digit_chr (y div 10), digit_chr y] = Some y"
  using four_digits [of y] by (simp add: field_Y_def)

lemma field_m_iso:
  "1 \<le> m \<Longrightarrow> m \<le> 12 \<Longrightarrow> field_m L [digit_chr (m div 10), digit_chr m] = Some m"
proof -
  assume a: "1 \<le> m" "m \<le> 12"
  have "list_all (\<lambda>m. field_m L [digit_chr (m div 10), digit_chr m] = Some m) [1..<13]"
    by code_simp
  then show ?thesis using a by (simp add: list_all_iff)
qed

lemma field_d_iso:
  "1 \<le> d \<Longrightarrow> d \<le> 31 \<Longrightarrow> field_d L [digit_chr (d div 10), digit_chr d] = Some d"
proof -
  assume a: "1 \<le> d" "d \<le> 31"
  have "list_all (\<lambda>d. field_d L [digit_chr (d div 10), digit_chr d] = Some d) [1..<32]"
    by code_simp
  then show ?thesis using a by (simp add: list_all_iff)
qed

lemma split_iso:
  "split_on 45 [a, b, c, d, 45, e, f, 45, g, h] =
     (if a = 45 \<or> b = 45 \<or> c = 45 \<or> d = 45 \<or> e = 45 \<or> f = 45 \<or> g = 45 \<or> h = 45
      then split_on 45 [a, b, c, d, 45, e, f, 45, g, h]
      else [[a, b, c, d], [e, f], [g, h]])"
  by simp

lemma strptime_isoformat:
  assumes "make_date y m d = Some x"
  shows "strptime L YMD (isoformat x) = Some x"
proof -
  note f = make_date_fields [OF assms]
  have sp: "split_on 45 (isoformat x) =
      [[digit_chr (y div 1000), digit_chr (y div 100), digit_chr (y div 10), digit_chr y],
       [digit_chr (m div 10), digit_chr m], [digit_chr (d div 10), digit_chr d]]"
    unfolding isoformat_def using f by (subst split_iso) simp
  show ?thesis
    unfolding strptime_def sp using f assms
    by (simp add: field_Y_iso field_m_iso field_d_iso)
qed

text \<open>
  Claim C9, amended.  \<^verbatim>\<open>to_iso\<close> trims the white space around the date text, tries
  \<^verbatim>\<open>%d/%m/%Y\<close>, then \<^verbatim>\<open>%d/%m/%y\<close>, then \<^verbatim>\<open>%Y-%m-%d\<close> on the trimmed text, and returns the
  ISO text of the first date that parses; that text reads back as the same date.  When
  no format parses it returns the trimmed text.  It is a total function: no input makes
  it raise.
\<close>

theorem to_iso_first_format_wins:
  "to_iso L s =
     (case strptime L DMY4 (str_strip s) of
        Some d \<Rightarrow> isoformat d
      | None \<Rightarrow>
          (case strptime L DMY2 (str_strip s) of
             Some d \<Rightarrow> isoformat d
           | None \<Rightarrow>
               (case strptime L YMD (str_strip s) of
                  Some d \<Rightarrow> isoformat d
                | None \<Rightarrow> str_strip s))) \<and>
   (\<forall>f d. strptime L f (str_strip s) = Some d \<longrightarrow> strptime L YMD (isoformat d) = Some d)"
proof
  show "to_iso L s =
     (case strptime L DMY4 (str_strip s) of
        Some d \<Rightarrow> isoformat d
      | None \<Rightarrow>
          (case strptime L DMY2 (str_strip s) of
             Some d \<Rightarrow> isoformat d
           | None \<Rightarrow>
               (case strptime L YMD (str_strip s) of
                  Some d \<Rightarrow> isoformat d
                | None \<Rightarrow> str_strip s)))"
    by (simp add: to_iso_def Let_def split: option.splits)
next
  show "\<forall>f d. strptime L f (str_strip s) = Some d \<longrightarrow> strptime L YMD (isoformat d) = Some d"
    using strptime_make_date strptime_isoformat by blast
qed

theorem to_iso_first_format_wins_witness:
  "\<forall>L. to_iso L (u '' 02/03/24 '') = u ''2024-03-02'' \<and>
       strptime L YMD (u ''2024-03-02'') = Some \<lparr>year = 2024, month = 3, day = 2\<rparr> \<and>
       to_iso L (u ''31/12/2025'') = u ''2025-12-31'' \<and>
       to_iso L (u ''2025-3-9'') = u ''2025-03-09'' \<and>
       to_iso L (u ''  week 12 '') = u ''week 12''"
proof
  fix L
  have s1: "str_strip (u '' 02/03/24 '') = u ''02/03/24''" by code_simp
  have a1: "strptime L DMY4 (u ''02/03/24'') = None" by code_simp
  have a2: "strptime L DMY2 (u ''02/03/24'') = Some \<lparr>year = 2024, month = 3, day = 2\<rparr>" by code_simp
  have i1: "isoformat \<lparr>year = 2024, month = 3, day = 2\<rparr> = u ''2024-03-02''" by code_simp
  have s2: "str_strip (u ''31/12/2025'') = u ''31/12/2025''" by code_simp
  have b1: "strptime L DMY4 (u ''31/12/2025'') = Some \<lparr>year = 2025, month = 12, day = 31\<rparr>" by code_simp
  have i2: "isoformat \<lparr>year = 2025, month = 12, day = 31\<rparr> = u ''2025-12-31''" by code_simp
  have s3: "str_strip (u ''2025-3-9'') = u ''2025-3-9''" by code_simp
  have c1: "strptime L DMY4 (u ''2025-3-9'') = None" "strptime L DMY2 (u ''2025-3-9'') = None"
    by code_simp+
  have c3: "strptime L YMD (u ''2025-3-9'') = Some \<lparr>year = 2025, month = 3, day = 9\<rparr>" by code_simp
  have i3: "isoformat \<lparr>year = 2025, month = 3, day = 9\<rparr> = u ''2025-03-09''" by code_simp
  have s4: "str_strip (u ''  week 12 '') = u ''week 12''" by code_simp
  have d1: "strptime L DMY4 (u ''week 12'') = None" "strptime L DMY2 (u ''week 12'') = None"
    "strptime L YMD (u ''week 12'') = None"
    by code_simp+
  note t1 = to_iso_first_format_wins [of L "u '' 02/03/24 ''"]
  from t1 have "strptime L DMY2 (str_strip (u '' 02/03/24 '')) = Some \<lparr>year = 2024, month = 3, day = 2\<rparr>
      \<longrightarrow> strptime L YMD (isoformat \<lparr>year = 2024, month = 3, day = 2\<rparr>)
            = Some \<lparr>year = 2024, month = 3, day = 2\<rparr>"
    by blast
  then have r1: "strptime L YMD (u ''2024-03-02'') = Some \<lparr>year = 2024, month = 3, day = 2\<rparr>"
    by (simp add: s1 a2 i1)
  have e1: "to_iso L (u '' 02/03/24 '') = u ''2024-03-02''"
    using t1 by (simp add: s1 a1 a2 i1)
  have e2: "to_iso L (u ''31/12/2025'') = u ''2025-12-31''"
    using to_iso_first_format_wins [of L "u ''31/12/2025''"] by (simp add: s2 b1 i2)
  have e3: "to_iso L (u ''2025-3-9'') = u ''2025-03-09''"
    using to_iso_first_format_wins [of L "u ''2025-3-9''"] by (simp add: s3 c1 c3 i3)
  have e4: "to_iso L (u ''  week 12 '') = u ''week 12''"
    using to_iso_first_format_wins [of L "u ''  week 12 ''"] by (simp add: s4 d1)
  show "to_iso L (u '' 02/03/24 '') = u ''2024-03-02'' \<and>
        strptime L YMD (u ''2024-03-02'') = Some \<lparr>year = 2024, month = 3, day = 2\<rparr> \<and>
        to_iso L (u ''31/12/2025'') = u ''2025-12-31'' \<and>
        to_iso L (u ''2025-3-9'') = u ''2025-03-09'' \<and>
        to_iso L (u ''  week 12 '') = u ''week 12''"
    using r1 e1 e2 e3 e4 by simp
qed

theorem to_iso_not_verbatim_counterexample:
  "\<forall>L. strptime L DMY4 (u '' week 12'') = None \<and> strptime L DMY2 (u '' week 12'') = None \<and>
       strptime L YMD (u '' week 12'') = None \<and> to_iso L (u '' week 12'') \<noteq> u '' week 12''"
proof
  fix L
  show "strptime L DMY4 (u '' week 12'') = None \<and> strptime L DMY2 (u '' week 12'') = None \<and>
        strptime L YMD (u '' week 12'') = None \<and> to_iso L (u '' week 12'') \<noteq> u '' week 12''"
    by code_simp
qed


section \<open>Week parser\<close>

lemma ensure_len_eq: "ensure_len out n filler = take n (out @ replicate (n - length out) filler)"
proof (induction out n filler rule: ensure_len.induct)
  case (1 out n filler)
  show ?case
  proof (cases "length out < n")
    case True
    then have "n - length out = Suc (n - length (out @ [filler]))" by simp
    then have "out @ replicate (n - length out) filler =
               (out @ [filler]) @ replicate (n - length (out @ [filler])) filler"
      by (simp only: replicate.simps append.simps append_assoc)
    then show ?thesis using True "1.IH" by (subst ensure_len.simps) simp
  next
    case False
    then show ?thesis by (subst ensure_len.simps) simp
  qed
qed

lemma length_ensure_len [simp]: "length (ensure_len out n filler) = n"
  by (simp add: ensure_len_eq)

lemma ensure_len_two [simp]: "ensure_len [a, b] 2 filler = [a, b]"
  by (simp add: ensure_len_eq)

lemma daily_lengths:
  "length (l_starters (src_lunch (dr_source (daily L tbl i)))) = 2 \<and>
   length (l_desserts (src_lunch (dr_source (daily L tbl i)))) = 2 \<and>
   length (s_desserts (src_supper (dr_source (daily L tbl i)))) = 2"
  by (simp add: daily_def Let_def)

lemma daily_second_desserts:
  "l_desserts (src_lunch (dr_source (daily L tbl i))) ! 1 =
     \<lparr>title = ICE_CREAMS_V, description = [],
      allergens = allergens (parse_title_desc_allergens L (cell tbl 10 (i + 1)))\<rparr> \<and>
   s_desserts (src_supper (dr_source (daily L tbl i))) ! 1 =
     \<lparr>title = VEGAN_ICE_VE, description = [],
      allergens = allergens (parse_title_desc_allergens L (cell tbl 17 (i + 1)))\<rparr>"
  by (simp add: daily_def Let_def)

text \<open>
  Claim C6.  For every grid (the first table of the document), the week parser returns
  seven day records, and in each of them the lunch starters, the lunch desserts and the
  supper desserts have exactly two elements.  A cell the grid does not have reads as
  the empty text, so the items of a missing row are empty items.
\<close>

theorem parse_week_seven_days:
  "\<exists>days. parse_week L (tbl # others) = Some days \<and> length days = 7 \<and>
     list_all (\<lambda>d. length (l_starters (src_lunch (dr_source d))) = 2 \<and>
                    length (l_desserts (src_lunch (dr_source d))) = 2 \<and>
                    length (s_desserts (src_supper (dr_source d))) = 2) days"
  by (simp add: parse_week_def list_all_iff daily_lengths)

theorem parse_week_seven_days_witness:
  "\<forall>L. \<exists>days. parse_week L [[]] = Some days \<and> length days = 7 \<and>
     list_all (\<lambda>d. length (l_starters (src_lunch (dr_source d))) = 2 \<and>
                    length (l_desserts (src_lunch (dr_source d))) = 2 \<and>
                    length (s_desserts (src_supper (dr_source d))) = 2) days \<and>
     list_all (\<lambda>d. l_starters (src_lunch (dr_source d)) = [EMPTY_STARTER, EMPTY_STARTER]) days"
proof
  fix L
  have pe: "parse_title_desc_allergens L [] = EMPTY_ITEM" by code_simp
  have "list_all (\<lambda>d. l_starters (src_lunch (dr_source d)) = [EMPTY_STARTER, EMPTY_STARTER])
          (map (daily L []) [0..<7])"
    by (simp add: list_all_iff daily_def Let_def cell_def pe starter_of_def EMPTY_ITEM_def
        EMPTY_STARTER_def)
  moreover have "parse_week L [[]] = Some (map (daily L []) [0..<7])"
    by (simp add: parse_week_def)
  ultimately show "\<exists>days. parse_week L [[]] = Some days \<and> length days = 7 \<and>
     list_all (\<lambda>d. length (l_starters (src_lunch (dr_source d))) = 2 \<and>
                    length (l_desserts (src_lunch (dr_source d))) = 2 \<and>
                    length (s_desserts (src_supper (dr_source d))) = 2) days \<and>
     list_all (\<lambda>d. l_starters (src_lunch (dr_source d)) = [EMPTY_STARTER, EMPTY_STARTER]) days"
    using parse_week_seven_days [of L "[]" "[]"] by auto
qed

text \<open>
  Claim C10.  In every day record of the week parser the second lunch dessert has the
  title \<^verbatim>\<open>Ice creams / sorbet (V)\<close> and the second supper dessert the title
  \<^verbatim>\<open>Selection of vegan ice creams or sorbet with seasonal fruits (Ve)\<close>, whatever the cells
  of rows 10 and 17 hold; the allergens of the two slots are the allergens the cell
  parser finds in these cells, and nothing else of the cells is kept.
\<close>

theorem parse_week_fixed_second_desserts:
  "\<exists>days. parse_week L (tbl # others) = Some days \<and> length days = 7 \<and>
     (\<forall>i<7.
        l_desserts (src_lunch (dr_source (days ! i))) ! 1 =
          \<lparr>title = ICE_CREAMS_V, description = [],
           allergens = allergens (parse_title_desc_allergens L (cell tbl 10 (i + 1)))\<rparr> \<and>
        s_desserts (src_supper (dr_source (days ! i))) ! 1 =
          \<lparr>title = VEGAN_ICE_VE, description = [],
           allergens = allergens (parse_title_desc_allergens L (cell tbl 17 (i + 1)))\<rparr>)"
  using daily_second_desserts [of L tbl] by (simp add: parse_week_def)


theorem parse_week_fixed_second_desserts_witness:
  "\<forall>L. \<exists>days. parse_week L [dessert_grid] = Some days \<and>
     l_desserts (src_lunch (dr_source (days ! 0))) ! 1 =
       \<lparr>title = ICE_CREAMS_V, description = [], allergens = u ''Milk, Egg''\<rparr> \<and>
     s_desserts (src_supper (dr_source (days ! 0))) ! 1 =
       \<lparr>title = VEGAN_ICE_VE, description = [], allergens = []\<rparr>"
proof
  fix L
  have c10: "cell dessert_grid 10 (0 + 1) = u ''Vanilla ice cream Milk, Egg''" by code_simp
  have c17: "cell dessert_grid 17 (0 + 1) = u ''Lemon sorbet''" by code_simp
  have p10: "allergens (parse_title_desc_allergens L (u ''Vanilla ice cream Milk, Egg'')) = u ''Milk, Egg''"
    by code_simp
  have p17: "allergens (parse_title_desc_allergens L (u ''Lemon sorbet'')) = []" by code_simp
  obtain days where d: "parse_week L (dessert_grid # []) = Some days"
    and a: "\<forall>i<7.
        l_desserts (src_lunch (dr_source (days ! i))) ! 1 =
          \<lparr>title = ICE_CREAMS_V, description = [],
           allergens = allergens (parse_title_desc_allergens L (cell dessert_grid 10 (i + 1)))\<rparr> \<and>
        s_desserts (src_supper (dr_source (days ! i))) ! 1 =
          \<lparr>title = VEGAN_ICE_VE, description = [],
           allergens = allergens (parse_title_desc_allergens L (cell dessert_grid 17 (i + 1)))\<rparr>"
    using parse_week_fixed_second_desserts [of L dessert_grid "[]"] by blast
  have "(0::nat) < 7" by simp
  with a have
    "l_desserts (src_lunch (dr_source (days ! 0))) ! 1 =
          \<lparr>title = ICE_CREAMS_V, description = [],
           allergens = allergens (parse_title_desc_allergens L (cell dessert_grid 10 (0 + 1)))\<rparr> \<and>
        s_desserts (src_supper (dr_source (days ! 0))) ! 1 =
          \<lparr>title = VEGAN_ICE_VE, description = [],
           allergens = allergens (parse_title_desc_allergens L (cell dessert_grid 17 (0 + 1)))\<rparr>"
    by blast
  then show "\<exists>days. parse_week L [dessert_grid] = Some days \<and>
     l_desserts (src_lunch (dr_source (days ! 0))) ! 1 =
       \<lparr>title = ICE_CREAMS_V, description = [], allergens = u ''Milk, Egg''\<rparr> \<and>
     s_desserts (src_supper (dr_source (days ! 0))) ! 1 =
       \<lparr>title = VEGAN_ICE_VE, description = [], allergens = []\<rparr>"
    using d unfolding c10 c17 p10 p17 by blast
qed

section \<open>Cell parser\<close>

lemma isspace_newline: "isspace 10"
  by code_simp

lemma allergen_words_plain: "w \<in> set ALLERGEN_WORDS \<Longrightarrow> w \<noteq> [] \<and> list_all (\<lambda>p. p \<noteq> 10) w"
proof -
  have "list_all (\<lambda>w. w \<noteq> [] \<and> list_all (\<lambda>p. p \<noteq> 10) w) ALLERGEN_WORDS" by code_simp
  then show "w \<in> set ALLERGEN_WORDS \<Longrightarrow> w \<noteq> [] \<and> list_all (\<lambda>p. p \<noteq> 10) w"
    unfolding list_all_iff [of _ ALLERGEN_WORDS] by blast
qed

lemma ci_eq_newline: "ci_eq L 10 p \<Longrightarrow> p = 10"
  by (simp add: ci_eq_def lower_ascii_def isupper_ascii_def)

lemma ci_startswith_take:
  "ci_startswith L w s \<Longrightarrow> list_all (\<lambda>p. p \<noteq> 10) w \<Longrightarrow>
     length w \<le> length s \<and> 10 \<notin> set (take (length w) s)"
proof (induction L w s rule: ci_startswith.induct)
  case (3 L p ps c cs)
  then have "c \<noteq> 10" using ci_eq_newline [of L p] by auto
  then show ?case using 3 by simp
qed simp_all

lemma dot_star_eos_stripped:
  "dot_star_eos (drop k (str_strip x)) \<longleftrightarrow> 10 \<notin> set (drop k (str_strip x))"
proof (cases "10 \<in> set (drop k (str_strip x))")
  case False
  then have "dropWhile (\<lambda>c. c \<noteq> 10) (drop k (str_strip x)) = []" by auto
  then show ?thesis using False by (simp add: dot_star_eos_def)
next
  case True
  define r where "r = drop k (str_strip x)"
  have rne: "r \<noteq> []" using True unfolding r_def by auto
  then have k: "k < length (str_strip x)" unfolding r_def by simp
  then have ne: "str_strip x \<noteq> []" by auto
  have "\<not> isspace (last (str_strip x))"
    using strip_by_ends [of isspace x] ne unfolding str_strip_def by blast
  moreover have "last r = last (str_strip x)" unfolding r_def using k by (rule last_drop)
  ultimately have l: "last r \<noteq> 10" using isspace_newline by auto
  have "\<not> dot_star_eos r"
  proof
    assume "dot_star_eos r"
    moreover have "dropWhile (\<lambda>c. c \<noteq> 10) r \<noteq> []" using True unfolding r_def by simp
    ultimately have d: "dropWhile (\<lambda>c. c \<noteq> 10) r = [10]"
      unfolding dot_star_eos_def Let_def by blast
    have "r = takeWhile (\<lambda>c. c \<noteq> 10) r @ dropWhile (\<lambda>c. c \<noteq> 10) r" by simp
    then have "r = takeWhile (\<lambda>c. c \<noteq> 10) r @ [10]" using d by simp
    then have "last r = 10" using last_snoc by metis
    then show False using l by simp
  qed
  then show ?thesis using True unfolding r_def by simp
qed

lemma word_match_at_stripped:
  assumes "w \<in> set ALLERGEN_WORDS"
  shows "word_match_at L (str_strip x) i w \<longleftrightarrow>
     ci_startswith L w (drop i (str_strip x)) \<and> boundary L (str_strip x) i \<and>
     boundary L (str_strip x) (i + length w) \<and> 10 \<notin> set (drop i (str_strip x))"
proof (cases "ci_startswith L w (drop i (str_strip x))")
  case False
  then show ?thesis by (simp add: word_match_at_def)
next
  case True
  have "drop (length w) (drop i (str_strip x)) = drop (i + length w) (str_strip x)"
    by (simp add: add.commute)
  then have "drop i (str_strip x) =
          take (length w) (drop i (str_strip x)) @ drop (i + length w) (str_strip x)"
    using append_take_drop_id [of "length w" "drop i (str_strip x)"] by simp
  then have "set (drop i (str_strip x)) =
          set (take (length w) (drop i (str_strip x))) \<union> set (drop (i + length w) (str_strip x))"
    using set_append by metis
  moreover have "10 \<notin> set (take (length w) (drop i (str_strip x)))"
    using ci_startswith_take [OF True] allergen_words_plain [OF assms] by blast
  ultimately have "10 \<notin> set (drop i (str_strip x)) \<longleftrightarrow>
      10 \<notin> set (drop (i + length w) (str_strip x))"
    by blast
  then show ?thesis
    using True by (auto simp: word_match_at_def dot_star_eos_stripped)
qed

lemma tail_match_at_stripped:
  "tail_match_at L (str_strip x) i \<longleftrightarrow>
     (\<exists>w\<in>set ALLERGEN_WORDS.
        ci_startswith L w (drop i (str_strip x)) \<and> boundary L (str_strip x) i \<and>
        boundary L (str_strip x) (i + length w) \<and> 10 \<notin> set (drop i (str_strip x)))"
  unfolding tail_match_at_def list_ex_iff using word_match_at_stripped [of _ L x i] by blast

lemma tail_match_at_bound: "tail_match_at L raw i \<Longrightarrow> i < length raw"
proof (rule ccontr)
  assume t: "tail_match_at L raw i" and "\<not> i < length raw"
  then have d: "drop i raw = []" by simp
  from t obtain w where w: "w \<in> set ALLERGEN_WORDS" "ci_startswith L w (drop i raw)"
    unfolding tail_match_at_def list_ex_iff word_match_at_def by blast
  then have "w \<noteq> []" using allergen_words_plain by blast
  then show False using w(2) d by (cases w) simp_all
qed

lemma tail_search_Some:
  "tail_match_at L raw i \<Longrightarrow> (\<forall>j<i. \<not> tail_match_at L raw j) \<Longrightarrow>
     allergen_tail_search L raw = Some i"
proof -
  assume t: "tail_match_at L raw i" and n: "\<forall>j<i. \<not> tail_match_at L raw j"
  have b: "i < length raw" using t by (rule tail_match_at_bound)
  show ?thesis
    unfolding allergen_tail_search_def find_Some_iff
    using t n b by (intro exI [of _ i]) simp
qed

lemma tail_search_None:
  "(\<forall>j. \<not> tail_match_at L raw j) \<Longrightarrow> allergen_tail_search L raw = None"
  unfolding allergen_tail_search_def find_None_iff by simp

text \<open>
  Claim C1, amended.  The allergen pattern is a known allergen word (\<^verbatim>\<open>Milk\<close>, \<^verbatim>\<open>Egg\<close>,
  \<^verbatim>\<open>Soya\<close>, \<^verbatim>\<open>Gluten\<close>, \<^verbatim>\<open>Nuts\<close>, \<^verbatim>\<open>Peanuts\<close>, \<^verbatim>\<open>Sesame\<close>, \<^verbatim>\<open>Mustard\<close>, \<^verbatim>\<open>Celery\<close>,
  \<^verbatim>\<open>Sulphites\<close>, \<^verbatim>\<open>Fish\<close>, \<^verbatim>\<open>Crustaceans\<close>, \<^verbatim>\<open>Molluscs\<close>, in any case) that stands as a whole
  word and is followed by text without a line break up to the end of the cell: a word
  matches on the last line of the cell only.  \<^verbatim>\<open>parse_title_desc_allergens\<close> turns the
  carriage returns of the cell into newlines and trims it, and splits the result \<open>raw\<close>
  at the left-most position \<open>i\<close> where such a word stands and behind which \<open>raw\<close> has no
  newline: the allergens are the text from \<open>i\<close> to the end, trimmed and with the commas
  tidied, and the title and the description are the lines of the text before \<open>i\<close>.
  When there is no such position the whole cell is the body and the allergens are
  empty, whatever allergen words stand on the lines before the last.  The example of
  the specification holds.
\<close>

theorem parse_cell_splits_at_last_line_word:
  "let raw = str_strip (str_replace [13] [10] cell_text);
       word_on_last_line =
         (\<lambda>i. \<exists>w\<in>set ALLERGEN_WORDS.
                ci_startswith L w (drop i raw) \<and> boundary L raw i \<and>
                boundary L raw (i + length w) \<and> 10 \<notin> set (drop i raw));
       item = parse_title_desc_allergens L cell_text
   in (\<forall>i. word_on_last_line i \<and> (\<forall>j<i. \<not> word_on_last_line j) \<longrightarrow>
         allergens item = tidy_allergens (str_strip (drop i raw)) \<and>
         title item = (case body_lines (str_strip (take i raw)) of [] \<Rightarrow> [] | l # _ \<Rightarrow> l) \<and>
         description item =
           (case body_lines (str_strip (take i raw)) of
              [] \<Rightarrow> [] | [l] \<Rightarrow> [] | l # ls \<Rightarrow> str_strip (str_join (u '' '') ls))) \<and>
      ((\<forall>j. \<not> word_on_last_line j) \<longrightarrow>
         allergens item = [] \<and>
         title item = (case body_lines raw of [] \<Rightarrow> [] | l # _ \<Rightarrow> l) \<and>
         description item =
           (case body_lines raw of
              [] \<Rightarrow> [] | [l] \<Rightarrow> [] | l # ls \<Rightarrow> str_strip (str_join (u '' '') ls))) \<and>
      parse_title_desc_allergens L fish_pie_cell =
        \<lparr>title = u ''Fish pie'', description = u ''With parsley sauce'',
         allergens = u ''Fish, Milk, Gluten''\<rparr>"
  unfolding Let_def tail_match_at_stripped [symmetric]
proof (intro conjI allI impI)
  fix i
  assume "tail_match_at L (str_strip (str_replace [13] [10] cell_text)) i \<and>
          (\<forall>j<i. \<not> tail_match_at L (str_strip (str_replace [13] [10] cell_text)) j)"
  then have a: "allergen_tail_search L (str_strip (str_replace [13] [10] cell_text)) = Some i"
    using tail_search_Some by blast
  show "allergens (parse_title_desc_allergens L cell_text) =
        tidy_allergens (str_strip (drop i (str_strip (str_replace [13] [10] cell_text))))"
    using a by (simp add: parse_title_desc_allergens_def Let_def)
  show "title (parse_title_desc_allergens L cell_text) =
        (case body_lines (str_strip (take i (str_strip (str_replace [13] [10] cell_text)))) of
           [] \<Rightarrow> [] | l # _ \<Rightarrow> l)"
    using a by (simp add: parse_title_desc_allergens_def Let_def)
  show "description (parse_title_desc_allergens L cell_text) =
        (case body_lines (str_strip (take i (str_strip (str_replace [13] [10] cell_text)))) of
           [] \<Rightarrow> [] | [l] \<Rightarrow> [] | l # ls \<Rightarrow> str_strip (str_join (u '' '') ls))"
    using a by (auto simp: parse_title_desc_allergens_def Let_def split: list.splits)
next
  assume "\<forall>j. \<not> tail_match_at L (str_strip (str_replace [13] [10] cell_text)) j"
  then have a: "allergen_tail_search L (str_strip (str_replace [13] [10] cell_text)) = None"
    by (rule tail_search_None)
  show "allergens (parse_title_desc_allergens L cell_text) = []"
    using a by (simp add: parse_title_desc_allergens_def Let_def tidy_allergens_def)
  show "title (parse_title_desc_allergens L cell_text) =
        (case body_lines (str_strip (str_replace [13] [10] cell_text)) of [] \<Rightarrow> [] | l # _ \<Rightarrow> l)"
    using a by (simp add: parse_title_desc_allergens_def Let_def)
  show "description (parse_title_desc_allergens L cell_text) =
        (case body_lines (str_strip (str_replace [13] [10] cell_text)) of
           [] \<Rightarrow> [] | [l] \<Rightarrow> [] | l # ls \<Rightarrow> str_strip (str_join (u '' '') ls))"
    using a by (auto simp: parse_title_desc_allergens_def Let_def split: list.splits)
next
  show "parse_title_desc_allergens L fish_pie_cell =
     \<lparr>title = u ''Fish pie'', description = u ''With parsley sauce'',
      allergens = u ''Fish, Milk, Gluten''\<rparr>"
    by code_simp
qed

theorem parse_cell_splits_at_last_line_word_witness:
  "\<forall>L. ci_startswith L (u ''fish'') (drop 28 fish_pie_cell) \<and> boundary L fish_pie_cell 28 \<and>
       boundary L fish_pie_cell 32 \<and> 10 \<notin> set (drop 28 fish_pie_cell) \<and>
       ci_startswith L (u ''fish'') (drop 0 fish_pie_cell) \<and> 10 \<in> set (drop 0 fish_pie_cell) \<and>
       allergens (parse_title_desc_allergens L fish_pie_cell) = u ''Fish, Milk, Gluten'' \<and>
       title (parse_title_desc_allergens L fish_pie_cell) = u ''Fish pie'' \<and>
       description (parse_title_desc_allergens L fish_pie_cell) = u ''With parsley sauce'' \<and>
       allergens (parse_title_desc_allergens L (u ''Rice pudding'')) = [] \<and>
       title (parse_title_desc_allergens L (u ''Rice pudding'')) = u ''Rice pudding''"
proof
  fix L
  have h1: "tail_match_at L (str_strip (str_replace [13] [10] fish_pie_cell)) 28" by code_simp
  have "list_all (\<lambda>j. \<not> tail_match_at L (str_strip (str_replace [13] [10] fish_pie_cell)) j) [0..<28]"
    by code_simp
  then have h2: "\<forall>j<28. \<not> tail_match_at L (str_strip (str_replace [13] [10] fish_pie_cell)) j"
    unfolding list_all_iff by simp
  have "list_all (\<lambda>j. \<not> tail_match_at L (str_strip (str_replace [13] [10] (u ''Rice pudding''))) j)
          [0..<12]"
    by code_simp
  then have "\<forall>j<12. \<not> tail_match_at L (str_strip (str_replace [13] [10] (u ''Rice pudding''))) j"
    unfolding list_all_iff by simp
  moreover have "length (str_strip (str_replace [13] [10] (u ''Rice pudding''))) = 12" by code_simp
  ultimately have h3: "\<forall>j. \<not> tail_match_at L (str_strip (str_replace [13] [10] (u ''Rice pudding''))) j"
    using tail_match_at_bound [of L "str_strip (str_replace [13] [10] (u ''Rice pudding''))"]
    by metis
  note f = parse_cell_splits_at_last_line_word [of fish_pie_cell L, unfolded Let_def,
      unfolded tail_match_at_stripped [symmetric]]
  note r = parse_cell_splits_at_last_line_word [of "u ''Rice pudding''" L, unfolded Let_def,
      unfolded tail_match_at_stripped [symmetric]]
  have d: "tidy_allergens (str_strip (drop 28 (str_strip (str_replace [13] [10] fish_pie_cell)))) =
             u ''Fish, Milk, Gluten''"
    by code_simp
  have b: "body_lines (str_strip (take 28 (str_strip (str_replace [13] [10] fish_pie_cell)))) =
             [u ''Fish pie'', u ''With parsley sauce'']"
    by code_simp
  have j: "str_strip (str_join (u '' '') [u ''With parsley sauce'']) = u ''With parsley sauce''"
    by code_simp
  have bn: "body_lines (str_strip (str_replace [13] [10] (u ''Rice pudding''))) = [u ''Rice pudding'']"
    by code_simp
  have f1: "allergens (parse_title_desc_allergens L fish_pie_cell) = u ''Fish, Milk, Gluten''"
    using f h1 h2 d by simp
  have f2: "title (parse_title_desc_allergens L fish_pie_cell) = u ''Fish pie''"
    using f h1 h2 b by simp
  have f3: "description (parse_title_desc_allergens L fish_pie_cell) = u ''With parsley sauce''"
    using f h1 h2 b j by simp
  have r1: "allergens (parse_title_desc_allergens L (u ''Rice pudding'')) = []"
    using r h3 by blast
  have r2: "title (parse_title_desc_allergens L (u ''Rice pudding'')) = u ''Rice pudding''"
    using r h3 bn by simp
  have w: "ci_startswith L (u ''fish'') (drop 28 fish_pie_cell) \<and> boundary L fish_pie_cell 28 \<and>
       boundary L fish_pie_cell 32 \<and> 10 \<notin> set (drop 28 fish_pie_cell) \<and>
       ci_startswith L (u ''fish'') (drop 0 fish_pie_cell) \<and> 10 \<in> set (drop 0 fish_pie_cell)"
    by code_simp
  show "ci_startswith L (u ''fish'') (drop 28 fish_pie_cell) \<and> boundary L fish_pie_cell 28 \<and>
       boundary L fish_pie_cell 32 \<and> 10 \<notin> set (drop 28 fish_pie_cell) \<and>
       ci_startswith L (u ''fish'') (drop 0 fish_pie_cell) \<and> 10 \<in> set (drop 0 fish_pie_cell) \<and>
       allergens (parse_title_desc_allergens L fish_pie_cell) = u ''Fish, Milk, Gluten'' \<and>
       title (parse_title_desc_allergens L fish_pie_cell) = u ''Fish pie'' \<and>
       description (parse_title_desc_allergens L fish_pie_cell) = u ''With parsley sauce'' \<and>
       allergens (parse_title_desc_allergens L (u ''Rice pudding'')) = [] \<and>
       title (parse_title_desc_allergens L (u ''Rice pudding'')) = u ''Rice pudding''"
    using w f1 f2 f3 r1 r2 by simp
qed

theorem parse_cell_word_before_line_break_counterexample:
  "\<forall>L. u ''milk'' \<in> set ALLERGEN_WORDS \<and>
       ci_startswith L (u ''milk'') (drop 5 soup_bread_cell) \<and>
       boundary L soup_bread_cell 5 \<and> boundary L soup_bread_cell 9 \<and>
       drop 9 soup_bread_cell = u '' Egg'' @ [10] @ u ''Bread'' \<and>
       parse_title_desc_allergens L soup_bread_cell =
         \<lparr>title = u ''Soup Milk Egg'', description = u ''Bread'', allergens = []\<rparr>"
proof
  fix L
  show "u ''milk'' \<in> set ALLERGEN_WORDS \<and>
       ci_startswith L (u ''milk'') (drop 5 soup_bread_cell) \<and>
       boundary L soup_bread_cell 5 \<and> boundary L soup_bread_cell 9 \<and>
       drop 9 soup_bread_cell = u '' Egg'' @ [10] @ u ''Bread'' \<and>
       parse_title_desc_allergens L soup_bread_cell =
         \<lparr>title = u ''Soup Milk Egg'', description = u ''Bread'', allergens = []\<rparr>"
    by code_simp
qed

section \<open>View builders and the allergen table\<close>

lemma idx_simps [simp]:
  "idx (x # xs) 0 = Some x"
  "idx (x # y # ys) 1 = Some y"
  "idx (x # y # ys) (Suc 0) = Some y"
  "idx [] n = None"
  by (simp_all add: idx_def)

lemma idx_Some: "idx xs i = Some x \<Longrightarrow> i < length xs \<and> x = xs ! i"
  by (simp add: idx_def split: if_splits)

lemma length_two: "length xs = 2 \<Longrightarrow> \<exists>x y. xs = [x, y]"
  by (cases xs; cases "tl xs") auto

lemma two_each_lists:
  assumes "two_each dr"
  obtains a b c d e f where
    "l_starters (src_lunch (dr_source dr)) = [a, b]"
    "l_desserts (src_lunch (dr_source dr)) = [c, d]"
    "s_desserts (src_supper (dr_source dr)) = [e, f]"
proof -
  obtain a b where "l_starters (src_lunch (dr_source dr)) = [a, b]"
    using assms length_two unfolding two_each_def by blast
  moreover obtain c d where "l_desserts (src_lunch (dr_source dr)) = [c, d]"
    using assms length_two unfolding two_each_def by blast
  moreover obtain e f where "s_desserts (src_supper (dr_source dr)) = [e, f]"
    using assms length_two unfolding two_each_def by blast
  ultimately show ?thesis using that by blast
qed







text \<open>The Standard builder on a day with two lunch starters.\<close>

lemma starter_refs_two:
  "l_starters (src_lunch (dr_source dr)) = [a, b] \<Longrightarrow> starter_refs dr = [InDay 0, InDay 1]"
  by (simp add: starter_refs_def day_starters_def ensure_len_eq)

lemma highlight_starter_keeps:
  assumes "deref \<sigma> r = Some st" "\<not> is_chefs_choice_soup L (st_title st)"
  shows "highlight_starter L r \<sigma> = Some \<sigma>"
  using assms by (simp add: highlight_starter_def)

lemma highlight_starter_writes:
  assumes "deref \<sigma> r = Some st" "is_chefs_choice_soup L (st_title st)"
  shows "highlight_starter L r \<sigma> = Some (set_title r (yellow (st_title st)) \<sigma>)"
  using assms by (simp add: highlight_starter_def)

lemma put_starters_same: "put_starters (day_starters dr) dr = dr"
  by (simp add: put_starters_def day_starters_def)

lemma day_starters_put [simp]: "day_starters (put_starters xs dr) = xs"
  by (simp add: put_starters_def day_starters_def)

lemma put_starters_put [simp]: "put_starters xs (put_starters ys dr) = put_starters xs dr"
  by (simp add: put_starters_def)

lemma put_starters_desserts [simp]:
  "l_desserts (src_lunch (dr_source (put_starters xs dr))) = l_desserts (src_lunch (dr_source dr))"
  "s_desserts (src_supper (dr_source (put_starters xs dr))) = s_desserts (src_supper (dr_source dr))"
  "src_supper (dr_source (put_starters xs dr)) = src_supper (dr_source dr)"
  "l_starters (src_lunch (dr_source (put_starters xs dr))) = xs"
  by (simp_all add: put_starters_def)

lemma build_standard_context_day:
  assumes "day_starters dr = [a, b]"
    and "l_desserts (src_lunch (dr_source dr)) = [c, d]"
    and "s_desserts (src_supper (dr_source dr)) = [e, f]"
  shows "\<exists>std x y. build_standard_context L dr =
      Some (std,
        put_starters
          [if is_chefs_choice_soup L (st_title a) then a\<lparr>st_title := yellow (st_title a)\<rparr> else a,
           if is_chefs_choice_soup L (st_title b) then b\<lparr>st_title := yellow (st_title b)\<rparr> else b]
          dr) \<and>
     idx (cl_desserts (cx_lunch std)) 0 = Some x \<and> idx (cs_desserts (cx_supper std)) 0 = Some y"
proof -
  have r: "starter_refs dr = [InDay 0, InDay 1]"
    using assms(1) by (simp add: starter_refs_def ensure_len_eq)
  have l: "l_starters (src_lunch (dr_source dr)) = [a, b]"
    using assms(1) by (simp add: day_starters_def)
  have p: "put_starters [a, b] dr = dr" using put_starters_same [of dr] assms(1) by simp
  show ?thesis
    unfolding build_standard_context_def Let_def r l assms(2,3)
    using p assms(1)
    by (simp add: highlight_starter_def deref_def set_title_def)
qed

text \<open>The Vegan builder and the assembler read the title of the first lunch starter as a
  string.\<close>

lemma build_vegan_context_total:
  assumes "two_each dr" "st_title (day_starters dr ! 0) = Plain t"
  shows "\<exists>veg. build_vegan_context L dr = Some veg"
proof -
  obtain a b c d e f where l:
    "l_starters (src_lunch (dr_source dr)) = [a, b]"
    "l_desserts (src_lunch (dr_source dr)) = [c, d]"
    "s_desserts (src_supper (dr_source dr)) = [e, f]"
    using assms(1) by (rule two_each_lists)
  have "st_title a = Plain t" using assms(2) l(1) by (simp add: day_starters_def)
  then show ?thesis
    unfolding build_vegan_context_def Let_def l
    by (simp add: as_str_def split: prod.splits)
qed

lemma build_vegan_context_rich:
  assumes "day_starters dr = a # rest" "st_title a = Yellow x"
  shows "build_vegan_context L dr = None"
proof -
  have l: "l_starters (src_lunch (dr_source dr)) = a # rest"
    using assms(1) by (simp add: day_starters_def)
  have "idx (ensure_len (a # rest) 2 EMPTY_STARTER) 0 = Some a"
    by (simp add: ensure_len_eq idx_def)
  then show ?thesis
    unfolding build_vegan_context_def Let_def l
    using assms(2) by (simp add: as_str_def split: prod.splits)
qed

lemma add_calls_rich:
  assumes "day_starters dr = a # rest" "st_title a = Yellow x"
  shows "add_calls L dr std veg = None"
proof -
  have l: "l_starters (src_lunch (dr_source dr)) = a # rest"
    using assms(1) by (simp add: day_starters_def)
  show ?thesis
    unfolding add_calls_def Let_def l
    using assms(2) by (simp add: as_str_def split: Option.bind_splits)
qed


lemma ex_pre_refl: "\<exists>pre. t = pre @ t"
  by (rule exI [of _ "[]"]) simp

lemma ex_pre_app: "\<exists>pre. r = pre @ t \<Longrightarrow> \<exists>pre. a @ r = pre @ t"
proof -
  assume "\<exists>pre. r = pre @ t"
  then obtain pre where "r = pre @ t" by blast
  then have "a @ r = (a @ pre) @ t" by simp
  then show ?thesis by blast
qed

lemma ex_pre_cons: "\<exists>pre. r = pre @ t \<Longrightarrow> \<exists>pre. x # r = pre @ t"
  using ex_pre_app [of r t "[x]"] by simp

text \<open>The last four calls of the assembler.\<close>

lemma add_calls_tail:
  assumes "add_calls L dr std veg = Some calls"
  shows "\<exists>pre. calls = pre @
       [(sentence_case L (strip_suffixes (title (l_desserts (src_lunch (dr_source dr)) ! 0))) @ u '' (Ve)'',
         Inl VEGAN_DESSERTS_ALL, False, True),
        (CHEFS_SOUP @ u '' (Ve)'',
         Inr (scrub_vegan_csv_to_canonset L (allergens (s_starter (src_supper (dr_source dr))))), False, False),
        (add_suffix (strip_suffixes (title (s_vegan_special (src_supper (dr_source dr))))) (u ''(Ve)''),
         Inr (scrub_vegan_csv_to_canonset L (allergens (s_vegan_special (src_supper (dr_source dr))))),
         False, False),
        (sentence_case L (strip_suffixes (title (s_desserts (src_supper (dr_source dr)) ! 0))) @ u '' (Ve)'',
         Inl VEGAN_DESSERTS_ALL, False, True)]"
  using assms unfolding add_calls_def Let_def bind_eq_Some_conv option.inject
proof (elim exE conjE)
  fix std_d0 std_sd0 st0 st0_title d0 sd0
  assume i: "idx (l_desserts (src_lunch (dr_source dr))) 0 = Some d0"
    "idx (s_desserts (src_supper (dr_source dr))) 0 = Some sd0"
  have d: "d0 = l_desserts (src_lunch (dr_source dr)) ! 0"
    "sd0 = s_desserts (src_supper (dr_source dr)) ! 0"
    using idx_Some [OF i(1)] idx_Some [OF i(2)] by simp_all
  assume eq: "[(HEADING_STANDARD, Inl [], True, False)]
           @ map (\<lambda>st. (py_str L (st_title st), Inl (st_allergens st), False, False))
               (l_starters (src_lunch (dr_source dr)))
           @ [(title (l_veg_main (src_lunch (dr_source dr))),
               Inl (allergens (l_veg_main (src_lunch (dr_source dr)))), False, False),
              (title (l_meat_main (src_lunch (dr_source dr))),
               Inl (allergens (l_meat_main (src_lunch (dr_source dr)))), False, False),
              (title (l_optional_sides (src_lunch (dr_source dr))),
               Inl (allergens (l_optional_sides (src_lunch (dr_source dr)))), False, False),
              (py_str L (c_title std_d0), Inl (c_allergens std_d0), False, False),
              (CHEFS_SOUP @ u '' (V)'', Inl (allergens (s_starter (src_supper (dr_source dr)))), False, False),
              (py_str L (c_title (cs_specials (cx_supper std))),
               Inl (c_allergens (cs_specials (cx_supper std))), False, False),
              (py_str L (c_title std_sd0), Inl (c_allergens std_sd0), False, False),
              (HEADING_VEGAN, Inl [], True, False),
              (add_suffix st0_title (u ''(Ve)''),
               Inr (scrub_vegan_csv_to_canonset L (st_allergens st0)), False, False)]
           @ map (vegan_main_call L) (cl_mains (cx_lunch veg))
           @ [(title (l_optional_sides (src_lunch (dr_source dr))),
               Inr (scrub_vegan_csv_to_canonset L (allergens (l_optional_sides (src_lunch (dr_source dr))))),
               False, False),
              (sentence_case L (strip_suffixes (title d0)) @ u '' (Ve)'',
               Inl VEGAN_DESSERTS_ALL, False, True),
              (CHEFS_SOUP @ u '' (Ve)'',
               Inr (scrub_vegan_csv_to_canonset L (allergens (s_starter (src_supper (dr_source dr))))),
               False, False),
              (add_suffix (strip_suffixes (title (s_vegan_special (src_supper (dr_source dr))))) (u ''(Ve)''),
               Inr (scrub_vegan_csv_to_canonset L (allergens (s_vegan_special (src_supper (dr_source dr))))),
               False, False),
              (sentence_case L (strip_suffixes (title sd0)) @ u '' (Ve)'',
               Inl VEGAN_DESSERTS_ALL, False, True)] = calls"
  show ?thesis
    unfolding eq [symmetric] d
    apply (simp only: append_assoc append.simps)
    apply ((rule ex_pre_refl | rule ex_pre_app | rule ex_pre_cons)+)
    done
qed


text \<open>The three calls of \<^verbatim>\<open>render_day_to_zip\<close> in their order: the Standard builder, the
  Vegan builder on the day as the Standard builder leaves it, and the assembler on
  that day and the two contexts.\<close>

lemma pipeline_returns:
  assumes "two_each dr" "st_title (day_starters dr ! 0) = Plain t"
    and "\<not> is_chefs_choice_soup L (Plain t)"
  shows "\<exists>std dr1 veg rows.
     build_standard_context L dr = Some (std, dr1) \<and>
     build_vegan_context L dr1 = Some veg \<and>
     collect_allergen_items_for_table L dr1 std veg = Some rows \<and>
     day_starters dr1 ! 0 = day_starters dr ! 0 \<and>
     l_desserts (src_lunch (dr_source dr1)) = l_desserts (src_lunch (dr_source dr)) \<and>
     s_desserts (src_supper (dr_source dr1)) = s_desserts (src_supper (dr_source dr)) \<and>
     src_supper (dr_source dr1) = src_supper (dr_source dr)"
proof -
  obtain a b c d e f where l:
    "l_starters (src_lunch (dr_source dr)) = [a, b]"
    "l_desserts (src_lunch (dr_source dr)) = [c, d]"
    "s_desserts (src_supper (dr_source dr)) = [e, f]"
    using assms(1) by (rule two_each_lists)
  have ds: "day_starters dr = [a, b]" using l(1) by (simp add: day_starters_def)
  have a: "st_title a = Plain t" using assms(2) ds by simp
  define b' where
    "b' = (if is_chefs_choice_soup L (st_title b) then b\<lparr>st_title := yellow (st_title b)\<rparr> else b)"
  define dr1 where "dr1 = put_starters [a, b'] dr"
  obtain std x y where s: "build_standard_context L dr = Some (std, dr1)"
    and i: "idx (cl_desserts (cx_lunch std)) 0 = Some x" "idx (cs_desserts (cx_supper std)) 0 = Some y"
    using build_standard_context_day [OF ds l(2) l(3), of L] a assms(3)
    unfolding dr1_def b'_def by auto
  have l1: "l_starters (src_lunch (dr_source dr1)) = [a, b']"
    "l_desserts (src_lunch (dr_source dr1)) = [c, d]"
    "s_desserts (src_supper (dr_source dr1)) = [e, f]"
    unfolding dr1_def using l by simp_all
  have t1: "two_each dr1" unfolding two_each_def l1 by simp
  have s1: "day_starters dr1 = [a, b']" unfolding dr1_def by simp
  obtain veg where v: "build_vegan_context L dr1 = Some veg"
    using build_vegan_context_total [OF t1, of t L] s1 a by auto
  have "\<exists>calls. add_calls L dr1 std veg = Some calls"
    unfolding add_calls_def Let_def l1 i using a by (simp add: as_str_def)
  then obtain rows where r: "collect_allergen_items_for_table L dr1 std veg = Some rows"
    unfolding collect_allergen_items_for_table_def by auto
  have "src_supper (dr_source dr1) = src_supper (dr_source dr)" unfolding dr1_def by simp
  then show ?thesis using s v r s1 ds l l1 by auto
qed

lemma pipeline_raises:
  assumes "two_each dr" "is_chefs_choice_soup L (st_title (day_starters dr ! 0))"
  shows "\<exists>std dr1.
     build_standard_context L dr = Some (std, dr1) \<and>
     st_title (day_starters dr1 ! 0) = Yellow (st_title (day_starters dr ! 0)) \<and>
     build_vegan_context L dr1 = None \<and>
     (\<forall>std' veg. collect_allergen_items_for_table L dr1 std' veg = None)"
proof -
  obtain a b c d e f where l:
    "l_starters (src_lunch (dr_source dr)) = [a, b]"
    "l_desserts (src_lunch (dr_source dr)) = [c, d]"
    "s_desserts (src_supper (dr_source dr)) = [e, f]"
    using assms(1) by (rule two_each_lists)
  have ds: "day_starters dr = [a, b]" using l(1) by (simp add: day_starters_def)
  have a: "is_chefs_choice_soup L (st_title a)" using assms(2) ds by simp
  define b' where
    "b' = (if is_chefs_choice_soup L (st_title b) then b\<lparr>st_title := yellow (st_title b)\<rparr> else b)"
  define dr1 where "dr1 = put_starters [a\<lparr>st_title := yellow (st_title a)\<rparr>, b'] dr"
  obtain std where s: "build_standard_context L dr = Some (std, dr1)"
    using build_standard_context_day [OF ds l(2) l(3), of L] a
    unfolding dr1_def b'_def by auto
  have s1: "day_starters dr1 = a\<lparr>st_title := yellow (st_title a)\<rparr> # [b']" unfolding dr1_def by simp
  have y: "st_title (a\<lparr>st_title := yellow (st_title a)\<rparr>) = Yellow (st_title a)"
    by (simp add: yellow_def)
  have v: "build_vegan_context L dr1 = None" using s1 y by (rule build_vegan_context_rich)
  have "add_calls L dr1 std' veg = None" for std' veg using s1 y by (rule add_calls_rich)
  then have c: "\<forall>std' veg. collect_allergen_items_for_table L dr1 std' veg = None"
    unfolding collect_allergen_items_for_table_def by simp
  have "st_title (day_starters dr1 ! 0) = Yellow (st_title (day_starters dr ! 0))"
    using s1 y ds by simp
  then show ?thesis using s v c by blast
qed




section \<open>Title recovery of the vegan view\<close>

lemma startswith_append: "startswith p (p @ s)"
  by (induction p) auto

lemma contains_startswith: "startswith p s \<Longrightarrow> contains p s"
  by (cases s) (auto elim: startswith.elims)

lemma concat_singletons: "(\<forall>x\<in>set xs. f x = [g x]) \<Longrightarrow> concat (map f xs) = map g xs"
  by (induction xs) simp_all

lemma str_lower_ascii:
  assumes "list_all (\<lambda>c. c < 128) s"
  shows "str_lower L s = map lower_ascii s"
proof -
  have "\<forall>i\<in>set [0..<length s]. lower_at L s i = [lower_ascii (s ! i)]"
    using assms by (simp add: lower_at_def list_all_length)
  then have "str_lower L s = map (\<lambda>i. lower_ascii (s ! i)) [0..<length s]"
    unfolding str_lower_def by (rule concat_singletons)
  also have "\<dots> = map lower_ascii (map (\<lambda>i. s ! i) [0..<length s])" by simp
  also have "\<dots> = map lower_ascii s" by (simp only: map_nth)
  finally show ?thesis .
qed

lemma ve_here_length: "ve_here L s \<Longrightarrow> 4 \<le> length s"
  by (auto simp: ve_here_def split: list.splits)

lemma ve_here_contains:
  assumes "ve_here L s" "list_all (\<lambda>c. c < 128) s"
  shows "contains (u ''(ve'') (map lower_ascii s)"
proof -
  from assms(1) obtain b c rest where s: "s = 40 # b # c # 41 # rest"
    and e: "ci_eq L b 118" "ci_eq L c 101"
    by (auto simp: ve_here_def split: list.splits)
  have "b < 128" "c < 128" using assms(2) s by simp_all
  then have "lower_ascii b = 118" "lower_ascii c = 101" using e by (simp_all add: ci_eq_def)
  moreover have "lower_ascii 40 = 40" by (simp add: lower_ascii_def isupper_ascii_def)
  ultimately have "map lower_ascii s = u ''(ve'' @ map lower_ascii (41 # rest)"
    unfolding s by (simp add: u_Cons u_Nil)
  then have "startswith (u ''(ve'') (map lower_ascii s)" by (simp only: startswith_append)
  then show ?thesis by (rule contains_startswith)
qed

lemma find_ve_contains:
  "find_ve L cs = Some k \<Longrightarrow> list_all (\<lambda>c. c < 128) cs \<Longrightarrow>
     contains (u ''(ve'') (map lower_ascii cs)"
proof (induction cs arbitrary: k)
  case Nil
  then show ?case by simp
next
  case (Cons c cs)
  show ?case
  proof (cases "ve_here L (c # cs)")
    case True
    then show ?thesis using Cons.prems(2) by (rule ve_here_contains)
  next
    case False
    then obtain k' where "find_ve L cs = Some k'"
      using Cons.prems by (auto split: if_splits)
    moreover have "list_all (\<lambda>c. c < 128) cs" using Cons.prems(2) by simp
    ultimately have "contains (u ''(ve'') (map lower_ascii cs)" by (rule Cons.IH)
    then show ?thesis by simp
  qed
qed

lemma ve_search_contains:
  "ve_search L a = Some g \<Longrightarrow> list_all (\<lambda>c. c < 128) a \<Longrightarrow>
     contains (u ''(ve'') (map lower_ascii a)"
proof (induction a)
  case Nil
  then show ?case by simp
next
  case (Cons c cs)
  have as: "list_all (\<lambda>c. c < 128) cs" using Cons.prems(2) by simp
  have "contains (u ''(ve'') (map lower_ascii cs)"
  proof (cases "ci_az L c \<and> find_ve L cs \<noteq> None")
    case True
    then show ?thesis using find_ve_contains as by blast
  next
    case False
    then have "ve_search L cs = Some g" using Cons.prems by (auto split: option.splits)
    then show ?thesis using as by (rule Cons.IH)
  qed
  then show ?case by simp
qed

lemma find_ve_bound: "find_ve L cs = Some k \<Longrightarrow> k + 4 \<le> length cs \<and> ve_here L (drop k cs)"
proof (induction cs arbitrary: k)
  case Nil
  then show ?case by simp
next
  case (Cons c cs)
  show ?case
  proof (cases "ve_here L (c # cs)")
    case True
    then have k: "k = 0" using Cons.prems by simp
    have "4 \<le> length (c # cs)" using True by (rule ve_here_length)
    then show ?thesis using True k by simp
  next
    case False
    then obtain k' where k': "find_ve L cs = Some k'" "k = Suc k'"
      using Cons.prems by (auto split: if_splits)
    then show ?thesis using Cons.IH [OF k'(1)] by simp
  qed
qed

lemma ve_here_take: "ve_here L (take 4 s) = ve_here L s"
  by (auto simp: ve_here_def split: list.splits)

lemma ve_search_decomp:
  "ve_search L a = Some g \<Longrightarrow>
     \<exists>pre post. a = pre @ g @ post \<and>
       ve_sub L a = pre @ ve_sub L (dropWhile isspace post) \<and>
       ci_az L (hd g) \<and> 5 \<le> length g \<and> ve_here L (drop (length g - 4) g)"
proof (induction a)
  case Nil
  then show ?case by simp
next
  case (Cons c cs)
  show ?case
  proof (cases "ci_az L c \<and> find_ve L cs \<noteq> None")
    case True
    then obtain k where k: "find_ve L cs = Some k" by blast
    then have g: "g = c # take (k + 4) cs" using True Cons.prems by simp
    note b = find_ve_bound [OF k]
    have len: "length g = k + 5" using b g by simp
    have "length g - 4 = Suc k" using len by simp
    then have "drop (length g - 4) g = drop (Suc k) (c # take (k + 4) cs)" using g by simp
    then have "drop (length g - 4) g = drop k (take (k + 4) cs)" by simp
    also have "\<dots> = take 4 (drop k cs)" by (simp add: drop_take)
    finally have "ve_here L (drop (length g - 4) g)" using b by (simp add: ve_here_take)
    moreover have "c # cs = [] @ g @ drop (k + 4) cs" unfolding g by simp
    moreover have "ve_sub L (c # cs) = [] @ ve_sub L (dropWhile isspace (drop (k + 4) cs))"
      using True k by simp
    moreover have "ci_az L (hd g)" "5 \<le> length g" using True g len by simp_all
    ultimately show ?thesis by blast
  next
    case False
    then have s: "ve_search L cs = Some g" using Cons.prems by (auto split: option.splits)
    from Cons.IH [OF s] obtain pre post where p:
      "cs = pre @ g @ post"
      "ve_sub L cs = pre @ ve_sub L (dropWhile isspace post)"
      "ci_az L (hd g)" "5 \<le> length g" "ve_here L (drop (length g - 4) g)"
      by blast
    have "c # cs = (c # pre) @ g @ post" using p(1) by simp
    moreover have "ve_sub L (c # cs) = (c # pre) @ ve_sub L (dropWhile isspace post)"
      using False p(2) by (auto split: option.splits)
    ultimately show ?thesis using p(3-5) by blast
  qed
qed

lemma ve_search_None_sub: "ve_search L a = None \<Longrightarrow> ve_sub L a = a"
  by (induction a) (auto split: option.splits if_splits)

lemma recover_guarded:
  assumes "contains (u ''(ve'') (str_lower L a) \<or> ve_plus_search L a"
  shows "recover_ve_title L t a =
     (case ve_search L a of
        Some g \<Rightarrow> (if length (strip_suffixes t) < 2 then str_strip g else t, str_strip (ve_sub L a))
      | None \<Rightarrow> (t, str_strip a))"
  using assms ve_search_None_sub [of L a]
  by (simp add: recover_ve_title_def split: option.splits)

lemma recover_unguarded:
  assumes "\<not> (contains (u ''(ve'') (str_lower L a) \<or> ve_plus_search L a)"
  shows "recover_ve_title L t a = (t, a)"
  using assms by (simp add: recover_ve_title_def)

lemma vegan_main_item:
  assumes "two_each dr" "st_title (day_starters dr ! 0) = Plain s0"
  shows "\<exists>veg. build_vegan_context L dr = Some veg \<and>
     cl_mains (cx_lunch veg) =
       [plain_dish JACKET_VE [] [],
        \<lparr>c_title = Plain (add_suffix (strip_suffixes
             (fst (recover_ve_title L (title (l_vegan_main (src_lunch (dr_source dr))))
                                    (allergens (l_vegan_main (src_lunch (dr_source dr)))))))
             (u ''(Ve)'')),
         c_description = borrow_description (description (l_vegan_main (src_lunch (dr_source dr))))
                           (description (l_veg_main (src_lunch (dr_source dr)))),
         c_allergens = remove_tokens_from_csv L
             (snd (recover_ve_title L (title (l_vegan_main (src_lunch (dr_source dr))))
                                    (allergens (l_vegan_main (src_lunch (dr_source dr))))))\<rparr>]"
proof -
  obtain a b c d e f where l:
    "l_starters (src_lunch (dr_source dr)) = [a, b]"
    "l_desserts (src_lunch (dr_source dr)) = [c, d]"
    "s_desserts (src_supper (dr_source dr)) = [e, f]"
    using assms(1) by (rule two_each_lists)
  have "st_title a = Plain s0" using assms(2) l(1) by (simp add: day_starters_def)
  then show ?thesis
    unfolding build_vegan_context_def Let_def l
    by (simp add: as_str_def split: prod.splits)
qed

text \<open>
  Claim C5, amended.  The Vegan builder returns on a day with two starters and two
  desserts per meal whose first lunch starter has a string as its title, and its
  second lunch main is made from the vegan-main row as follows.  The guard looks in the
  allergens of the row for \<^verbatim>\<open>(ve\<close> in any case, or for a letter that is followed on its
  line by at least one character and \<^verbatim>\<open>(ve)\<close>.  The phrase is the text from the
  left-most letter that has a \<^verbatim>\<open>(ve)\<close> behind it on its line to the nearest such \<^verbatim>\<open>(ve)\<close>.
  When the guard holds and there is a phrase, the phrase is removed from the allergens,
  with the white space behind it and every further phrase of that kind, whatever the
  title is; the trimmed phrase becomes the title only when the title of the row has
  fewer than 2 characters after suffix stripping, and the title of the row is kept
  otherwise.  When the guard holds and there is no phrase (as for a \<^verbatim>\<open>(ve)\<close> marker with
  no letter before it on its line), the title is kept and the allergens are only
  trimmed: the marker stays in them.  When the guard does not hold, the title and the
  allergens are those of the row.  In every case the title is tagged \<^verbatim>\<open>(Ve)\<close> and the
  Milk and Egg tokens are taken out of the allergens.  In allergens of ASCII
  characters a phrase makes the guard hold.  For the row with the empty title and the
  allergens \<^verbatim>\<open>Curry (Ve), Mustard\<close> the title is \<^verbatim>\<open>Curry (Ve)\<close> and the allergens are
  \<^verbatim>\<open>Mustard\<close>, which resolve to the column Mustards.
\<close>

theorem vegan_main_title_recovery:
  assumes "two_each dr" and "st_title (day_starters dr ! 0) = Plain s0"
  shows
    "let t = title (l_vegan_main (src_lunch (dr_source dr)));
         a = allergens (l_vegan_main (src_lunch (dr_source dr)));
         guard = (contains (u ''(ve'') (str_lower L a) \<or> ve_plus_search L a)
     in \<exists>veg m.
          build_vegan_context L dr = Some veg \<and>
          cl_mains (cx_lunch veg) = [plain_dish JACKET_VE [] [], m] \<and>
          (\<forall>g. guard \<and> ve_search L a = Some g \<longrightarrow>
             (\<exists>pre post.
                a = pre @ g @ post \<and>
                ci_az L (hd g) \<and> 5 \<le> length g \<and> ve_here L (drop (length g - 4) g) \<and>
                c_title m =
                  Plain (add_suffix
                    (strip_suffixes (if length (strip_suffixes t) < 2 then str_strip g else t))
                    (u ''(Ve)'')) \<and>
                c_allergens m =
                  remove_tokens_from_csv L (str_strip (pre @ ve_sub L (dropWhile isspace post))))) \<and>
          (guard \<and> ve_search L a = None \<longrightarrow>
             c_title m = Plain (add_suffix (strip_suffixes t) (u ''(Ve)'')) \<and>
             c_allergens m = remove_tokens_from_csv L (str_strip a)) \<and>
          (\<not> guard \<longrightarrow>
             c_title m = Plain (add_suffix (strip_suffixes t) (u ''(Ve)'')) \<and>
             c_allergens m = remove_tokens_from_csv L a) \<and>
          (list_all (\<lambda>c. c < 128) a \<and> ve_search L a \<noteq> None \<longrightarrow> guard) \<and>
          (t = [] \<and> a = u ''Curry (Ve), Mustard'' \<longrightarrow>
             c_title m = Plain (u ''Curry (Ve)'') \<and> c_allergens m = u ''Mustard'' \<and>
             scrub_vegan_csv_to_canonset L (c_allergens m) = {Mustards})"
proof -
  let ?t = "title (l_vegan_main (src_lunch (dr_source dr)))"
  let ?a = "allergens (l_vegan_main (src_lunch (dr_source dr)))"
  let ?guard = "contains (u ''(ve'') (str_lower L ?a) \<or> ve_plus_search L ?a"
  let ?m = "\<lparr>c_title = Plain (add_suffix (strip_suffixes (fst (recover_ve_title L ?t ?a))) (u ''(Ve)'')),
         c_description = borrow_description (description (l_vegan_main (src_lunch (dr_source dr))))
                           (description (l_veg_main (src_lunch (dr_source dr)))),
         c_allergens = remove_tokens_from_csv L (snd (recover_ve_title L ?t ?a))\<rparr>"
  obtain veg where v: "build_vegan_context L dr = Some veg"
    "cl_mains (cx_lunch veg) = [plain_dish JACKET_VE [] [], ?m]"
    using vegan_main_item [OF assms, of L] by blast
  have found: "\<exists>pre post. ?a = pre @ g @ post \<and>
             ci_az L (hd g) \<and> 5 \<le> length g \<and> ve_here L (drop (length g - 4) g) \<and>
             c_title ?m =
               Plain (add_suffix
                 (strip_suffixes (if length (strip_suffixes ?t) < 2 then str_strip g else ?t))
                 (u ''(Ve)'')) \<and>
             c_allergens ?m =
               remove_tokens_from_csv L (str_strip (pre @ ve_sub L (dropWhile isspace post)))"
    if h: "?guard \<and> ve_search L ?a = Some g" for g
  proof -
    have s: "ve_search L ?a = Some g" using h by (rule conjunct2)
    obtain pre post where d: "?a = pre @ g @ post"
      "ve_sub L ?a = pre @ ve_sub L (dropWhile isspace post)"
      "ci_az L (hd g)" "5 \<le> length g" "ve_here L (drop (length g - 4) g)"
      using ve_search_decomp [OF s] by blast
    have r: "recover_ve_title L ?t ?a =
        (if length (strip_suffixes ?t) < 2 then str_strip g else ?t, str_strip (ve_sub L ?a))"
      using recover_guarded [OF conjunct1 [OF h], of ?t] s by simp
    have "c_title ?m =
        Plain (add_suffix
          (strip_suffixes (if length (strip_suffixes ?t) < 2 then str_strip g else ?t))
          (u ''(Ve)''))"
      unfolding r by simp
    moreover have "c_allergens ?m =
        remove_tokens_from_csv L (str_strip (pre @ ve_sub L (dropWhile isspace post)))"
      unfolding r d(2) by simp
    ultimately show ?thesis using d(1,3,4,5) by blast
  qed
  have missing: "c_title ?m = Plain (add_suffix (strip_suffixes ?t) (u ''(Ve)'')) \<and>
        c_allergens ?m = remove_tokens_from_csv L (str_strip ?a)"
    if h: "?guard \<and> ve_search L ?a = None"
    using recover_guarded [OF conjunct1 [OF h], of ?t] conjunct2 [OF h] by simp
  have unguarded: "c_title ?m = Plain (add_suffix (strip_suffixes ?t) (u ''(Ve)'')) \<and>
        c_allergens ?m = remove_tokens_from_csv L ?a"
    if h: "\<not> ?guard"
    using recover_unguarded [OF h, of ?t] by simp
  have ascii: "?guard" if h: "list_all (\<lambda>c. c < 128) ?a \<and> ve_search L ?a \<noteq> None"
  proof -
    obtain g where "ve_search L ?a = Some g" using h by auto
    then have "contains (u ''(ve'') (map lower_ascii ?a)"
      using h ve_search_contains by blast
    then show ?thesis using h str_lower_ascii [of ?a L] by simp
  qed
  have curry: "recover_ve_title L [] (u ''Curry (Ve), Mustard'') = (u ''Curry (Ve)'', u '', Mustard'')"
    by code_simp
  have c1: "add_suffix (strip_suffixes (u ''Curry (Ve)'')) (u ''(Ve)'') = u ''Curry (Ve)''" by code_simp
  have c2: "remove_tokens_from_csv L (u '', Mustard'') = u ''Mustard''" by code_simp
  have c3: "scrub_vegan_csv_to_canonset L (u ''Mustard'') = {Mustards}" by code_simp
  have example: "c_title ?m = Plain (u ''Curry (Ve)'') \<and> c_allergens ?m = u ''Mustard'' \<and>
        scrub_vegan_csv_to_canonset L (c_allergens ?m) = {Mustards}"
    if "?t = [] \<and> ?a = u ''Curry (Ve), Mustard''"
    using that by (simp add: curry c1 c2 c3)
  show ?thesis
    unfolding Let_def
    apply (rule exI [of _ veg], rule exI [of _ ?m])
    apply (intro conjI allI impI v)
    apply (erule found)
    apply (erule missing [THEN conjunct1])
    apply (erule missing [THEN conjunct2])
    apply (erule unguarded [THEN conjunct1])
    apply (erule unguarded [THEN conjunct2])
    apply (erule ascii)
    apply (erule example [THEN conjunct1])
    apply (erule example [THEN conjunct2, THEN conjunct1])
    apply (erule example [THEN conjunct2, THEN conjunct2])
    done
qed

theorem vegan_main_title_recovery_witness:
  "\<forall>L. (contains (u ''(ve'') (str_lower L (allergens (l_vegan_main (src_lunch (dr_source sample_day))))) \<or> ve_plus_search L (allergens (l_vegan_main (src_lunch (dr_source sample_day))))) \<and> ve_search L (allergens (l_vegan_main (src_lunch (dr_source sample_day)))) = Some (u ''Curry (Ve)'') \<and> length (strip_suffixes (title (l_vegan_main (src_lunch (dr_source sample_day))))) < 2 \<and>
     (\<exists>veg m. build_vegan_context L sample_day = Some veg \<and>
        cl_mains (cx_lunch veg) = [plain_dish JACKET_VE [] [], m] \<and>
        c_title m = Plain (u ''Curry (Ve)'') \<and> c_allergens m = u ''Mustard'') \<and>
     (contains (u ''(ve'') (str_lower L (allergens (l_vegan_main (src_lunch (dr_source titled_day))))) \<or> ve_plus_search L (allergens (l_vegan_main (src_lunch (dr_source titled_day))))) \<and> ve_search L (allergens (l_vegan_main (src_lunch (dr_source titled_day)))) = Some (u ''Curry (Ve)'') \<and> \<not> length (strip_suffixes (title (l_vegan_main (src_lunch (dr_source titled_day))))) < 2 \<and>
     (\<exists>veg m. build_vegan_context L titled_day = Some veg \<and>
        cl_mains (cx_lunch veg) = [plain_dish JACKET_VE [] [], m] \<and>
        c_title m = Plain (u ''Lentil bake (Ve)'') \<and> c_allergens m = u ''Mustard'') \<and>
     (contains (u ''(ve'') (str_lower L (allergens (l_vegan_main (src_lunch (dr_source marker_only_day))))) \<or> ve_plus_search L (allergens (l_vegan_main (src_lunch (dr_source marker_only_day))))) \<and> ve_search L (allergens (l_vegan_main (src_lunch (dr_source marker_only_day)))) = None \<and>
     (\<exists>veg m. build_vegan_context L marker_only_day = Some veg \<and>
        cl_mains (cx_lunch veg) = [plain_dish JACKET_VE [] [], m] \<and>
        c_title m = Plain (u ''(Ve)'') \<and> c_allergens m = u ''(Ve), Mustard'') \<and>
     \<not> (contains (u ''(ve'') (str_lower L (allergens (l_vegan_main (src_lunch (dr_source dal_day))))) \<or> ve_plus_search L (allergens (l_vegan_main (src_lunch (dr_source dal_day))))) \<and>
     (\<exists>veg m. build_vegan_context L dal_day = Some veg \<and>
        cl_mains (cx_lunch veg) = [plain_dish JACKET_VE [] [], m] \<and>
        c_title m = Plain (u ''Dal (Ve)'') \<and> c_allergens m = u ''Mustard'')"
proof
  fix L
  have w1: "two_each sample_day" by code_simp
  have p1: "st_title (day_starters sample_day ! 0) = Plain (u ''Tomato soup'')" by code_simp
  have c1: "(contains (u ''(ve'') (str_lower L (allergens (l_vegan_main (src_lunch (dr_source sample_day))))) \<or> ve_plus_search L (allergens (l_vegan_main (src_lunch (dr_source sample_day))))) \<and> ve_search L (allergens (l_vegan_main (src_lunch (dr_source sample_day)))) = Some (u ''Curry (Ve)'') \<and> length (strip_suffixes (title (l_vegan_main (src_lunch (dr_source sample_day))))) < 2" by code_simp
  have v1: "map_option (\<lambda>veg. map (\<lambda>x. (c_title x, c_allergens x)) (cl_mains (cx_lunch veg)))
             (build_vegan_context L sample_day) =
           Some [(Plain JACKET_VE, []), (Plain (u ''Curry (Ve)''), u ''Mustard'')]"
    by code_simp
  from vegan_main_title_recovery [OF w1 p1, of L, unfolded Let_def]
  obtain veg m where f1: "build_vegan_context L sample_day = Some veg \<and>
          cl_mains (cx_lunch veg) = [plain_dish JACKET_VE [] [], m] \<and>
          (\<forall>g. (contains (u ''(ve'') (str_lower L (allergens (l_vegan_main (src_lunch (dr_source sample_day))))) \<or> ve_plus_search L (allergens (l_vegan_main (src_lunch (dr_source sample_day))))) \<and> ve_search L (allergens (l_vegan_main (src_lunch (dr_source sample_day)))) = Some g \<longrightarrow>
             (\<exists>pre post.
                allergens (l_vegan_main (src_lunch (dr_source sample_day))) = pre @ g @ post \<and>
                ci_az L (hd g) \<and> 5 \<le> length g \<and> ve_here L (drop (length g - 4) g) \<and>
                c_title m =
                  Plain (add_suffix
                    (strip_suffixes (if length (strip_suffixes (title (l_vegan_main (src_lunch (dr_source sample_day))))) < 2 then str_strip g else title (l_vegan_main (src_lunch (dr_source sample_day)))))
                    (u ''(Ve)'')) \<and>
                c_allergens m =
                  remove_tokens_from_csv L (str_strip (pre @ ve_sub L (dropWhile isspace post))))) \<and>
          ((contains (u ''(ve'') (str_lower L (allergens (l_vegan_main (src_lunch (dr_source sample_day))))) \<or> ve_plus_search L (allergens (l_vegan_main (src_lunch (dr_source sample_day))))) \<and> ve_search L (allergens (l_vegan_main (src_lunch (dr_source sample_day)))) = None \<longrightarrow>
             c_title m = Plain (add_suffix (strip_suffixes (title (l_vegan_main (src_lunch (dr_source sample_day))))) (u ''(Ve)'')) \<and>
             c_allergens m = remove_tokens_from_csv L (str_strip (allergens (l_vegan_main (src_lunch (dr_source sample_day)))))) \<and>
          (\<not> (contains (u ''(ve'') (str_lower L (allergens (l_vegan_main (src_lunch (dr_source sample_day))))) \<or> ve_plus_search L (allergens (l_vegan_main (src_lunch (dr_source sample_day))))) \<longrightarrow>
             c_title m = Plain (add_suffix (strip_suffixes (title (l_vegan_main (src_lunch (dr_source sample_day))))) (u ''(Ve)'')) \<and>
             c_allergens m = remove_tokens_from_csv L (allergens (l_vegan_main (src_lunch (dr_source sample_day))))) \<and>
          (list_all (\<lambda>c. c < 128) (allergens (l_vegan_main (src_lunch (dr_source sample_day)))) \<and> ve_search L (allergens (l_vegan_main (src_lunch (dr_source sample_day)))) \<noteq> None \<longrightarrow> (contains (u ''(ve'') (str_lower L (allergens (l_vegan_main (src_lunch (dr_source sample_day))))) \<or> ve_plus_search L (allergens (l_vegan_main (src_lunch (dr_source sample_day)))))) \<and>
          (title (l_vegan_main (src_lunch (dr_source sample_day))) = [] \<and> allergens (l_vegan_main (src_lunch (dr_source sample_day))) = u ''Curry (Ve), Mustard'' \<longrightarrow>
             c_title m = Plain (u ''Curry (Ve)'') \<and> c_allergens m = u ''Mustard'' \<and>
             scrub_vegan_csv_to_canonset L (c_allergens m) = {Mustards})"
    by (elim exE) (rule that)
  have b1: "build_vegan_context L sample_day = Some veg"
    and m1: "cl_mains (cx_lunch veg) = [plain_dish JACKET_VE [] [], m]"
    using f1 by (rule conjunct1, rule conjunct2 [THEN conjunct1])
  have r1: "c_title m = Plain (u ''Curry (Ve)'') \<and> c_allergens m = u ''Mustard''"
    using v1 unfolding b1 by (simp add: m1)
  have e1: "(\<exists>veg m. build_vegan_context L sample_day = Some veg \<and>
        cl_mains (cx_lunch veg) = [plain_dish JACKET_VE [] [], m] \<and>
        c_title m = Plain (u ''Curry (Ve)'') \<and> c_allergens m = u ''Mustard'')"
    apply (rule exI [of _ veg], rule exI [of _ m])
    apply (intro conjI b1 m1 conjunct1 [OF r1] conjunct2 [OF r1])
    done
  have w2: "two_each titled_day" by code_simp
  have p2: "st_title (day_starters titled_day ! 0) = Plain (u ''Tomato soup'')" by code_simp
  have c2: "(contains (u ''(ve'') (str_lower L (allergens (l_vegan_main (src_lunch (dr_source titled_day))))) \<or> ve_plus_search L (allergens (l_vegan_main (src_lunch (dr_source titled_day))))) \<and> ve_search L (allergens (l_vegan_main (src_lunch (dr_source titled_day)))) = Some (u ''Curry (Ve)'') \<and> \<not> length (strip_suffixes (title (l_vegan_main (src_lunch (dr_source titled_day))))) < 2" by code_simp
  have v2: "map_option (\<lambda>veg. map (\<lambda>x. (c_title x, c_allergens x)) (cl_mains (cx_lunch veg)))
             (build_vegan_context L titled_day) =
           Some [(Plain JACKET_VE, []), (Plain (u ''Lentil bake (Ve)''), u ''Mustard'')]"
    by code_simp
  from vegan_main_title_recovery [OF w2 p2, of L, unfolded Let_def]
  obtain veg m where f2: "build_vegan_context L titled_day = Some veg \<and>
          cl_mains (cx_lunch veg) = [plain_dish JACKET_VE [] [], m] \<and>
          (\<forall>g. (contains (u ''(ve'') (str_lower L (allergens (l_vegan_main (src_lunch (dr_source titled_day))))) \<or> ve_plus_search L (allergens (l_vegan_main (src_lunch (dr_source titled_day))))) \<and> ve_search L (allergens (l_vegan_main (src_lunch (dr_source titled_day)))) = Some g \<longrightarrow>
             (\<exists>pre post.
                allergens (l_vegan_main (src_lunch (dr_source titled_day))) = pre @ g @ post \<and>
                ci_az L (hd g) \<and> 5 \<le> length g \<and> ve_here L (drop (length g - 4) g) \<and>
                c_title m =
                  Plain (add_suffix
                    (strip_suffixes (if length (strip_suffixes (title (l_vegan_main (src_lunch (dr_source titled_day))))) < 2 then str_strip g else title (l_vegan_main (src_lunch (dr_source titled_day)))))
                    (u ''(Ve)'')) \<and>
                c_allergens m =
                  remove_tokens_from_csv L (str_strip (pre @ ve_sub L (dropWhile isspace post))))) \<and>
          ((contains (u ''(ve'') (str_lower L (allergens (l_vegan_main (src_lunch (dr_source titled_day))))) \<or> ve_plus_search L (allergens (l_vegan_main (src_lunch (dr_source titled_day))))) \<and> ve_search L (allergens (l_vegan_main (src_lunch (dr_source titled_day)))) = None \<longrightarrow>
             c_title m = Plain (add_suffix (strip_suffixes (title (l_vegan_main (src_lunch (dr_source titled_day))))) (u ''(Ve)'')) \<and>
             c_allergens m = remove_tokens_from_csv L (str_strip (allergens (l_vegan_main (src_lunch (dr_source titled_day)))))) \<and>
          (\<not> (contains (u ''(ve'') (str_lower L (allergens (l_vegan_main (src_lunch (dr_source titled_day))))) \<or> ve_plus_search L (allergens (l_vegan_main (src_lunch (dr_source titled_day))))) \<longrightarrow>
             c_title m = Plain (add_suffix (strip_suffixes (title (l_vegan_main (src_lunch (dr_source titled_day))))) (u ''(Ve)'')) \<and>
             c_allergens m = remove_tokens_from_csv L (allergens (l_vegan_main (src_lunch (dr_source titled_day))))) \<and>
          (list_all (\<lambda>c. c < 128) (allergens (l_vegan_main (src_lunch (dr_source titled_day)))) \<and> ve_search L (allergens (l_vegan_main (src_lunch (dr_source titled_day)))) \<noteq> None \<longrightarrow> (contains (u ''(ve'') (str_lower L (allergens (l_vegan_main (src_lunch (dr_source titled_day))))) \<or> ve_plus_search L (allergens (l_vegan_main (src_lunch (dr_source titled_day)))))) \<and>
          (title (l_vegan_main (src_lunch (dr_source titled_day))) = [] \<and> allergens (l_vegan_main (src_lunch (dr_source titled_day))) = u ''Curry (Ve), Mustard'' \<longrightarrow>
             c_title m = Plain (u ''Curry (Ve)'') \<and> c_allergens m = u ''Mustard'' \<and>
             scrub_vegan_csv_to_canonset L (c_allergens m) = {Mustards})"
    by (elim exE) (rule that)
  have b2: "build_vegan_context L titled_day = Some veg"
    and m2: "cl_mains (cx_lunch veg) = [plain_dish JACKET_VE [] [], m]"
    using f2 by (rule conjunct1, rule conjunct2 [THEN conjunct1])
  have r2: "c_title m = Plain (u ''Lentil bake (Ve)'') \<and> c_allergens m = u ''Mustard''"
    using v2 unfolding b2 by (simp add: m2)
  have e2: "(\<exists>veg m. build_vegan_context L titled_day = Some veg \<and>
        cl_mains (cx_lunch veg) = [plain_dish JACKET_VE [] [], m] \<and>
        c_title m = Plain (u ''Lentil bake (Ve)'') \<and> c_allergens m = u ''Mustard'')"
    apply (rule exI [of _ veg], rule exI [of _ m])
    apply (intro conjI b2 m2 conjunct1 [OF r2] conjunct2 [OF r2])
    done
  have w3: "two_each marker_only_day" by code_simp
  have p3: "st_title (day_starters marker_only_day ! 0) = Plain (u ''Tomato soup'')" by code_simp
  have c3: "(contains (u ''(ve'') (str_lower L (allergens (l_vegan_main (src_lunch (dr_source marker_only_day))))) \<or> ve_plus_search L (allergens (l_vegan_main (src_lunch (dr_source marker_only_day))))) \<and> ve_search L (allergens (l_vegan_main (src_lunch (dr_source marker_only_day)))) = None" by code_simp
  have v3: "map_option (\<lambda>veg. map (\<lambda>x. (c_title x, c_allergens x)) (cl_mains (cx_lunch veg)))
             (build_vegan_context L marker_only_day) =
           Some [(Plain JACKET_VE, []), (Plain (u ''(Ve)''), u ''(Ve), Mustard'')]"
    by code_simp
  from vegan_main_title_recovery [OF w3 p3, of L, unfolded Let_def]
  obtain veg m where f3: "build_vegan_context L marker_only_day = Some veg \<and>
          cl_mains (cx_lunch veg) = [plain_dish JACKET_VE [] [], m] \<and>
          (\<forall>g. (contains (u ''(ve'') (str_lower L (allergens (l_vegan_main (src_lunch (dr_source marker_only_day))))) \<or> ve_plus_search L (allergens (l_vegan_main (src_lunch (dr_source marker_only_day))))) \<and> ve_search L (allergens (l_vegan_main (src_lunch (dr_source marker_only_day)))) = Some g \<longrightarrow>
             (\<exists>pre post.
                allergens (l_vegan_main (src_lunch (dr_source marker_only_day))) = pre @ g @ post \<and>
                ci_az L (hd g) \<and> 5 \<le> length g \<and> ve_here L (drop (length g - 4) g) \<and>
                c_title m =
                  Plain (add_suffix
                    (strip_suffixes (if length (strip_suffixes (title (l_vegan_main (src_lunch (dr_source marker_only_day))))) < 2 then str_strip g else title (l_vegan_main (src_lunch (dr_source marker_only_day)))))
                    (u ''(Ve)'')) \<and>
                c_allergens m =
                  remove_tokens_from_csv L (str_strip (pre @ ve_sub L (dropWhile isspace post))))) \<and>
          ((contains (u ''(ve'') (str_lower L (allergens (l_vegan_main (src_lunch (dr_source marker_only_day))))) \<or> ve_plus_search L (allergens (l_vegan_main (src_lunch (dr_source marker_only_day))))) \<and> ve_search L (allergens (l_vegan_main (src_lunch (dr_source marker_only_day)))) = None \<longrightarrow>
             c_title m = Plain (add_suffix (strip_suffixes (title (l_vegan_main (src_lunch (dr_source marker_only_day))))) (u ''(Ve)'')) \<and>
             c_allergens m = remove_tokens_from_csv L (str_strip (allergens (l_vegan_main (src_lunch (dr_source marker_only_day)))))) \<and>
          (\<not> (contains (u ''(ve'') (str_lower L (allergens (l_vegan_main (src_lunch (dr_source marker_only_day))))) \<or> ve_plus_search L (allergens (l_vegan_main (src_lunch (dr_source marker_only_day))))) \<longrightarrow>
             c_title m = Plain (add_suffix (strip_suffixes (title (l_vegan_main (src_lunch (dr_source marker_only_day))))) (u ''(Ve)'')) \<and>
             c_allergens m = remove_tokens_from_csv L (allergens (l_vegan_main (src_lunch (dr_source marker_only_day))))) \<and>
          (list_all (\<lambda>c. c < 128) (allergens (l_vegan_main (src_lunch (dr_source marker_only_day)))) \<and> ve_search L (allergens (l_vegan_main (src_lunch (dr_source marker_only_day)))) \<noteq> None \<longrightarrow> (contains (u ''(ve'') (str_lower L (allergens (l_vegan_main (src_lunch (dr_source marker_only_day))))) \<or> ve_plus_search L (allergens (l_vegan_main (src_lunch (dr_source marker_only_day)))))) \<and>
          (title (l_vegan_main (src_lunch (dr_source marker_only_day))) = [] \<and> allergens (l_vegan_main (src_lunch (dr_source marker_only_day))) = u ''Curry (Ve), Mustard'' \<longrightarrow>
             c_title m = Plain (u ''Curry (Ve)'') \<and> c_allergens m = u ''Mustard'' \<and>
             scrub_vegan_csv_to_canonset L (c_allergens m) = {Mustards})"
    by (elim exE) (rule that)
  have b3: "build_vegan_context L marker_only_day = Some veg"
    and m3: "cl_mains (cx_lunch veg) = [plain_dish JACKET_VE [] [], m]"
    using f3 by (rule conjunct1, rule conjunct2 [THEN conjunct1])
  have r3: "c_title m = Plain (u ''(Ve)'') \<and> c_allergens m = u ''(Ve), Mustard''"
    using v3 unfolding b3 by (simp add: m3)
  have e3: "(\<exists>veg m. build_vegan_context L marker_only_day = Some veg \<and>
        cl_mains (cx_lunch veg) = [plain_dish JACKET_VE [] [], m] \<and>
        c_title m = Plain (u ''(Ve)'') \<and> c_allergens m = u ''(Ve), Mustard'')"
    apply (rule exI [of _ veg], rule exI [of _ m])
    apply (intro conjI b3 m3 conjunct1 [OF r3] conjunct2 [OF r3])
    done
  have w4: "two_each dal_day" by code_simp
  have p4: "st_title (day_starters dal_day ! 0) = Plain (u ''Tomato soup'')" by code_simp
  have c4: "\<not> (contains (u ''(ve'') (str_lower L (allergens (l_vegan_main (src_lunch (dr_source dal_day))))) \<or> ve_plus_search L (allergens (l_vegan_main (src_lunch (dr_source dal_day)))))" by code_simp
  have v4: "map_option (\<lambda>veg. map (\<lambda>x. (c_title x, c_allergens x)) (cl_mains (cx_lunch veg)))
             (build_vegan_context L dal_day) =
           Some [(Plain JACKET_VE, []), (Plain (u ''Dal (Ve)''), u ''Mustard'')]"
    by code_simp
  from vegan_main_title_recovery [OF w4 p4, of L, unfolded Let_def]
  obtain veg m where f4: "build_vegan_context L dal_day = Some veg \<and>
          cl_mains (cx_lunch veg) = [plain_dish JACKET_VE [] [], m] \<and>
          (\<forall>g. (contains (u ''(ve'') (str_lower L (allergens (l_vegan_main (src_lunch (dr_source dal_day))))) \<or> ve_plus_search L (allergens (l_vegan_main (src_lunch (dr_source dal_day))))) \<and> ve_search L (allergens (l_vegan_main (src_lunch (dr_source dal_day)))) = Some g \<longrightarrow>
             (\<exists>pre post.
                allergens (l_vegan_main (src_lunch (dr_source dal_day))) = pre @ g @ post \<and>
                ci_az L (hd g) \<and> 5 \<le> length g \<and> ve_here L (drop (length g - 4) g) \<and>
                c_title m =
                  Plain (add_suffix
                    (strip_suffixes (if length (strip_suffixes (title (l_vegan_main (src_lunch (dr_source dal_day))))) < 2 then str_strip g else title (l_vegan_main (src_lunch (dr_source dal_day)))))
                    (u ''(Ve)'')) \<and>
                c_allergens m =
                  remove_tokens_from_csv L (str_strip (pre @ ve_sub L (dropWhile isspace post))))) \<and>
          ((contains (u ''(ve'') (str_lower L (allergens (l_vegan_main (src_lunch (dr_source dal_day))))) \<or> ve_plus_search L (allergens (l_vegan_main (src_lunch (dr_source dal_day))))) \<and> ve_search L (allergens (l_vegan_main (src_lunch (dr_source dal_day)))) = None \<longrightarrow>
             c_title m = Plain (add_suffix (strip_suffixes (title (l_vegan_main (src_lunch (dr_source dal_day))))) (u ''(Ve)'')) \<and>
             c_allergens m = remove_tokens_from_csv L (str_strip (allergens (l_vegan_main (src_lunch (dr_source dal_day)))))) \<and>
          (\<not> (contains (u ''(ve'') (str_lower L (allergens (l_vegan_main (src_lunch (dr_source dal_day))))) \<or> ve_plus_search L (allergens (l_vegan_main (src_lunch (dr_source dal_day))))) \<longrightarrow>
             c_title m = Plain (add_suffix (strip_suffixes (title (l_vegan_main (src_lunch (dr_source dal_day))))) (u ''(Ve)'')) \<and>
             c_allergens m = remove_tokens_from_csv L (allergens (l_vegan_main (src_lunch (dr_source dal_day))))) \<and>
          (list_all (\<lambda>c. c < 128) (allergens (l_vegan_main (src_lunch (dr_source dal_day)))) \<and> ve_search L (allergens (l_vegan_main (src_lunch (dr_source dal_day)))) \<noteq> None \<longrightarrow> (contains (u ''(ve'') (str_lower L (allergens (l_vegan_main (src_lunch (dr_source dal_day))))) \<or> ve_plus_search L (allergens (l_vegan_main (src_lunch (dr_source dal_day)))))) \<and>
          (title (l_vegan_main (src_lunch (dr_source dal_day))) = [] \<and> allergens (l_vegan_main (src_lunch (dr_source dal_day))) = u ''Curry (Ve), Mustard'' \<longrightarrow>
             c_title m = Plain (u ''Curry (Ve)'') \<and> c_allergens m = u ''Mustard'' \<and>
             scrub_vegan_csv_to_canonset L (c_allergens m) = {Mustards})"
    by (elim exE) (rule that)
  have b4: "build_vegan_context L dal_day = Some veg"
    and m4: "cl_mains (cx_lunch veg) = [plain_dish JACKET_VE [] [], m]"
    using f4 by (rule conjunct1, rule conjunct2 [THEN conjunct1])
  have r4: "c_title m = Plain (u ''Dal (Ve)'') \<and> c_allergens m = u ''Mustard''"
    using v4 unfolding b4 by (simp add: m4)
  have e4: "(\<exists>veg m. build_vegan_context L dal_day = Some veg \<and>
        cl_mains (cx_lunch veg) = [plain_dish JACKET_VE [] [], m] \<and>
        c_title m = Plain (u ''Dal (Ve)'') \<and> c_allergens m = u ''Mustard'')"
    apply (rule exI [of _ veg], rule exI [of _ m])
    apply (intro conjI b4 m4 conjunct1 [OF r4] conjunct2 [OF r4])
    done
  show "(contains (u ''(ve'') (str_lower L (allergens (l_vegan_main (src_lunch (dr_source sample_day))))) \<or> ve_plus_search L (allergens (l_vegan_main (src_lunch (dr_source sample_day))))) \<and> ve_search L (allergens (l_vegan_main (src_lunch (dr_source sample_day)))) = Some (u ''Curry (Ve)'') \<and> length (strip_suffixes (title (l_vegan_main (src_lunch (dr_source sample_day))))) < 2 \<and>
     (\<exists>veg m. build_vegan_context L sample_day = Some veg \<and>
        cl_mains (cx_lunch veg) = [plain_dish JACKET_VE [] [], m] \<and>
        c_title m = Plain (u ''Curry (Ve)'') \<and> c_allergens m = u ''Mustard'') \<and>
     (contains (u ''(ve'') (str_lower L (allergens (l_vegan_main (src_lunch (dr_source titled_day))))) \<or> ve_plus_search L (allergens (l_vegan_main (src_lunch (dr_source titled_day))))) \<and> ve_search L (allergens (l_vegan_main (src_lunch (dr_source titled_day)))) = Some (u ''Curry (Ve)'') \<and> \<not> length (strip_suffixes (title (l_vegan_main (src_lunch (dr_source titled_day))))) < 2 \<and>
     (\<exists>veg m. build_vegan_context L titled_day = Some veg \<and>
        cl_mains (cx_lunch veg) = [plain_dish JACKET_VE [] [], m] \<and>
        c_title m = Plain (u ''Lentil bake (Ve)'') \<and> c_allergens m = u ''Mustard'') \<and>
     (contains (u ''(ve'') (str_lower L (allergens (l_vegan_main (src_lunch (dr_source marker_only_day))))) \<or> ve_plus_search L (allergens (l_vegan_main (src_lunch (dr_source marker_only_day))))) \<and> ve_search L (allergens (l_vegan_main (src_lunch (dr_source marker_only_day)))) = None \<and>
     (\<exists>veg m. build_vegan_context L marker_only_day = Some veg \<and>
        cl_mains (cx_lunch veg) = [plain_dish JACKET_VE [] [], m] \<and>
        c_title m = Plain (u ''(Ve)'') \<and> c_allergens m = u ''(Ve), Mustard'') \<and>
     \<not> (contains (u ''(ve'') (str_lower L (allergens (l_vegan_main (src_lunch (dr_source dal_day))))) \<or> ve_plus_search L (allergens (l_vegan_main (src_lunch (dr_source dal_day))))) \<and>
     (\<exists>veg m. build_vegan_context L dal_day = Some veg \<and>
        cl_mains (cx_lunch veg) = [plain_dish JACKET_VE [] [], m] \<and>
        c_title m = Plain (u ''Dal (Ve)'') \<and> c_allergens m = u ''Mustard'')"
    using c1 e1 c2 e2 c3 e3 c4 e4 by (intro conjI) (simp_all only: simp_thms)
qed

theorem vegan_main_marker_only_counterexample:
  "\<forall>L. contains (u ''(ve)'') (str_lower L (allergens (l_vegan_main (src_lunch (dr_source marker_only_day))))) \<and>
   length (strip_suffixes (title (l_vegan_main (src_lunch (dr_source marker_only_day))))) < 2 \<and>
   map_option (\<lambda>veg. map (\<lambda>x. (c_title x, c_allergens x)) (cl_mains (cx_lunch veg)))
     (build_vegan_context L marker_only_day) =
     Some [(Plain JACKET_VE, []), (Plain (u ''(Ve)''), u ''(Ve), Mustard'')] \<and>
   contains (u ''(Ve)'') (u ''(Ve), Mustard'')"
proof
  fix L
  show "contains (u ''(ve)'') (str_lower L (allergens (l_vegan_main (src_lunch (dr_source marker_only_day))))) \<and>
   length (strip_suffixes (title (l_vegan_main (src_lunch (dr_source marker_only_day))))) < 2 \<and>
   map_option (\<lambda>veg. map (\<lambda>x. (c_title x, c_allergens x)) (cl_mains (cx_lunch veg)))
     (build_vegan_context L marker_only_day) =
     Some [(Plain JACKET_VE, []), (Plain (u ''(Ve)''), u ''(Ve), Mustard'')] \<and>
   contains (u ''(Ve)'') (u ''(Ve), Mustard'')"
    by code_simp
qed

section \<open>Side effects of the builders\<close>

text \<open>
  Claim C2 does not hold of the Standard builder.  On the sample day with the chef's
  soup as its first lunch starter, \<^verbatim>\<open>build_standard_context\<close> returns, and the day record
  it was called on is another one afterwards: the title of its first lunch starter,
  the string \<^verbatim>\<open>Chef's choice soup\<close> before the call, is a yellow \<^verbatim>\<open>RichText\<close> after it, the
  same object the Standard context shows.  The Vegan builder returns on the day as it
  was, and raises on the day as the Standard builder leaves it; so does the
  assembler, whatever contexts it is given.
\<close>

theorem standard_builder_rewrites_day:
  "\<forall>L. \<exists>std dr1.
     build_standard_context L chef_day = Some (std, dr1) \<and>
     dr1 \<noteq> chef_day \<and>
     st_title (day_starters chef_day ! 0) = Plain CHEFS_SOUP_TYPED \<and>
     st_title (day_starters dr1 ! 0) = Yellow (Plain CHEFS_SOUP_TYPED) \<and>
     c_title (cl_starters (cx_lunch std) ! 0) = Yellow (Plain CHEFS_SOUP_TYPED) \<and>
     build_vegan_context L chef_day \<noteq> None \<and>
     build_vegan_context L dr1 = None \<and>
     (\<forall>std' veg. collect_allergen_items_for_table L dr1 std' veg = None)"
proof
  fix L
  have w: "two_each chef_day" by code_simp
  have t: "st_title (day_starters chef_day ! 0) = Plain CHEFS_SOUP_TYPED" by code_simp
  have c: "is_chefs_choice_soup L (st_title (day_starters chef_day ! 0))" by code_simp
  have x: "map_option (\<lambda>(std, d). c_title (cl_starters (cx_lunch std) ! 0))
             (build_standard_context L chef_day) = Some (Yellow (Plain CHEFS_SOUP_TYPED))"
    by code_simp
  obtain std dr1 where s: "build_standard_context L chef_day = Some (std, dr1)"
    and y: "st_title (day_starters dr1 ! 0) = Yellow (st_title (day_starters chef_day ! 0))"
    and v: "build_vegan_context L dr1 = None"
    and a: "\<forall>std' veg. collect_allergen_items_for_table L dr1 std' veg = None"
    using pipeline_raises [OF w c] by blast
  have y': "st_title (day_starters dr1 ! 0) = Yellow (Plain CHEFS_SOUP_TYPED)"
    using y t by simp
  have n: "dr1 \<noteq> chef_day" using y' t by auto
  have x': "c_title (cl_starters (cx_lunch std) ! 0) = Yellow (Plain CHEFS_SOUP_TYPED)"
    using x s by simp
  have b: "build_vegan_context L chef_day \<noteq> None"
    using build_vegan_context_total [OF w t, of L] by auto
  show "\<exists>std dr1.
     build_standard_context L chef_day = Some (std, dr1) \<and>
     dr1 \<noteq> chef_day \<and>
     st_title (day_starters chef_day ! 0) = Plain CHEFS_SOUP_TYPED \<and>
     st_title (day_starters dr1 ! 0) = Yellow (Plain CHEFS_SOUP_TYPED) \<and>
     c_title (cl_starters (cx_lunch std) ! 0) = Yellow (Plain CHEFS_SOUP_TYPED) \<and>
     build_vegan_context L chef_day \<noteq> None \<and>
     build_vegan_context L dr1 = None \<and>
     (\<forall>std' veg. collect_allergen_items_for_table L dr1 std' veg = None)"
    apply (rule exI [of _ std], rule exI [of _ dr1])
    apply (intro conjI s n t y' x' b v a)
    done
qed


section \<open>The soup line of the allergen table\<close>

lemma startswith_iff: "startswith p s \<longleftrightarrow> (\<exists>b. s = p @ b)"
  by (induction p s rule: startswith.induct) auto

lemma contains_iff: "contains p s \<longleftrightarrow> (\<exists>a b. s = a @ p @ b)"
proof (induction s)
  case Nil
  show ?case by auto
next
  case (Cons c cs)
  show ?case
  proof
    assume "contains p (c # cs)"
    then consider "startswith p (c # cs)" | "contains p cs" by auto
    then show "\<exists>a b. c # cs = a @ p @ b"
    proof cases
      case 1
      then obtain b where "c # cs = p @ b" using startswith_iff by blast
      then have "c # cs = [] @ p @ b" by simp
      then show ?thesis by blast
    next
      case 2
      then obtain a b where "cs = a @ p @ b" using Cons.IH by blast
      then have "c # cs = (c # a) @ p @ b" by simp
      then show ?thesis by blast
    qed
  next
    assume "\<exists>a b. c # cs = a @ p @ b"
    then obtain a b where e: "c # cs = a @ p @ b" by blast
    show "contains p (c # cs)"
    proof (cases a)
      case Nil
      then have "startswith p (c # cs)" using e startswith_iff by auto
      then show ?thesis by simp
    next
      case (Cons x xs)
      then have "cs = xs @ p @ b" using e by simp
      then have "contains p cs" using Cons.IH by blast
      then show ?thesis by simp
    qed
  qed
qed

lemma contains_rev: "contains (rev p) (rev s) \<longleftrightarrow> contains p s"
proof -
  have "(\<exists>a b. rev s = a @ rev p @ b) \<longleftrightarrow> (\<exists>a b. s = a @ p @ b)"
  proof
    assume "\<exists>a b. rev s = a @ rev p @ b"
    then obtain a b where "rev s = a @ rev p @ b" by blast
    then have "rev (rev s) = rev (a @ rev p @ b)" by simp
    then have "s = rev b @ p @ rev a" by simp
    then show "\<exists>a b. s = a @ p @ b" by blast
  next
    assume "\<exists>a b. s = a @ p @ b"
    then obtain a b where "s = a @ p @ b" by blast
    then have "rev s = rev b @ rev p @ rev a" by simp
    then show "\<exists>a b. rev s = a @ rev p @ b" by blast
  qed
  then show ?thesis by (simp only: contains_iff)
qed

lemma contains_dropWhile:
  assumes "p \<noteq> []" "\<not> P (hd p)"
  shows "contains p (dropWhile P s) \<longleftrightarrow> contains p s"
proof
  assume "contains p (dropWhile P s)"
  then obtain a b where "dropWhile P s = a @ p @ b" using contains_iff by blast
  then have "s = (takeWhile P s @ a) @ p @ b"
    by (metis append_assoc takeWhile_dropWhile_id)
  then show "contains p s" using contains_iff by blast
next
  assume "contains p s"
  then obtain a b where e: "s = a @ p @ b" using contains_iff by blast
  have np: "\<exists>x\<in>set (p @ b). \<not> P x" using assms by (cases p) auto
  show "contains p (dropWhile P s)"
  proof (cases "\<forall>x\<in>set a. P x")
    case True
    then have "dropWhile P s = dropWhile P (p @ b)" unfolding e by (simp add: dropWhile_append2)
    also have "\<dots> = p @ b" using assms by (cases p) auto
    finally have "dropWhile P s = [] @ p @ b" by simp
    then show ?thesis using contains_iff by blast
  next
    case False
    then obtain x where "x \<in> set a" "\<not> P x" by blast
    then have "dropWhile P s = dropWhile P a @ p @ b" unfolding e by (rule dropWhile_append1)
    then show ?thesis using contains_iff by blast
  qed
qed

lemma contains_strip_by:
  assumes "p \<noteq> []" "\<not> P (hd p)" "\<not> P (last p)"
  shows "contains p (strip_by P s) \<longleftrightarrow> contains p s"
proof -
  have r: "rev p \<noteq> []" "\<not> P (hd (rev p))" using assms by (simp_all add: hd_rev)
  have "contains p (strip_by P s) \<longleftrightarrow> contains (rev p) (dropWhile P (rev (dropWhile P s)))"
    unfolding strip_by_def rstrip_by_def lstrip_by_def
    using contains_rev [of p "rev (dropWhile P (rev (dropWhile P s)))"] by simp
  also have "\<dots> \<longleftrightarrow> contains (rev p) (rev (dropWhile P s))"
    using r by (rule contains_dropWhile)
  also have "\<dots> \<longleftrightarrow> contains p (dropWhile P s)" by (rule contains_rev)
  also have "\<dots> \<longleftrightarrow> contains p s" using assms(1,2) by (rule contains_dropWhile)
  finally show ?thesis .
qed

lemma soup_ve_ends:
  "CHEFS_SOUP @ u '' (Ve)'' \<noteq> []"
  "\<not> isspace (hd (CHEFS_SOUP @ u '' (Ve)''))"
  "\<not> isspace (last (CHEFS_SOUP @ u '' (Ve)''))"
  by (simp_all add: CHEFS_SOUP_def u_Cons u_Nil isspace_def)

lemma soup_ve_strip: "contains (CHEFS_SOUP @ u '' (Ve)'') (str_strip t) \<longleftrightarrow> contains (CHEFS_SOUP @ u '' (Ve)'') t"
  unfolding str_strip_def using soup_ve_ends by (rule contains_strip_by)

lemma soup_ve_self: "contains (CHEFS_SOUP @ u '' (Ve)'') (CHEFS_SOUP @ u '' (Ve)'')"
proof -
  have "CHEFS_SOUP @ u '' (Ve)'' = [] @ (CHEFS_SOUP @ u '' (Ve)'') @ []" by simp
  then show ?thesis unfolding contains_iff by blast
qed

lemma add_row_count:
  "length (filter (\<lambda>r. contains (CHEFS_SOUP @ u '' (Ve)'') (fst r)) (add_row L call)) =
     (if contains (CHEFS_SOUP @ u '' (Ve)'') (fst call) then 1 else 0)"
proof -
  obtain t a h f where c: "call = (t, a, h, f)" by (cases call) auto
  show ?thesis
  proof (cases "str_strip t = []")
    case True
    then have "\<not> contains (CHEFS_SOUP @ u '' (Ve)'') t \<or> h"
      using soup_ve_strip [of t] soup_ve_ends(1) by simp
    with True show ?thesis unfolding c by (auto simp: add_row_def)
  next
    case False
    then show ?thesis unfolding c using soup_ve_strip [of t] by (auto simp: add_row_def)
  qed
qed

lemma rows_count:
  "length (filter (\<lambda>r. contains (CHEFS_SOUP @ u '' (Ve)'') (fst r)) (concat (map (add_row L) calls))) =
   length (filter (\<lambda>c. contains (CHEFS_SOUP @ u '' (Ve)'') (fst c)) calls)"
  by (induction calls) (simp_all add: add_row_count)

text \<open>
  Claim C3, amended.  The label is \<^verbatim>\<open>Chef's choice soup (Ve)\<close> as the program writes it,
  with the typographic apostrophe (the code point 8217 of \<open>CHEFS_SOUP\<close>).  Whenever the assembler returns, it has called
  \<^verbatim>\<open>add\<close> once with this fixed label, as the third call from the end, and that call
  gives one row.  Every other call gives a row that contains the label exactly when
  the title passed to it contains the label: the number of rows whose label contains
  \<^verbatim>\<open>Chef's choice soup (Ve)\<close> is one more than the number of the other calls whose title
  contains it.  These titles come from the day and the two contexts (the lunch
  starters, the mains, the sides, the desserts, the supper specials), so the rows
  hold the label once exactly when no title of the day contains it; a vegan supper
  special that is itself titled \<^verbatim>\<open>Chef's choice soup (Ve)\<close> gives a second row.
\<close>

theorem soup_row_once_per_call:
  "collect_allergen_items_for_table L dr std veg = Some rows \<longrightarrow>
     (\<exists>pre.
        add_calls L dr std veg =
          Some (pre @
            [(sentence_case L (strip_suffixes (title (l_desserts (src_lunch (dr_source dr)) ! 0)))
                @ u '' (Ve)'',
              Inl VEGAN_DESSERTS_ALL, False, True),
             (CHEFS_SOUP @ u '' (Ve)'',
              Inr (scrub_vegan_csv_to_canonset L (allergens (s_starter (src_supper (dr_source dr))))),
              False, False),
             (add_suffix (strip_suffixes (title (s_vegan_special (src_supper (dr_source dr))))) (u ''(Ve)''),
              Inr (scrub_vegan_csv_to_canonset L (allergens (s_vegan_special (src_supper (dr_source dr))))),
              False, False),
             (sentence_case L (strip_suffixes (title (s_desserts (src_supper (dr_source dr)) ! 0)))
                @ u '' (Ve)'',
              Inl VEGAN_DESSERTS_ALL, False, True)]) \<and>
        length (filter (\<lambda>r. contains (CHEFS_SOUP @ u '' (Ve)'') (fst r)) rows) =
          1 + length (filter (\<lambda>t. contains (CHEFS_SOUP @ u '' (Ve)'') t)
                 (map fst pre @
                  [sentence_case L (strip_suffixes (title (l_desserts (src_lunch (dr_source dr)) ! 0)))
                     @ u '' (Ve)'',
                   add_suffix (strip_suffixes (title (s_vegan_special (src_supper (dr_source dr)))))
                     (u ''(Ve)''),
                   sentence_case L (strip_suffixes (title (s_desserts (src_supper (dr_source dr)) ! 0)))
                     @ u '' (Ve)''])))"
proof
  assume a: "collect_allergen_items_for_table L dr std veg = Some rows"
  then obtain calls where c: "add_calls L dr std veg = Some calls"
    and r: "rows = concat (map (add_row L) calls)"
    unfolding collect_allergen_items_for_table_def by auto
  obtain pre where p: "calls = pre @
       [(sentence_case L (strip_suffixes (title (l_desserts (src_lunch (dr_source dr)) ! 0))) @ u '' (Ve)'',
         Inl VEGAN_DESSERTS_ALL, False, True),
        (CHEFS_SOUP @ u '' (Ve)'',
         Inr (scrub_vegan_csv_to_canonset L (allergens (s_starter (src_supper (dr_source dr))))), False, False),
        (add_suffix (strip_suffixes (title (s_vegan_special (src_supper (dr_source dr))))) (u ''(Ve)''),
         Inr (scrub_vegan_csv_to_canonset L (allergens (s_vegan_special (src_supper (dr_source dr))))),
         False, False),
        (sentence_case L (strip_suffixes (title (s_desserts (src_supper (dr_source dr)) ! 0))) @ u '' (Ve)'',
         Inl VEGAN_DESSERTS_ALL, False, True)]"
    using add_calls_tail [OF c] by blast
  have f: "length (filter (\<lambda>c. contains (CHEFS_SOUP @ u '' (Ve)'') (fst c)) pre) =
           length (filter (\<lambda>t. contains (CHEFS_SOUP @ u '' (Ve)'') t) (map fst pre))"
    by (induction pre) simp_all
  have "length (filter (\<lambda>r. contains (CHEFS_SOUP @ u '' (Ve)'') (fst r)) rows) =
        length (filter (\<lambda>c. contains (CHEFS_SOUP @ u '' (Ve)'') (fst c)) calls)"
    unfolding r by (rule rows_count)
  also have "\<dots> = 1 + length (filter (\<lambda>t. contains (CHEFS_SOUP @ u '' (Ve)'') t)
                 (map fst pre @
                  [sentence_case L (strip_suffixes (title (l_desserts (src_lunch (dr_source dr)) ! 0)))
                     @ u '' (Ve)'',
                   add_suffix (strip_suffixes (title (s_vegan_special (src_supper (dr_source dr)))))
                     (u ''(Ve)''),
                   sentence_case L (strip_suffixes (title (s_desserts (src_supper (dr_source dr)) ! 0)))
                     @ u '' (Ve)'']))"
    unfolding p using soup_ve_self f by simp
  finally show "\<exists>pre.
        add_calls L dr std veg =
          Some (pre @
            [(sentence_case L (strip_suffixes (title (l_desserts (src_lunch (dr_source dr)) ! 0)))
                @ u '' (Ve)'',
              Inl VEGAN_DESSERTS_ALL, False, True),
             (CHEFS_SOUP @ u '' (Ve)'',
              Inr (scrub_vegan_csv_to_canonset L (allergens (s_starter (src_supper (dr_source dr))))),
              False, False),
             (add_suffix (strip_suffixes (title (s_vegan_special (src_supper (dr_source dr))))) (u ''(Ve)''),
              Inr (scrub_vegan_csv_to_canonset L (allergens (s_vegan_special (src_supper (dr_source dr))))),
              False, False),
             (sentence_case L (strip_suffixes (title (s_desserts (src_supper (dr_source dr)) ! 0)))
                @ u '' (Ve)'',
              Inl VEGAN_DESSERTS_ALL, False, True)]) \<and>
        length (filter (\<lambda>r. contains (CHEFS_SOUP @ u '' (Ve)'') (fst r)) rows) =
          1 + length (filter (\<lambda>t. contains (CHEFS_SOUP @ u '' (Ve)'') t)
                 (map fst pre @
                  [sentence_case L (strip_suffixes (title (l_desserts (src_lunch (dr_source dr)) ! 0)))
                     @ u '' (Ve)'',
                   add_suffix (strip_suffixes (title (s_vegan_special (src_supper (dr_source dr)))))
                     (u ''(Ve)''),
                   sentence_case L (strip_suffixes (title (s_desserts (src_supper (dr_source dr)) ! 0)))
                     @ u '' (Ve)'']))"
    using c unfolding p by (intro exI [of _ pre] conjI)
qed

theorem soup_row_once_per_call_witness:
  "\<forall>L. \<exists>std dr1 veg rows pre.
     build_standard_context L sample_day = Some (std, dr1) \<and>
     build_vegan_context L dr1 = Some veg \<and>
     collect_allergen_items_for_table L dr1 std veg = Some rows \<and>
     length (filter (\<lambda>r. contains (CHEFS_SOUP @ u '' (Ve)'') (fst r)) rows) =
       1 + length (filter (\<lambda>t. contains (CHEFS_SOUP @ u '' (Ve)'') t)
              (map fst (pre :: add_call list) @
               [sentence_case L (strip_suffixes (title (l_desserts (src_lunch (dr_source dr1)) ! 0)))
                  @ u '' (Ve)'',
                add_suffix (strip_suffixes (title (s_vegan_special (src_supper (dr_source dr1)))))
                  (u ''(Ve)''),
                sentence_case L (strip_suffixes (title (s_desserts (src_supper (dr_source dr1)) ! 0)))
                  @ u '' (Ve)''])) \<and>
     map fst (filter (\<lambda>r. contains (CHEFS_SOUP @ u '' (Ve)'') (fst r)) rows) =
       [CHEFS_SOUP @ u '' (Ve)'']"
proof
  fix L
  have w: "two_each sample_day" by code_simp
  have p: "st_title (day_starters sample_day ! 0) = Plain (u ''Tomato soup'')" by code_simp
  have q: "\<not> is_chefs_choice_soup L (Plain (u ''Tomato soup''))" by code_simp
  obtain std dr1 veg rows where s: "build_standard_context L sample_day = Some (std, dr1)"
    and v: "build_vegan_context L dr1 = Some veg"
    and c: "collect_allergen_items_for_table L dr1 std veg = Some rows"
    using pipeline_returns [OF w p q] by blast
  have "case build_standard_context L sample_day of
          None \<Rightarrow> False
        | Some (std, d1) \<Rightarrow>
            (case build_vegan_context L d1 of
               None \<Rightarrow> False
             | Some veg \<Rightarrow>
                 (case collect_allergen_items_for_table L d1 std veg of
                    None \<Rightarrow> False
                  | Some rows \<Rightarrow>
                      map fst (filter (\<lambda>r. contains (CHEFS_SOUP @ u '' (Ve)'') (fst r)) rows) =
                        [CHEFS_SOUP @ u '' (Ve)'']))"
    by code_simp
  then have one: "map fst (filter (\<lambda>r. contains (CHEFS_SOUP @ u '' (Ve)'') (fst r)) rows) =
       [CHEFS_SOUP @ u '' (Ve)'']"
    using s v c by simp
  have "\<exists>pre. length (filter (\<lambda>r. contains (CHEFS_SOUP @ u '' (Ve)'') (fst r)) rows) =
       1 + length (filter (\<lambda>t. contains (CHEFS_SOUP @ u '' (Ve)'') t)
              (map fst (pre :: add_call list) @
               [sentence_case L (strip_suffixes (title (l_desserts (src_lunch (dr_source dr1)) ! 0)))
                  @ u '' (Ve)'',
                add_suffix (strip_suffixes (title (s_vegan_special (src_supper (dr_source dr1)))))
                  (u ''(Ve)''),
                sentence_case L (strip_suffixes (title (s_desserts (src_supper (dr_source dr1)) ! 0)))
                  @ u '' (Ve)'']))"
    using mp [OF soup_row_once_per_call [of L dr1 std veg rows] c]
    by (elim exE conjE) (rule exI)
  then obtain pre where n: "length (filter (\<lambda>r. contains (CHEFS_SOUP @ u '' (Ve)'') (fst r)) rows) =
       1 + length (filter (\<lambda>t. contains (CHEFS_SOUP @ u '' (Ve)'') t)
              (map fst (pre :: add_call list) @
               [sentence_case L (strip_suffixes (title (l_desserts (src_lunch (dr_source dr1)) ! 0)))
                  @ u '' (Ve)'',
                add_suffix (strip_suffixes (title (s_vegan_special (src_supper (dr_source dr1)))))
                  (u ''(Ve)''),
                sentence_case L (strip_suffixes (title (s_desserts (src_supper (dr_source dr1)) ! 0)))
                  @ u '' (Ve)'']))"
    by (rule exE)
  show "\<exists>std dr1 veg rows pre.
     build_standard_context L sample_day = Some (std, dr1) \<and>
     build_vegan_context L dr1 = Some veg \<and>
     collect_allergen_items_for_table L dr1 std veg = Some rows \<and>
     length (filter (\<lambda>r. contains (CHEFS_SOUP @ u '' (Ve)'') (fst r)) rows) =
       1 + length (filter (\<lambda>t. contains (CHEFS_SOUP @ u '' (Ve)'') t)
              (map fst (pre :: add_call list) @
               [sentence_case L (strip_suffixes (title (l_desserts (src_lunch (dr_source dr1)) ! 0)))
                  @ u '' (Ve)'',
                add_suffix (strip_suffixes (title (s_vegan_special (src_supper (dr_source dr1)))))
                  (u ''(Ve)''),
                sentence_case L (strip_suffixes (title (s_desserts (src_supper (dr_source dr1)) ! 0)))
                  @ u '' (Ve)''])) \<and>
     map fst (filter (\<lambda>r. contains (CHEFS_SOUP @ u '' (Ve)'') (fst r)) rows) =
       [CHEFS_SOUP @ u '' (Ve)'']"
    apply (rule exI [of _ std], rule exI [of _ dr1], rule exI [of _ veg], rule exI [of _ rows],
        rule exI [of _ pre])
    apply (intro conjI s v c n one)
    done
qed

theorem soup_special_two_rows_counterexample:
  "\<forall>L. title (s_vegan_special (src_supper (dr_source soup_special_day))) = CHEFS_SOUP @ u '' (Ve)'' \<and>
     (\<exists>std dr1 veg rows.
        build_standard_context L soup_special_day = Some (std, dr1) \<and>
        dr1 = soup_special_day \<and>
        build_vegan_context L dr1 = Some veg \<and>
        collect_allergen_items_for_table L dr1 std veg = Some rows \<and>
        map fst (filter (\<lambda>r. contains (CHEFS_SOUP @ u '' (Ve)'') (fst r)) rows) =
          [CHEFS_SOUP @ u '' (Ve)'', CHEFS_SOUP @ u '' (Ve)''])"
proof
  fix L
  have t: "title (s_vegan_special (src_supper (dr_source soup_special_day))) = CHEFS_SOUP @ u '' (Ve)''"
    by code_simp
  have "case build_standard_context L soup_special_day of
          None \<Rightarrow> False
        | Some (std, d1) \<Rightarrow>
            d1 = soup_special_day \<and>
            (case build_vegan_context L d1 of
               None \<Rightarrow> False
             | Some veg \<Rightarrow>
                 (case collect_allergen_items_for_table L d1 std veg of
                    None \<Rightarrow> False
                  | Some rows \<Rightarrow>
                      map fst (filter (\<lambda>r. contains (CHEFS_SOUP @ u '' (Ve)'') (fst r)) rows) =
                        [CHEFS_SOUP @ u '' (Ve)'', CHEFS_SOUP @ u '' (Ve)'']))"
    by code_simp
  then have "\<exists>std dr1 veg rows.
        build_standard_context L soup_special_day = Some (std, dr1) \<and>
        dr1 = soup_special_day \<and>
        build_vegan_context L dr1 = Some veg \<and>
        collect_allergen_items_for_table L dr1 std veg = Some rows \<and>
        map fst (filter (\<lambda>r. contains (CHEFS_SOUP @ u '' (Ve)'') (fst r)) rows) =
          [CHEFS_SOUP @ u '' (Ve)'', CHEFS_SOUP @ u '' (Ve)'']"
    by (auto split: option.splits prod.splits)
  with t show "title (s_vegan_special (src_supper (dr_source soup_special_day))) = CHEFS_SOUP @ u '' (Ve)'' \<and>
     (\<exists>std dr1 veg rows.
        build_standard_context L soup_special_day = Some (std, dr1) \<and>
        dr1 = soup_special_day \<and>
        build_vegan_context L dr1 = Some veg \<and>
        collect_allergen_items_for_table L dr1 std veg = Some rows \<and>
        map fst (filter (\<lambda>r. contains (CHEFS_SOUP @ u '' (Ve)'') (fst r)) rows) =
          [CHEFS_SOUP @ u '' (Ve)'', CHEFS_SOUP @ u '' (Ve)''])"
    by (rule conjI)
qed

end
